(* ===== verification/Prelude.thy ===== *)
theory Prelude
  imports Main "HOL-Library.Word"
begin

text \<open>
  Shared vocabulary of the development: the result type of fallible Go functions, the
  proof-rule collections, and the generic facts about lists that several components use
  (suffixes of bounded length, Go's builtin \<^verbatim>\<open>copy\<close>, association lists keyed by a
  primary key).
\<close>

section \<open>Types\<close>

text \<open>
  A Go function with results \<open>(T, error)\<close> becomes a function into a sum: \<open>Inl\<close> holds the
  error, \<open>Inr\<close> the value. Instants and durations are integers (nanoseconds), as
  \<^verbatim>\<open>time.Duration\<close> is; \<^verbatim>\<open>time.Now()\<close> is always an argument.
\<close>

type_synonym ('e, 'a) result = "'e + 'a"
type_synonym byte = "8 word"
type_synonym instant = int
type_synonym duration = int

abbreviation Ok :: "'a \<Rightarrow> ('e, 'a) result" where
  "Ok \<equiv> Inr"

abbreviation Err :: "'e \<Rightarrow> ('e, 'a) result" where
  "Err \<equiv> Inl"

definition is_ok :: "('e, 'a) result \<Rightarrow> bool" where
  "is_ok r \<longleftrightarrow> (case r of Inl _ \<Rightarrow> False | Inr _ \<Rightarrow> True)"

text \<open>Durations of the Go \<^verbatim>\<open>time\<close> package.\<close>

definition second :: duration where
  "second = 1000000000"

definition minute :: duration where
  "minute = 60 * second"

definition hour :: duration where
  "hour = 60 * minute"

section \<open>List operations of the language\<close>

text \<open>The last \<open>n\<close> elements of a list: all of it when it is shorter.\<close>

definition lastn :: "nat \<Rightarrow> 'a list \<Rightarrow> 'a list" where
  "lastn n xs = drop (length xs - n) xs"

text \<open>
  Go's builtin \<^verbatim>\<open>copy(dst, src)\<close>: overwrites a prefix of \<open>dst\<close> with as much of \<open>src\<close> as
  fits; the length of \<open>dst\<close> never changes. The number of copied elements is the minimum of
  the two lengths.
\<close>

definition go_copy :: "'a list \<Rightarrow> 'a list \<Rightarrow> 'a list" where
  "go_copy dst src = take (length dst) src @ drop (length src) dst"

definition go_copy_n :: "'a list \<Rightarrow> 'a list \<Rightarrow> nat" where
  "go_copy_n dst src = min (length dst) (length src)"

section \<open>Proof-rule collections\<close>

named_theorems list_ops \<open>rewrite rules for the list operations of the language\<close>
named_theorems go_str \<open>definitions and facts of the Go strings package\<close>
named_theorems inv_keep \<open>operations that keep a component's invariant\<close>

section \<open>Facts\<close>

lemma is_ok_simps [simp]:
  "is_ok (Inl e) = False" "is_ok (Inr a) = True"
  by (simp_all add: is_ok_def)

lemma length_lastn [simp]: "length (lastn n xs) = min n (length xs)"
  by (simp add: lastn_def)

lemma lastn_all [simp]: "length xs \<le> n \<Longrightarrow> lastn n xs = xs"
  by (simp add: lastn_def)

lemma lastn_0 [simp]: "lastn 0 xs = []"
  by (simp add: lastn_def)

lemma lastn_append_long [list_ops]: "n \<le> length ys \<Longrightarrow> lastn n (xs @ ys) = lastn n ys"
  by (simp add: lastn_def)

lemma lastn_append_short [list_ops]:
  "length ys \<le> n \<Longrightarrow> lastn n (xs @ ys) = lastn (n - length ys) xs @ ys"
  by (simp add: lastn_def)

lemma lastn_lastn_append: "lastn n (lastn n xs @ ys) = lastn n (xs @ ys)"
proof (cases "n \<le> length ys")
  case True
  then show ?thesis by (simp add: lastn_append_long)
next
  case False
  then have "lastn (n - length ys) (lastn n xs) = lastn (n - length ys) xs"
    by (cases "n \<le> length xs") (auto simp: lastn_def add.commute)
  with False show ?thesis by (simp add: lastn_append_short)
qed

lemma lastn_suffix: "\<exists>pre. xs = pre @ lastn n xs"
  unfolding lastn_def by (metis append_take_drop_id)

lemma set_lastn_subset: "set (lastn n xs) \<subseteq> set xs"
  by (simp add: lastn_def set_drop_subset)

lemma length_go_copy [simp]: "length (go_copy dst src) = length dst"
  by (simp add: go_copy_def)

lemma go_copy_same_length [simp]: "length dst = length src \<Longrightarrow> go_copy dst src = src"
  by (simp add: go_copy_def)

lemma nth_update_if: "xs[i := x] ! j = (if i = j \<and> i < length xs then x else xs ! j)"
  by (cases "i < length xs") (auto simp: nth_list_update list_update_beyond)

text \<open>Association lists used as tables with a primary key.\<close>

lemma map_of_filter_neq: "map_of (filter (\<lambda>p. fst p \<noteq> k) xs) = (map_of xs)(k := None)"
proof
  fix x
  show "map_of (filter (\<lambda>p. fst p \<noteq> k) xs) x = ((map_of xs)(k := None)) x"
    by (induction xs) auto
qed

lemma distinct_map_filter_key: "distinct (map f xs) \<Longrightarrow> distinct (map f (filter P xs))"
  by (induction xs) auto

lemma find_SomeD: "List.find P xs = Some x \<Longrightarrow> x \<in> set xs \<and> P x"
  by (auto simp: find_Some_iff)

lemma find_append: "List.find P (xs @ ys) = (case List.find P xs of Some x \<Rightarrow> Some x | None \<Rightarrow> List.find P ys)"
  by (induction xs) auto

lemma find_unique:
  assumes "x \<in> set xs" "P x" "\<And>y. y \<in> set xs \<Longrightarrow> P y \<Longrightarrow> y = x"
  shows "List.find P xs = Some x"
proof -
  from assms(1,2) have "List.find P xs \<noteq> None" by (auto simp: find_None_iff)
  then obtain y where y: "List.find P xs = Some y" by auto
  with assms(3) have "y = x" by (blast dest: find_SomeD)
  with y show ?thesis by simp
qed

end
