(* ===== verification/Ring_Buffer.thy ===== *)
theory Ring_Buffer
  imports Prelude
begin

text \<open>
  The circular output buffer of a terminal session (\<^verbatim>\<open>internal/terminal/ringbuf.go\<close>): its
  record, the constructor, \<open>Write\<close> and \<open>Bytes\<close>; the interface \<open>replay_buffer\<close> that the
  session managers rely on; and the proof that the buffer implements it, i.e. that it always
  holds exactly the last \<open>n\<close> bytes written.
\<close>

section \<open>The buffer\<close>

record ring_buffer =
  rb_buf :: "byte list"
  rb_size :: nat
  rb_w :: nat
  rb_full :: bool

definition NewRingBuffer :: "nat \<Rightarrow> ring_buffer" where
  "NewRingBuffer n = \<lparr>rb_buf = replicate n 0, rb_size = n, rb_w = 0, rb_full = False\<rparr>"

text \<open>
  \<open>Write\<close>. \<^verbatim>\<open>copy(rb.buf[rb.w:], p)\<close> overwrites the part of the array from \<open>w\<close> on, so the
  new array is the untouched first \<open>w\<close> elements followed by the copied tail.
\<close>

definition rb_Write :: "ring_buffer \<Rightarrow> byte list \<Rightarrow> ring_buffer" where
  "rb_Write rb p =
     (if length p \<ge> rb_size rb then
        rb\<lparr>rb_buf := go_copy (rb_buf rb) (drop (length p - rb_size rb) p),
           rb_w := 0, rb_full := True\<rparr>
      else
        let n = go_copy_n (drop (rb_w rb) (rb_buf rb)) p;
            buf1 = take (rb_w rb) (rb_buf rb) @ go_copy (drop (rb_w rb) (rb_buf rb)) p
        in if n < length p then
             rb\<lparr>rb_buf := go_copy buf1 (drop n p), rb_w := length p - n, rb_full := True\<rparr>
           else if rb_w rb + n = rb_size rb then
             rb\<lparr>rb_buf := buf1, rb_w := 0, rb_full := True\<rparr>
           else
             rb\<lparr>rb_buf := buf1, rb_w := rb_w rb + n\<rparr>)"

definition rb_Bytes :: "ring_buffer \<Rightarrow> byte list" where
  "rb_Bytes rb =
     (if \<not> rb_full rb then
        go_copy (replicate (rb_w rb) 0) (take (rb_w rb) (rb_buf rb))
      else
        let out = replicate (rb_size rb) 0;
            n = go_copy_n out (drop (rb_w rb) (rb_buf rb));
            out1 = go_copy out (drop (rb_w rb) (rb_buf rb))
        in take n out1 @ go_copy (drop n out1) (take (rb_w rb) (rb_buf rb)))"

text \<open>
  The invariant: the array has the declared size and the write position is a valid index, so
  that no slice expression of the code is out of range.
\<close>

definition rb_ok :: "ring_buffer \<Rightarrow> bool" where
  "rb_ok rb \<longleftrightarrow> length (rb_buf rb) = rb_size rb \<and> (rb_w rb < rb_size rb \<or> rb_w rb = 0)"

section \<open>The interface the session managers rely on\<close>

text \<open>
  A replay buffer of bounded capacity: writing appends, and only the last \<open>cap\<close> elements
  survive.
\<close>

locale replay_buffer =
  fixes mk :: "nat \<Rightarrow> 'b"
    and put :: "'b \<Rightarrow> 'a list \<Rightarrow> 'b"
    and contents :: "'b \<Rightarrow> 'a list"
    and cap :: "'b \<Rightarrow> nat"
    and invar :: "'b \<Rightarrow> bool"
  assumes contents_mk: "contents (mk n) = []"
    and cap_mk: "cap (mk n) = n"
    and invar_mk: "invar (mk n)"
    and contents_put: "invar b \<Longrightarrow> contents (put b p) = lastn (cap b) (contents b @ p)"
    and cap_put: "cap (put b p) = cap b"
    and invar_put: "invar b \<Longrightarrow> invar (put b p)"
begin

lemma invar_writes: "invar b \<Longrightarrow> invar (foldl put b ps)"
  by (induction ps arbitrary: b) (simp_all add: invar_put)

lemma cap_writes: "cap (foldl put b ps) = cap b"
  by (induction ps arbitrary: b) (simp_all add: cap_put)

lemma contents_writes:
  assumes "invar b" "length (contents b) \<le> cap b"
  shows "contents (foldl put b ps) = lastn (cap b) (contents b @ concat ps)"
  using assms
proof (induction ps arbitrary: b)
  case Nil
  then show ?case by simp
next
  case (Cons p ps)
  have "contents (foldl put (put b p) ps)
      = lastn (cap (put b p)) (contents (put b p) @ concat ps)"
    using Cons.prems by (intro Cons.IH) (simp_all add: invar_put contents_put cap_put)
  then show ?case
    using Cons.prems by (simp add: contents_put cap_put lastn_lastn_append)
qed

lemma contents_history: "contents (foldl put (mk n) ps) = lastn n (concat ps)"
  using contents_writes [of "mk n" ps] by (simp add: contents_mk cap_mk invar_mk)

end

section \<open>The ring buffer implements the interface\<close>

lemma rb_ok_New [inv_keep]: "rb_ok (NewRingBuffer n)"
  by (simp add: rb_ok_def NewRingBuffer_def)

lemma rb_size_Write [simp]: "rb_size (rb_Write rb p) = rb_size rb"
  by (simp add: rb_Write_def Let_def)

lemma rb_ok_Write [inv_keep]: "rb_ok rb \<Longrightarrow> rb_ok (rb_Write rb p)"
  by (auto simp: rb_ok_def rb_Write_def Let_def go_copy_n_def)

text \<open>Under the invariant \<open>Bytes\<close> is the array read from the write position on.\<close>

lemma rb_Bytes_eq:
  assumes "rb_ok rb"
  shows "rb_Bytes rb =
    (if rb_full rb then drop (rb_w rb) (rb_buf rb) @ take (rb_w rb) (rb_buf rb)
     else take (rb_w rb) (rb_buf rb))"
  using assms by (auto simp: rb_ok_def rb_Bytes_def Let_def go_copy_n_def go_copy_def)

lemma rb_Bytes_Write:
  assumes ok: "rb_ok rb"
  shows "rb_Bytes (rb_Write rb p) = lastn (rb_size rb) (rb_Bytes rb @ p)"
proof -
  let ?n = "rb_size rb" and ?w = "rb_w rb" and ?buf = "rb_buf rb"
  from ok have len: "length ?buf = ?n" and w: "?w < ?n \<or> ?w = 0"
    by (simp_all add: rb_ok_def)
  note eqs = rb_Bytes_eq [OF ok] rb_Bytes_eq [OF rb_ok_Write [OF ok]]
  consider (big) "?n \<le> length p" | (wrap) "length p < ?n" "?n - ?w < length p"
    | (fits) "length p < ?n" "length p \<le> ?n - ?w" by linarith
  then show ?thesis
  proof cases
    case big
    then show ?thesis
      using len unfolding eqs by (simp add: rb_Write_def lastn_append_long lastn_def)
  next
    case wrap
    then show ?thesis
      using len w unfolding eqs
      by (auto simp: rb_Write_def Let_def go_copy_n_def go_copy_def lastn_def add.commute)
  next
    case fits
    then show ?thesis
      using len w unfolding eqs
      by (auto simp: rb_Write_def Let_def go_copy_n_def go_copy_def lastn_def)
  qed
qed

interpretation rb: replay_buffer NewRingBuffer rb_Write rb_Bytes rb_size rb_ok
  by unfold_locales
    (simp_all add: rb_Bytes_Write rb_ok_New rb_ok_Write,
     simp_all add: NewRingBuffer_def rb_Bytes_def)

section \<open>Properties\<close>

text \<open>
  C33: Whatever chunks are written to a ring buffer, in whatever sizes, reading it back gives
  exactly the last \<open>n\<close> bytes of the whole output in the order they were written, also across
  wrap-arounds and for chunks larger than the buffer.
\<close>

theorem rb_replays_tail:
  "rb_Bytes (foldl rb_Write (NewRingBuffer n) chunks) = lastn n (concat chunks)"
  by (rule rb.contents_history)

end
