(* ===== verification/Terminal_Hub.thy ===== *)
theory Terminal_Hub
  imports Ring_Buffer "HOL-Library.Sublist"
begin

text \<open>
  The output side of a terminal session, shared by both session managers
  (\<^verbatim>\<open>internal/terminal/manager.go\<close> and \<^verbatim>\<open>internal/terminal/local.go\<close>): the replay buffer and the set of
  subscriber channels that the output pump broadcasts to. Sending on or closing a closed channel
  would panic, which is \<open>None\<close>. The subscriber set is a list of channel numbers; channels are
  numbered in the order of their creation.
\<close>

section \<open>State\<close>

definition subscriberBufSize :: nat where
  "subscriberBufSize = 256"

text \<open>
  A channel with its queue. \<open>sc_got\<close> (what the reader has taken out) and \<open>sc_since\<close> (how many
  chunks had been output when it was created) only record history.
\<close>

record sub_chan =
  sc_queue :: "byte list list"
  sc_closed :: bool
  sc_got :: "byte list list"
  sc_since :: nat

text \<open>\<open>hb_out\<close> is the history of all chunks output so far.\<close>

record hub =
  hb_buf :: ring_buffer
  hb_subs :: "nat list"
  hb_chans :: "sub_chan list"
  hb_out :: "byte list list"

definition new_hub :: "nat \<Rightarrow> hub" where
  "new_hub bufSize = \<lparr>hb_buf = NewRingBuffer bufSize, hb_subs = [], hb_chans = [], hb_out = []\<rparr>"

section \<open>Operations\<close>

definition hub_Subscribe :: "hub \<Rightarrow> nat \<times> hub" where
  "hub_Subscribe h =
     (length (hb_chans h),
      h\<lparr>hb_subs := hb_subs h @ [length (hb_chans h)],
        hb_chans := hb_chans h @ [\<lparr>sc_queue = [], sc_closed = False, sc_got = [],
                                   sc_since = length (hb_out h)\<rparr>]\<rparr>)"

definition hub_Unsubscribe :: "nat \<Rightarrow> hub \<Rightarrow> hub" where
  "hub_Unsubscribe c h = h\<lparr>hb_subs := removeAll c (hb_subs h)\<rparr>"

definition close_chan :: "nat \<Rightarrow> hub \<Rightarrow> hub option" where
  "close_chan c h =
     (if sc_closed (hb_chans h ! c) then None
      else Some (h\<lparr>hb_chans := (hb_chans h)[c := (hb_chans h ! c)\<lparr>sc_closed := True\<rparr>]\<rparr>))"

text \<open>One iteration of the broadcast loop: a full channel is closed and evicted.\<close>

definition send_or_evict :: "byte list \<Rightarrow> nat \<Rightarrow> hub \<Rightarrow> hub option" where
  "send_or_evict data c h =
     (let ch = hb_chans h ! c in
      if sc_closed ch then None
      else if length (sc_queue ch) < subscriberBufSize
        then Some (h\<lparr>hb_chans := (hb_chans h)[c := ch\<lparr>sc_queue := sc_queue ch @ [data]\<rparr>]\<rparr>)
      else map_option (\<lambda>h'. h'\<lparr>hb_subs := removeAll c (hb_subs h')\<rparr>) (close_chan c h))"

fun broadcast :: "byte list \<Rightarrow> nat list \<Rightarrow> hub \<Rightarrow> hub option" where
  "broadcast data [] h = Some h"
| "broadcast data (c # cs) h = Option.bind (send_or_evict data c h) (broadcast data cs)"

text \<open>The locked section of the output pump for one chunk.\<close>

definition hub_output :: "byte list \<Rightarrow> hub \<Rightarrow> hub option" where
  "hub_output data h =
     broadcast data (hb_subs h) (h\<lparr>hb_buf := rb_Write (hb_buf h) data, hb_out := hb_out h @ [data]\<rparr>)"

fun close_subs :: "nat list \<Rightarrow> hub \<Rightarrow> hub option" where
  "close_subs [] h = Some h"
| "close_subs (c # cs) h = Option.bind (close_chan c h) (close_subs cs)"

definition hub_Close :: "hub \<Rightarrow> hub option" where
  "hub_Close h = map_option (\<lambda>h'. h'\<lparr>hb_subs := []\<rparr>) (close_subs (hb_subs h) h)"

text \<open>A reader takes the next chunk, if there is one.\<close>

definition hub_recv :: "nat \<Rightarrow> hub \<Rightarrow> hub" where
  "hub_recv c h =
     (if c < length (hb_chans h) then
        (case sc_queue (hb_chans h ! c) of
           [] \<Rightarrow> h
         | d # q \<Rightarrow> h\<lparr>hb_chans := (hb_chans h)[c := (hb_chans h ! c)
                        \<lparr>sc_queue := q, sc_got := sc_got (hb_chans h ! c) @ [d]\<rparr>]\<rparr>)
      else h)"

datatype hub_event = HSub | HUnsub nat | HOutput "byte list" | HRecv nat | HClose

fun hub_step :: "hub_event \<Rightarrow> hub \<Rightarrow> hub option" where
  "hub_step HSub h = Some (snd (hub_Subscribe h))"
| "hub_step (HUnsub c) h = Some (hub_Unsubscribe c h)"
| "hub_step (HOutput d) h = hub_output d h"
| "hub_step (HRecv c) h = Some (hub_recv c h)"
| "hub_step HClose h = hub_Close h"

fun hub_run :: "hub_event list \<Rightarrow> hub \<Rightarrow> hub option" where
  "hub_run [] h = Some h"
| "hub_run (e # es) h = Option.bind (hub_step e h) (hub_run es)"

section \<open>Invariant\<close>

text \<open>What a channel has been given: the chunks output since it was created, up to some point.\<close>

definition chan_ok :: "byte list list \<Rightarrow> sub_chan \<Rightarrow> bool" where
  "chan_ok out ch \<longleftrightarrow> sc_since ch \<le> length out \<and> length (sc_queue ch) \<le> subscriberBufSize
     \<and> prefix (sc_got ch @ sc_queue ch) (drop (sc_since ch) out)"

definition sub_ok :: "byte list list \<Rightarrow> sub_chan \<Rightarrow> bool" where
  "sub_ok out ch \<longleftrightarrow> \<not> sc_closed ch \<and> sc_since ch \<le> length out \<and> sc_got ch @ sc_queue ch = drop (sc_since ch) out"

definition hub_ok :: "hub \<Rightarrow> bool" where
  "hub_ok h \<longleftrightarrow> distinct (hb_subs h) \<and> rb_ok (hb_buf h)
     \<and> (\<forall>c \<in> set (hb_subs h). c < length (hb_chans h) \<and> sub_ok (hb_out h) (hb_chans h ! c))
     \<and> (\<forall>ch \<in> set (hb_chans h). chan_ok (hb_out h) ch)"

lemma hub_ok_new [inv_keep]: "hub_ok (new_hub n)"
  by (simp add: hub_ok_def new_hub_def rb_ok_New)

lemma hub_ok_Subscribe [inv_keep]: "hub_ok h \<Longrightarrow> hub_ok (snd (hub_Subscribe h))"
  by (auto simp: hub_ok_def hub_Subscribe_def nth_append sub_ok_def chan_ok_def)

lemma hub_ok_Unsubscribe [inv_keep]: "hub_ok h \<Longrightarrow> hub_ok (hub_Unsubscribe c h)"
  by (auto simp: hub_ok_def hub_Unsubscribe_def distinct_removeAll)

lemma hub_ok_recv [inv_keep]: "hub_ok h \<Longrightarrow> hub_ok (hub_recv c h)"
proof (cases "c < length (hb_chans h) \<and> sc_queue (hb_chans h ! c) \<noteq> []")
  case True
  assume ok: "hub_ok h"
  let ?ch = "hb_chans h ! c"
  obtain d q where q: "sc_queue ?ch = d # q" using True by (cases "sc_queue ?ch") auto
  have "chan_ok (hb_out h) ?ch" using ok True by (auto simp: hub_ok_def)
  then have "chan_ok (hb_out h) (?ch\<lparr>sc_queue := q, sc_got := sc_got ?ch @ [d]\<rparr>)"
    using q by (simp add: chan_ok_def)
  then show ?thesis using ok True q
    by (auto simp: hub_ok_def hub_recv_def nth_update_if sub_ok_def
        dest!: set_update_subset_insert [THEN subsetD])
next
  case False
  assume "hub_ok h"
  with False show ?thesis by (auto simp: hub_recv_def split: list.splits)
qed

text \<open>
  Broadcasting: \<open>todo\<close> are the subscribers still to be served, the others already have the chunk.
\<close>

definition cast_ok :: "byte list list \<Rightarrow> byte list \<Rightarrow> nat list \<Rightarrow> hub \<Rightarrow> bool" where
  "cast_ok out data todo h \<longleftrightarrow> distinct (hb_subs h) \<and> rb_ok (hb_buf h) \<and> distinct todo
     \<and> set todo \<subseteq> set (hb_subs h) \<and> hb_out h = out @ [data]
     \<and> (\<forall>c \<in> set (hb_subs h). c < length (hb_chans h)
          \<and> sub_ok (if c \<in> set todo then out else out @ [data]) (hb_chans h ! c))
     \<and> (\<forall>ch \<in> set (hb_chans h). chan_ok (out @ [data]) ch)"

lemma chan_ok_more: "chan_ok out ch \<Longrightarrow> chan_ok (out @ [d]) ch"
  by (auto simp: chan_ok_def)

lemma cast_ok_step:
  assumes "cast_ok out data (c # todo) h"
  shows "\<exists>h'. send_or_evict data c h = Some h' \<and> cast_ok out data todo h'"
proof -
  let ?ch = "hb_chans h ! c"
  from assms have c: "c < length (hb_chans h)" "sub_ok out ?ch" "chan_ok (out @ [data]) ?ch" "c \<notin> set todo"
    by (auto simp: cast_ok_def)
  show ?thesis
  proof (cases "length (sc_queue ?ch) < subscriberBufSize")
    case True
    let ?ch' = "?ch\<lparr>sc_queue := sc_queue ?ch @ [data]\<rparr>"
    have "sc_got ?ch @ sc_queue ?ch = drop (sc_since ?ch) out" "sc_since ?ch \<le> length out"
      using c(2) by (simp_all add: sub_ok_def)
    then have "sub_ok (out @ [data]) ?ch'" "chan_ok (out @ [data]) ?ch'"
      using c(2,3) True by (simp_all add: sub_ok_def chan_ok_def flip: append.assoc)
    then have "cast_ok out data todo (h\<lparr>hb_chans := (hb_chans h)[c := ?ch']\<rparr>)"
      using assms c by (auto simp: cast_ok_def nth_update_if dest!: set_update_subset_insert [THEN subsetD])
    moreover have "send_or_evict data c h = Some (h\<lparr>hb_chans := (hb_chans h)[c := ?ch']\<rparr>)"
      using True c(2) by (simp add: send_or_evict_def sub_ok_def Let_def)
    ultimately show ?thesis by blast
  next
    case False
    let ?h = "h\<lparr>hb_chans := (hb_chans h)[c := ?ch\<lparr>sc_closed := True\<rparr>], hb_subs := removeAll c (hb_subs h)\<rparr>"
    have "chan_ok (out @ [data]) (?ch\<lparr>sc_closed := True\<rparr>)" using c(3) by (simp add: chan_ok_def)
    then have "cast_ok out data todo ?h" using assms c
      by (auto simp: cast_ok_def nth_update_if distinct_removeAll dest!: set_update_subset_insert [THEN subsetD])
    moreover have "send_or_evict data c h = Some ?h"
      using False c(2) by (simp add: send_or_evict_def close_chan_def sub_ok_def Let_def)
    ultimately show ?thesis by blast
  qed
qed

lemma cast_ok_broadcast:
  "cast_ok out data todo h \<Longrightarrow> \<exists>h'. broadcast data todo h = Some h' \<and> cast_ok out data [] h'"
proof (induction todo arbitrary: h)
  case (Cons c todo)
  from cast_ok_step [OF Cons.prems] Cons.IH show ?case by fastforce
qed simp

lemma hub_ok_output [inv_keep]: "hub_ok h \<Longrightarrow> \<exists>h'. hub_output data h = Some h' \<and> hub_ok h' \<and> hb_out h' = hb_out h @ [data]"
proof -
  assume h: "hub_ok h"
  let ?h = "h\<lparr>hb_buf := rb_Write (hb_buf h) data, hb_out := hb_out h @ [data]\<rparr>"
  have "cast_ok (hb_out h) data (hb_subs h) ?h"
    using h by (auto simp: cast_ok_def hub_ok_def rb_ok_Write chan_ok_more)
  from cast_ok_broadcast [OF this] show ?thesis
    by (auto simp: hub_output_def cast_ok_def hub_ok_def)
qed

text \<open>Tearing the session down closes every subscriber exactly once.\<close>

lemma close_subs_ok:
  assumes "distinct cs" "\<forall>c \<in> set cs. c < length (hb_chans h) \<and> \<not> sc_closed (hb_chans h ! c)"
    "\<forall>ch \<in> set (hb_chans h). chan_ok (hb_out h) ch"
  shows "\<exists>h'. close_subs cs h = Some h' \<and> hb_out h' = hb_out h \<and> hb_buf h' = hb_buf h
     \<and> length (hb_chans h') = length (hb_chans h)
     \<and> (\<forall>c. sc_closed (hb_chans h' ! c) \<longleftrightarrow> sc_closed (hb_chans h ! c) \<or> c \<in> set cs)
     \<and> (\<forall>ch \<in> set (hb_chans h'). chan_ok (hb_out h) ch)"
  using assms
proof (induction cs arbitrary: h)
  case (Cons c cs)
  let ?ch = "hb_chans h ! c"
  let ?h = "h\<lparr>hb_chans := (hb_chans h)[c := ?ch\<lparr>sc_closed := True\<rparr>]\<rparr>"
  have close: "close_chan c h = Some ?h" using Cons.prems by (simp add: close_chan_def)
  have "chan_ok (hb_out h) (?ch\<lparr>sc_closed := True\<rparr>)" using Cons.prems by (simp add: chan_ok_def)
  then have p: "\<forall>ch \<in> set (hb_chans ?h). chan_ok (hb_out ?h) ch"
    using Cons.prems(3) by (auto dest!: set_update_subset_insert [THEN subsetD])
  have "\<forall>d \<in> set cs. d < length (hb_chans ?h) \<and> \<not> sc_closed (hb_chans ?h ! d)"
    using Cons.prems(1,2) by (auto simp: nth_update_if)
  then obtain h' where h': "close_subs cs ?h = Some h' \<and> hb_out h' = hb_out ?h \<and> hb_buf h' = hb_buf ?h
     \<and> length (hb_chans h') = length (hb_chans ?h)
     \<and> (\<forall>c. sc_closed (hb_chans h' ! c) \<longleftrightarrow> sc_closed (hb_chans ?h ! c) \<or> c \<in> set cs)
     \<and> (\<forall>ch \<in> set (hb_chans h'). chan_ok (hb_out ?h) ch)"
    using Cons.IH [of ?h, OF _ _ p] Cons.prems(1) by auto
  then show ?case using close Cons.prems by (auto simp: nth_update_if)
qed simp

lemma hub_ok_Close [inv_keep]:
  "hub_ok h \<Longrightarrow> \<exists>h'. hub_Close h = Some h' \<and> hub_ok h' \<and> hb_subs h' = [] \<and> hb_out h' = hb_out h
     \<and> length (hb_chans h') = length (hb_chans h)
     \<and> (\<forall>c. sc_closed (hb_chans h' ! c) \<longleftrightarrow> sc_closed (hb_chans h ! c) \<or> c \<in> set (hb_subs h))"
  using close_subs_ok [of "hb_subs h" h] by (fastforce simp: hub_ok_def hub_Close_def sub_ok_def)

lemma hub_ok_step: "hub_ok h \<Longrightarrow> \<exists>h'. hub_step e h = Some h' \<and> hub_ok h'"
  using hub_ok_output hub_ok_Close
  by (cases e) (fastforce simp: hub_ok_Subscribe hub_ok_Unsubscribe hub_ok_recv)+

lemma hub_ok_run: "hub_ok h \<Longrightarrow> \<exists>h'. hub_run es h = Some h' \<and> hub_ok h'"
proof (induction es arbitrary: h)
  case (Cons e es)
  from hub_ok_step [OF Cons.prems, of e] Cons.IH show ?case by fastforce
qed simp

section \<open>Facts: the replay buffer and a single subscriber\<close>

definition buf_ok :: "nat \<Rightarrow> hub \<Rightarrow> bool" where
  "buf_ok n h \<longleftrightarrow> hb_buf h = foldl rb_Write (NewRingBuffer n) (hb_out h)"

lemma buf_ok_replay: "buf_ok n h \<Longrightarrow> rb_Bytes (hb_buf h) = lastn n (concat (hb_out h))"
  by (simp add: buf_ok_def rb.contents_history)

lemma close_chan_frame: "close_chan c h = Some h' \<Longrightarrow> hb_buf h' = hb_buf h \<and> hb_out h' = hb_out h"
  by (auto simp: close_chan_def split: if_splits)

lemma send_frame:
  "send_or_evict d c h = Some h' \<Longrightarrow> hb_buf h' = hb_buf h \<and> hb_out h' = hb_out h"
  by (auto simp: send_or_evict_def Let_def close_chan_def split: if_splits)

lemma broadcast_frame:
  "broadcast d cs h = Some h' \<Longrightarrow> hb_buf h' = hb_buf h \<and> hb_out h' = hb_out h"
  by (induction cs arbitrary: h) (auto simp: bind_eq_Some_conv dest!: send_frame)

lemma close_subs_frame:
  "close_subs cs h = Some h' \<Longrightarrow> hb_buf h' = hb_buf h \<and> hb_out h' = hb_out h"
  by (induction cs arbitrary: h) (auto simp: bind_eq_Some_conv dest!: close_chan_frame)

lemma buf_ok_step: "hub_step e h = Some h' \<Longrightarrow> buf_ok n h \<Longrightarrow> buf_ok n h'"
proof (cases e)
  case (HOutput d)
  assume "hub_step e h = Some h'" "buf_ok n h"
  with HOutput show ?thesis using broadcast_frame by (fastforce simp: hub_output_def buf_ok_def)
next
  case HClose
  assume "hub_step e h = Some h'" "buf_ok n h"
  with HClose show ?thesis using close_subs_frame by (fastforce simp: hub_Close_def buf_ok_def)
qed (auto simp: buf_ok_def hub_Subscribe_def hub_Unsubscribe_def hub_recv_def split: list.splits if_splits)

lemma buf_ok_run: "hub_run es h = Some h' \<Longrightarrow> buf_ok n h \<Longrightarrow> buf_ok n h'"
  by (induction es arbitrary: h) (auto simp: bind_eq_Some_conv dest: buf_ok_step)

lemma send_other:
  "send_or_evict d c' h = Some h' \<Longrightarrow> c' \<noteq> c \<Longrightarrow>
     hb_chans h' ! c = hb_chans h ! c \<and> (c \<in> set (hb_subs h') \<longleftrightarrow> c \<in> set (hb_subs h))"
  by (auto simp: send_or_evict_def Let_def close_chan_def split: if_splits)

lemma send_length: "send_or_evict d c h = Some h' \<Longrightarrow> length (hb_chans h') = length (hb_chans h)"
  by (auto simp: send_or_evict_def Let_def close_chan_def split: if_splits)

lemma broadcast_other:
  "broadcast d cs h = Some h' \<Longrightarrow> c \<notin> set cs \<Longrightarrow>
     hb_chans h' ! c = hb_chans h ! c \<and> (c \<in> set (hb_subs h') \<longleftrightarrow> c \<in> set (hb_subs h))"
proof (induction cs arbitrary: h)
  case (Cons a cs)
  obtain h1 where h1: "send_or_evict d a h = Some h1" "broadcast d cs h1 = Some h'"
    using Cons.prems(1) by (auto simp: bind_eq_Some_conv)
  show ?case using Cons.IH [OF h1(2)] send_other [OF h1(1), of c] Cons.prems(2) by auto
qed simp

text \<open>A subscriber with room in its channel gets the chunk and stays subscribed.\<close>

lemma broadcast_delivers:
  assumes "broadcast d cs h = Some h'" "distinct cs" "c \<in> set cs" "c < length (hb_chans h)"
    "length (sc_queue (hb_chans h ! c)) < subscriberBufSize" "c \<in> set (hb_subs h)"
  shows "hb_chans h' ! c = (hb_chans h ! c)\<lparr>sc_queue := sc_queue (hb_chans h ! c) @ [d]\<rparr> \<and> c \<in> set (hb_subs h')"
  using assms
proof (induction cs arbitrary: h)
  case (Cons a cs)
  obtain h1 where h1: "send_or_evict d a h = Some h1" "broadcast d cs h1 = Some h'"
    using Cons.prems(1) by (auto simp: bind_eq_Some_conv)
  show ?case
  proof (cases "a = c")
    case True
    then have "hb_chans h1 ! c = (hb_chans h ! c)\<lparr>sc_queue := sc_queue (hb_chans h ! c) @ [d]\<rparr>"
      "c \<in> set (hb_subs h1)"
      using h1(1) Cons.prems(4-6) by (auto simp: send_or_evict_def Let_def split: if_splits)
    then show ?thesis using broadcast_other [OF h1(2), of c] Cons.prems(2) True by auto
  next
    case False
    then show ?thesis
      using Cons.IH [OF h1(2)] Cons.prems send_other [OF h1(1) False] send_length [OF h1(1)] by auto
  qed
qed simp

lemma outputs_delivered:
  assumes "hub_ok h" "c \<in> set (hb_subs h)"
    "length (sc_queue (hb_chans h ! c)) + length os \<le> subscriberBufSize"
    "hub_run (map HOutput os) h = Some h'"
  shows "sc_queue (hb_chans h' ! c) = sc_queue (hb_chans h ! c) @ os"
  using assms
proof (induction os arbitrary: h)
  case (Cons d os)
  obtain h1 where h1: "hub_output d h = Some h1" "hub_run (map HOutput os) h1 = Some h'"
    using Cons.prems(4) by (auto simp: bind_eq_Some_conv)
  have ok: "hub_ok h1" using hub_ok_output [OF Cons.prems(1), of d] h1(1) by auto
  have "hb_chans h1 ! c = (hb_chans h ! c)\<lparr>sc_queue := sc_queue (hb_chans h ! c) @ [d]\<rparr> \<and> c \<in> set (hb_subs h1)"
    using broadcast_delivers [OF h1(1) [unfolded hub_output_def], of c] Cons.prems(1-3)
    by (auto simp: hub_ok_def)
  then show ?case using Cons.IH [OF ok _ _ h1(2)] Cons.prems(3) by simp
qed simp

lemma outputs_out: "hub_run (map HOutput os) h = Some h' \<Longrightarrow> hb_out h' = hb_out h @ os"
proof (induction os arbitrary: h)
  case (Cons d os)
  then obtain h1 where h1: "hub_output d h = Some h1" "hub_run (map HOutput os) h1 = Some h'"
    by (auto simp: bind_eq_Some_conv)
  have "hb_out h1 = hb_out h @ [d]" using h1(1) by (auto simp: hub_output_def dest!: broadcast_frame)
  with Cons.IH [OF h1(2)] show ?case by simp
qed simp

lemma hub_run_append: "hub_run (xs @ ys) h = Option.bind (hub_run xs h) (hub_run ys)"
proof (induction xs arbitrary: h)
  case (Cons x xs)
  then show ?case by (cases "hub_step x h") simp_all
qed simp

lemma Subscribe_facts:
  "hub_Subscribe h = (c, h') \<Longrightarrow> c \<in> set (hb_subs h') \<and> sc_queue (hb_chans h' ! c) = []
     \<and> hb_out h' = hb_out h \<and> hb_buf h' = hb_buf h"
  by (auto simp: hub_Subscribe_def)

section \<open>Properties\<close>

text \<open>
  C23: Fan-out. Whatever the order of subscriptions, cancellations, output chunks, reads and
  teardowns, the pump never sends on or closes a closed channel; every subscriber sees the chunks
  output since it subscribed in order, without loss, repetition or gaps, up to the point where it
  was evicted or left, and all of them while it is subscribed; queues stay within 256 chunks; and
  the replay buffer holds the last \<open>n\<close> bytes of the whole output.
\<close>

theorem hub_fanout:
  "\<exists>h. hub_run es (new_hub n) = Some h
     \<and> (\<forall>c < length (hb_chans h). let ch = hb_chans h ! c in
          prefix (sc_got ch @ sc_queue ch) (drop (sc_since ch) (hb_out h))
          \<and> length (sc_queue ch) \<le> subscriberBufSize
          \<and> (c \<in> set (hb_subs h) \<longrightarrow> \<not> sc_closed ch \<and> sc_got ch @ sc_queue ch = drop (sc_since ch) (hb_out h)))
     \<and> rb_Bytes (hb_buf h) = lastn n (concat (hb_out h))"
proof -
  obtain h where h: "hub_run es (new_hub n) = Some h" "hub_ok h"
    using hub_ok_run [OF hub_ok_new] by blast
  have "buf_ok n h" using buf_ok_run [OF h(1)] by (simp add: buf_ok_def new_hub_def)
  then have "rb_Bytes (hb_buf h) = lastn n (concat (hb_out h))" by (rule buf_ok_replay)
  then show ?thesis using h unfolding hub_ok_def chan_ok_def sub_ok_def Let_def
    by (intro exI [of _ h]) (meson nth_mem)
qed

theorem hub_fanout_witness:
  "\<exists>h. hub_run [HSub, HOutput [1], HSub, HOutput [2], HRecv 0, HClose] (new_hub 4) = Some h
     \<and> rb_Bytes (hb_buf h) = lastn 4 (concat (hb_out h))"
  using hub_fanout [of "[HSub, HOutput [1], HSub, HOutput [2], HRecv 0, HClose]" 4] by blast

text \<open>
  Reattaching. A client that subscribes before it reads the replay buffer misses nothing: it
  sees the buffered tail and then every chunk output after its subscription; the chunks output
  in between come twice. A client that reads the replay first and subscribes afterwards loses the
  chunks output in between.
\<close>

theorem reattach_order:
  assumes "hub_run es (new_hub n) = Some h" "length (mid @ later) \<le> subscriberBufSize"
  shows "(\<forall>c h1 h2 h3. hub_Subscribe h = (c, h1) \<and> hub_run (map HOutput mid) h1 = Some h2
            \<and> hub_run (map HOutput later) h2 = Some h3 \<longrightarrow>
          rb_Bytes (hb_buf h2) @ concat (sc_queue (hb_chans h3 ! c))
            = lastn n (concat (hb_out h @ mid)) @ concat (mid @ later))
       \<and> (\<forall>c h1 h2 h3. hub_run (map HOutput mid) h = Some h1 \<and> hub_Subscribe h1 = (c, h2)
            \<and> hub_run (map HOutput later) h2 = Some h3 \<longrightarrow>
          rb_Bytes (hb_buf h) @ concat (sc_queue (hb_chans h3 ! c))
            = lastn n (concat (hb_out h)) @ concat later)"
proof (intro conjI allI impI; elim conjE)
  have ok: "hub_ok h" "buf_ok n h"
    using assms(1) hub_ok_run [OF hub_ok_new, of es n] buf_ok_run [OF assms(1)]
    by (auto simp: buf_ok_def new_hub_def)
  fix c h1 h2 h3
  { assume s: "hub_Subscribe h = (c, h1)" "hub_run (map HOutput mid) h1 = Some h2"
      "hub_run (map HOutput later) h2 = Some h3"
    have h1: "hub_ok h1" "buf_ok n h1"
      using ok s(1) hub_ok_Subscribe [OF ok(1)] by (auto simp: buf_ok_def hub_Subscribe_def)
    have "hub_run (map HOutput (mid @ later)) h1 = Some h3"
      using s(2,3) by (simp add: hub_run_append)
    from outputs_delivered [OF h1(1) _ _ this, of c] have "sc_queue (hb_chans h3 ! c) = mid @ later"
      using Subscribe_facts [OF s(1)] assms(2) by simp
    moreover have "rb_Bytes (hb_buf h2) = lastn n (concat (hb_out h @ mid))"
      using buf_ok_replay [OF buf_ok_run [OF s(2) h1(2)]] outputs_out [OF s(2)] Subscribe_facts [OF s(1)] by simp
    ultimately show "rb_Bytes (hb_buf h2) @ concat (sc_queue (hb_chans h3 ! c))
        = lastn n (concat (hb_out h @ mid)) @ concat (mid @ later)" by simp }
  { assume s: "hub_run (map HOutput mid) h = Some h1" "hub_Subscribe h1 = (c, h2)"
      "hub_run (map HOutput later) h2 = Some h3"
    have "hub_ok h2" using s(1,2) hub_ok_run [OF ok(1), of "map HOutput mid"] hub_ok_Subscribe [of h1] by auto
    from outputs_delivered [OF this _ _ s(3), of c] have "sc_queue (hb_chans h3 ! c) = later"
      using Subscribe_facts [OF s(2)] assms(2) by simp
    then show "rb_Bytes (hb_buf h) @ concat (sc_queue (hb_chans h3 ! c))
        = lastn n (concat (hb_out h)) @ concat later"
      using buf_ok_replay [OF ok(2)] by simp }
qed

definition demo_hub :: hub where
  "demo_hub = the (hub_run [HOutput [1, 2]] (new_hub 8))"

definition demo_mid :: hub where
  "demo_mid = the (hub_run (map HOutput [[3]]) demo_hub)"

theorem reattach_order_witness:
  "\<exists>h3. hub_run (map HOutput [[4]]) (snd (hub_Subscribe demo_mid)) = Some h3
     \<and> rb_Bytes (hb_buf demo_hub) @ concat (sc_queue (hb_chans h3 ! 0)) = [1, 2, 4]"
proof -
  have run: "hub_run [HOutput [1, 2]] (new_hub 8) = Some demo_hub"
    "hub_run (map HOutput [[3]]) demo_hub = Some demo_mid"
    "hub_Subscribe demo_mid = (0, snd (hub_Subscribe demo_mid))"
    "hub_run (map HOutput [[4]]) (snd (hub_Subscribe demo_mid)) \<noteq> None" by code_simp+
  then obtain h3 where h3: "hub_run (map HOutput [[4]]) (snd (hub_Subscribe demo_mid)) = Some h3" by blast
  have "length ([[3]] @ [[4 :: byte]]) \<le> subscriberBufSize" by (simp add: subscriberBufSize_def)
  from reattach_order [OF run(1) this] run(2,3) h3
  have "rb_Bytes (hb_buf demo_hub) @ concat (sc_queue (hb_chans h3 ! 0))
      = lastn 8 (concat (hb_out demo_hub)) @ concat [[4]]" by blast
  moreover have "lastn 8 (concat (hb_out demo_hub)) @ concat [[4]] = [1, 2, 4]" by code_simp
  ultimately show ?thesis using h3 by auto
qed

end
