(* ===== verification/Terminal_Manager.thy ===== *)
theory Terminal_Manager
  imports Terminal_Hub
begin

text \<open>
  The container-exec session manager (\<^verbatim>\<open>internal/terminal/manager.go\<close>): the registry with its
  project index and the life of a session. Sessions are objects that outlive their registration
  (the output pump and the WebSocket handlers hold pointers), so they live in a heap keyed by
  their identifier; the registry holds identifiers. The container runtime is an argument: what
  creating and attaching an exec process returns. \<open>None\<close> is a panic.
\<close>

section \<open>The registry interface\<close>

text \<open>
  What shutdown and project deletion rely on: closing a session is total on good states, removes
  it, and touches no other one.
\<close>

locale session_registry =
  fixes live :: "'s \<Rightarrow> string \<Rightarrow> bool"
    and close :: "string \<Rightarrow> 's \<Rightarrow> 's option"
    and invar :: "'s \<Rightarrow> bool"
  assumes close_total: "invar s \<Longrightarrow> \<exists>s'. close i s = Some s' \<and> invar s'"
    and live_close: "invar s \<Longrightarrow> close i s = Some s' \<Longrightarrow> live s' j \<longleftrightarrow> live s j \<and> j \<noteq> i"
begin

primrec close_list :: "string list \<Rightarrow> 's \<Rightarrow> 's option" where
  "close_list [] s = Some s"
| "close_list (i # ids) s = Option.bind (close i s) (close_list ids)"

lemma close_list_total:
  "invar s \<Longrightarrow> \<exists>s'. close_list ids s = Some s' \<and> invar s' \<and> (\<forall>j. live s' j \<longleftrightarrow> live s j \<and> j \<notin> set ids)"
proof (induction ids arbitrary: s)
  case (Cons i ids)
  obtain s1 where s1: "close i s = Some s1" "invar s1" using close_total [OF Cons.prems] by blast
  from Cons.IH [OF s1(2)] obtain s2 where "close_list ids s1 = Some s2" "invar s2"
    "\<forall>j. live s2 j \<longleftrightarrow> live s1 j \<and> j \<notin> set ids" by blast
  then show ?case using s1 live_close [OF Cons.prems s1(1)] by auto
qed simp

end

section \<open>State\<close>

record session =
  ss_ProjectID :: string
  ss_CreatedAt :: instant
  ss_ExecID :: string
  ss_conn_open :: bool
  ss_hub :: hub
  ss_done :: bool
  ss_closeOnce :: bool

record term_manager =
  tm_bufSize :: nat
  tm_sessions :: "string list"
  tm_byProject :: "string \<rightharpoonup> string list"
  tm_heap :: "string \<rightharpoonup> session"

definition term_NewManager :: "nat \<Rightarrow> term_manager" where
  "term_NewManager bufSize =
     \<lparr>tm_bufSize = bufSize, tm_sessions = [], tm_byProject = Map.empty, tm_heap = Map.empty\<rparr>"

section \<open>The container runtime\<close>

text \<open>
  The exec calls of the runtime, as one call sees them: what they answer to their arguments. Of the
  readers and writers of an attach only whether they are given matters.
\<close>

record exec_create_options =
  xo_Cmd :: "string list"
  xo_AttachStdin :: bool
  xo_AttachStdout :: bool
  xo_AttachStderr :: bool
  xo_Tty :: bool
  xo_WorkingDir :: string
  xo_Env :: "string list"
  xo_User :: string
  xo_Privileged :: bool
  xo_ContainerID :: string

record exec_attach_options =
  xa_Stream :: bool
  xa_Stdin :: bool
  xa_Stdout :: bool
  xa_Stderr :: bool
  xa_Logs :: bool

record exec_resize_options =
  xz_Height :: int
  xz_Width :: int

record execer =
  ExecCreate :: "string \<Rightarrow> exec_create_options \<Rightarrow> string option"
  ExecAttach :: "string \<Rightarrow> exec_attach_options \<Rightarrow> bool"
  ExecResize :: "string \<Rightarrow> exec_resize_options \<Rightarrow> bool"

definition bash_exec :: exec_create_options where
  "bash_exec = \<lparr>xo_Cmd = [''/bin/bash''], xo_AttachStdin = True, xo_AttachStdout = True, xo_AttachStderr = True,
     xo_Tty = True, xo_WorkingDir = [], xo_Env = [''TERM=xterm-256color''], xo_User = [], xo_Privileged = False,
     xo_ContainerID = []\<rparr>"

definition stream_attach :: exec_attach_options where
  "stream_attach = \<lparr>xa_Stream = True, xa_Stdin = False, xa_Stdout = False, xa_Stderr = False, xa_Logs = False\<rparr>"

section \<open>Creating and finding sessions\<close>

text \<open>The locked check at the start of \<open>CreateSession\<close>.\<close>

definition tm_existing :: "string \<Rightarrow> term_manager \<Rightarrow> string option" where
  "tm_existing projectID m =
     (case tm_byProject m projectID of Some (i # _) \<Rightarrow> Some i | _ \<Rightarrow> None)"

definition new_session :: "nat \<Rightarrow> string \<Rightarrow> instant \<Rightarrow> string \<Rightarrow> session" where
  "new_session bufSize projectID now execID =
     \<lparr>ss_ProjectID = projectID, ss_CreatedAt = now, ss_ExecID = execID, ss_conn_open = True,
      ss_hub = new_hub bufSize, ss_done = False, ss_closeOnce = False\<rparr>"

text \<open>The locked registration at its end.\<close>

definition tm_register :: "string \<Rightarrow> string \<Rightarrow> instant \<Rightarrow> string \<Rightarrow> term_manager \<Rightarrow> term_manager" where
  "tm_register uuid projectID now execID m =
     m\<lparr>tm_sessions := removeAll uuid (tm_sessions m) @ [uuid],
       tm_byProject := (tm_byProject m)(projectID \<mapsto>
         removeAll uuid (case tm_byProject m projectID of None \<Rightarrow> [] | Some ids \<Rightarrow> ids) @ [uuid]),
       tm_heap := (tm_heap m)(uuid \<mapsto> new_session (tm_bufSize m) projectID now execID)\<rparr>"

datatype term_error = ExecCreateError | ExecAttachError | ErrSessionNotFound | ExecWriteError | ExecResizeError

definition CreateSession ::
  "execer \<Rightarrow> string \<Rightarrow> instant \<Rightarrow> string \<Rightarrow> string \<Rightarrow> term_manager
     \<Rightarrow> (term_error, string) result \<times> term_manager" where
  "CreateSession docker uuid now projectID containerID m =
     (case tm_existing projectID m of
        Some i \<Rightarrow> (Ok i, m)
      | None \<Rightarrow>
          (case ExecCreate docker containerID bash_exec of
             None \<Rightarrow> (Err ExecCreateError, m)
           | Some execID \<Rightarrow>
               if \<not> ExecAttach docker execID stream_attach then (Err ExecAttachError, m)
               else (Ok uuid, tm_register uuid projectID now execID m)))"

definition tm_GetSession :: "string \<Rightarrow> term_manager \<Rightarrow> session option" where
  "tm_GetSession i m = (if i \<in> set (tm_sessions m) then tm_heap m i else None)"

definition ListSessions :: "string \<Rightarrow> term_manager \<Rightarrow> session list" where
  "ListSessions projectID m =
     (case tm_byProject m projectID of
        None \<Rightarrow> []
      | Some ids \<Rightarrow> concat (map (\<lambda>i. case tm_heap m i of Some s \<Rightarrow> [s] | None \<Rightarrow> []) ids))"

section \<open>Input and output\<close>

definition upd_hub :: "string \<Rightarrow> hub \<Rightarrow> term_manager \<Rightarrow> term_manager" where
  "upd_hub i h m = m\<lparr>tm_heap := (tm_heap m)(i := map_option (\<lambda>s. s\<lparr>ss_hub := h\<rparr>) (tm_heap m i))\<rparr>"

text \<open>The second half of \<open>Subscribe\<close>, on the session object found before.\<close>

definition tm_subscribe_at :: "string \<Rightarrow> term_manager \<Rightarrow> nat option \<times> term_manager" where
  "tm_subscribe_at i m =
     (case tm_heap m i of
        None \<Rightarrow> (None, m)
      | Some s \<Rightarrow> (Some (fst (hub_Subscribe (ss_hub s))), upd_hub i (snd (hub_Subscribe (ss_hub s))) m))"

definition tm_Subscribe :: "string \<Rightarrow> term_manager \<Rightarrow> nat option \<times> term_manager" where
  "tm_Subscribe i m = (if tm_GetSession i m = None then (None, m) else tm_subscribe_at i m)"

definition tm_Unsubscribe :: "string \<Rightarrow> nat \<Rightarrow> term_manager \<Rightarrow> term_manager" where
  "tm_Unsubscribe i c m =
     (case tm_GetSession i m of None \<Rightarrow> m | Some s \<Rightarrow> upd_hub i (hub_Unsubscribe c (ss_hub s)) m)"

definition tm_ReplayBuffer :: "string \<Rightarrow> term_manager \<Rightarrow> byte list option" where
  "tm_ReplayBuffer i m = map_option (\<lambda>s. rb_Bytes (hb_buf (ss_hub s))) (tm_GetSession i m)"

text \<open>\<open>WriteInput\<close> and \<open>Resize\<close>: the bytes or the size go to the exec process.\<close>

definition WriteInput :: "bool \<Rightarrow> string \<Rightarrow> byte list \<Rightarrow> term_manager \<Rightarrow> (term_error, byte list) result" where
  "WriteInput writeOk i data m =
     (if tm_GetSession i m = None then Err ErrSessionNotFound
      else if \<not> writeOk then Err ExecWriteError else Ok data)"

definition tm_Resize :: "execer \<Rightarrow> string \<Rightarrow> int \<Rightarrow> int \<Rightarrow> term_manager \<Rightarrow> (term_error, string \<times> exec_resize_options) result" where
  "tm_Resize docker i cols rows m =
     (case tm_GetSession i m of
        None \<Rightarrow> Err ErrSessionNotFound
      | Some s \<Rightarrow>
          let z = \<lparr>xz_Height = rows, xz_Width = cols\<rparr> in
          if \<not> ExecResize docker (ss_ExecID s) z then Err ExecResizeError else Ok (ss_ExecID s, z))"

section \<open>Closing\<close>

definition tm_deregister :: "string \<Rightarrow> string \<Rightarrow> term_manager \<Rightarrow> term_manager" where
  "tm_deregister i projectID m =
     m\<lparr>tm_sessions := removeAll i (tm_sessions m),
       tm_byProject := (case tm_byProject m projectID of
          None \<Rightarrow> tm_byProject m
        | Some ids \<Rightarrow> (tm_byProject m)(projectID :=
            (if removeAll i ids = [] then None else Some (removeAll i ids))))\<rparr>"

text \<open>The body of \<^verbatim>\<open>closeOnce.Do\<close>.\<close>

definition tear_down :: "string \<Rightarrow> term_manager \<Rightarrow> term_manager option" where
  "tear_down i m =
     (case tm_heap m i of
        None \<Rightarrow> Some m
      | Some s \<Rightarrow>
          if ss_closeOnce s then Some m
          else if ss_done s then None
          else map_option (\<lambda>h. m\<lparr>tm_heap := (tm_heap m)(i \<mapsto>
                 s\<lparr>ss_closeOnce := True, ss_done := True, ss_conn_open := False, ss_hub := h\<rparr>)\<rparr>)
                 (hub_Close (ss_hub s)))"

definition CloseSession :: "string \<Rightarrow> term_manager \<Rightarrow> term_manager option" where
  "CloseSession i m =
     (case tm_GetSession i m of
        None \<Rightarrow> Some m
      | Some s \<Rightarrow> tear_down i (tm_deregister i (ss_ProjectID s) m))"

fun close_each :: "string list \<Rightarrow> term_manager \<Rightarrow> term_manager option" where
  "close_each [] m = Some m"
| "close_each (i # ids) m = Option.bind (CloseSession i m) (close_each ids)"

definition CloseProjectSessions :: "string \<Rightarrow> term_manager \<Rightarrow> term_manager option" where
  "CloseProjectSessions projectID m =
     close_each (case tm_byProject m projectID of None \<Rightarrow> [] | Some ids \<Rightarrow> ids) m"

definition tm_CloseAll :: "term_manager \<Rightarrow> term_manager option" where
  "tm_CloseAll m = close_each (tm_sessions m) m"

text \<open>One round of the output pump: the bytes read, and whether the read reported an error.\<close>

definition pump_round :: "string \<Rightarrow> byte list \<Rightarrow> bool \<Rightarrow> term_manager \<Rightarrow> term_manager option" where
  "pump_round i data err m =
     Option.bind
       (case tm_heap m i of
          None \<Rightarrow> Some m
        | Some s \<Rightarrow> if data = [] then Some m else map_option (\<lambda>h. upd_hub i h m) (hub_output data (ss_hub s)))
       (\<lambda>m1. if err then CloseSession i m1 else Some m1)"

section \<open>Invariant\<close>

text \<open>
  The project index and the registry agree, registered sessions are open, and a session that has
  been torn down has no subscribers unless one slipped in afterwards.
\<close>

definition session_ok :: "session \<Rightarrow> bool" where
  "session_ok s \<longleftrightarrow> hub_ok (ss_hub s) \<and> (ss_closeOnce s \<longleftrightarrow> ss_done s) \<and> (ss_conn_open s \<longleftrightarrow> \<not> ss_done s)"

definition tm_ok :: "term_manager \<Rightarrow> bool" where
  "tm_ok m \<longleftrightarrow> distinct (tm_sessions m)
     \<and> (\<forall>i s. tm_heap m i = Some s \<longrightarrow> session_ok s \<and> (i \<in> set (tm_sessions m) \<longleftrightarrow> \<not> ss_done s))
     \<and> (\<forall>i \<in> set (tm_sessions m). tm_heap m i \<noteq> None)
     \<and> (\<forall>p ids. tm_byProject m p = Some ids \<longrightarrow> ids \<noteq> [] \<and> distinct ids)
     \<and> (\<forall>p i. (\<exists>ids. tm_byProject m p = Some ids \<and> i \<in> set ids)
          \<longleftrightarrow> i \<in> set (tm_sessions m) \<and> (\<exists>s. tm_heap m i = Some s \<and> ss_ProjectID s = p))"

lemma tm_ok_new [inv_keep]: "tm_ok (term_NewManager n)"
  by (simp add: tm_ok_def term_NewManager_def)

lemma tm_ok_index:
  "tm_ok m \<Longrightarrow> (\<exists>ids. tm_byProject m p = Some ids \<and> i \<in> set ids) \<longleftrightarrow>
     i \<in> set (tm_sessions m) \<and> (\<exists>s. tm_heap m i = Some s \<and> ss_ProjectID s = p)"
  by (simp add: tm_ok_def)

lemma tm_ok_register [inv_keep]:
  assumes "tm_ok m" "tm_heap m uuid = None"
  shows "tm_ok (tm_register uuid projectID now execID m)"
proof -
  let ?ids = "case tm_byProject m projectID of None \<Rightarrow> [] | Some ids \<Rightarrow> ids"
  have new: "uuid \<notin> set (tm_sessions m)" using assms by (auto simp: tm_ok_def)
  then have none: "uuid \<notin> set ids" if "tm_byProject m p = Some ids" for p ids
    using assms that unfolding tm_ok_def by blast
  have ids: "distinct ?ids" "uuid \<notin> set ?ids"
    using assms none by (auto simp: tm_ok_def split: option.splits)
  note iff = tm_ok_index [OF assms(1)]
  have mem: "i \<in> set ?ids \<longleftrightarrow> (\<exists>ids. tm_byProject m projectID = Some ids \<and> i \<in> set ids)" for i
    by (cases "tm_byProject m projectID") auto
  have new_ok: "session_ok (new_session n projectID now execID)" for n
    by (simp add: session_ok_def new_session_def hub_ok_new)
  show ?thesis
    unfolding tm_ok_def
  proof (intro conjI allI impI ballI)
    fix p i
    show "(\<exists>ids. tm_byProject (tm_register uuid projectID now execID m) p = Some ids \<and> i \<in> set ids) \<longleftrightarrow>
        i \<in> set (tm_sessions (tm_register uuid projectID now execID m))
        \<and> (\<exists>s. tm_heap (tm_register uuid projectID now execID m) i = Some s \<and> ss_ProjectID s = p)"
      using iff [of p i] mem [of i] ids none new
      by (auto simp: tm_register_def new_session_def)
  qed (use assms new ids new_ok none in
      \<open>auto simp: tm_ok_def tm_register_def new_session_def split: if_splits\<close>)
qed

lemma tm_ok_upd_hub [inv_keep]:
  assumes "tm_ok m" "hub_ok h"
  shows "tm_ok (upd_hub i h m)"
proof -
  have proj: "(\<exists>s. tm_heap (upd_hub i h m) j = Some s \<and> ss_ProjectID s = p) \<longleftrightarrow>
      (\<exists>s. tm_heap m j = Some s \<and> ss_ProjectID s = p)" for j p
    by (cases "tm_heap m i") (auto simp: upd_hub_def)
  have same: "tm_sessions (upd_hub i h m) = tm_sessions m" "tm_byProject (upd_hub i h m) = tm_byProject m"
    by (simp_all add: upd_hub_def)
  have sess: "session_ok s \<and> (j \<in> set (tm_sessions m) \<longleftrightarrow> \<not> ss_done s)"
    if "tm_heap (upd_hub i h m) j = Some s" for j s
    using that assms by (auto simp: upd_hub_def tm_ok_def session_ok_def split: if_splits)
  have "\<forall>j \<in> set (tm_sessions m). tm_heap (upd_hub i h m) j \<noteq> None"
    using assms(1) by (auto simp: tm_ok_def upd_hub_def)
  with sess assms(1) show ?thesis unfolding tm_ok_def same proj by blast
qed

lemma tm_ok_GetSession:
  "tm_ok m \<Longrightarrow> tm_GetSession i m = Some s \<longleftrightarrow> i \<in> set (tm_sessions m) \<and> tm_heap m i = Some s"
  by (auto simp: tm_GetSession_def)

lemma tm_deregister_index:
  assumes "tm_ok m" "i \<in> set (tm_sessions m)" "tm_heap m i = Some s"
  defines "m' \<equiv> tm_deregister i (ss_ProjectID s) m"
  shows "tm_byProject m' p = Some ids' \<Longrightarrow> ids' \<noteq> [] \<and> distinct ids'"
    "(\<exists>ids. tm_byProject m' p = Some ids \<and> j \<in> set ids) \<longleftrightarrow> (\<exists>ids. tm_byProject m p = Some ids \<and> j \<in> set ids) \<and> j \<noteq> i"
proof -
  let ?p = "ss_ProjectID s"
  obtain ids where ids: "tm_byProject m ?p = Some ids" "i \<in> set ids" using tm_ok_index [OF assms(1), of ?p i] assms(2,3) by auto
  have byp: "tm_byProject m' = (tm_byProject m)(?p := (if removeAll i ids = [] then None else Some (removeAll i ids)))"
    using ids(1) by (simp add: m'_def tm_deregister_def)
  show "tm_byProject m' p = Some ids' \<Longrightarrow> ids' \<noteq> [] \<and> distinct ids'"
    using assms(1) ids(1) unfolding byp by (auto simp: tm_ok_def distinct_removeAll split: if_splits)
  have "i \<notin> set ids'" if "tm_byProject m p = Some ids'" "p \<noteq> ?p" for p ids'
    using tm_ok_index [OF assms(1), of p i] that assms(3) by auto
  then show "(\<exists>ids. tm_byProject m' p = Some ids \<and> j \<in> set ids) \<longleftrightarrow> (\<exists>ids. tm_byProject m p = Some ids \<and> j \<in> set ids) \<and> j \<noteq> i"
    unfolding byp using ids by (cases "p = ?p") (auto simp: removeAll_id, metis Diff_empty set_empty
        set_removeAll empty_iff Diff_iff singletonD list.set(1))
qed

text \<open>
  Closing: the session is deregistered and torn down, with every subscriber channel closed; the
  others stay.
\<close>

lemma CloseSession_ok:
  assumes "tm_ok m"
  shows "\<exists>m'. CloseSession i m = Some m' \<and> tm_ok m'
     \<and> (\<forall>j. j \<in> set (tm_sessions m') \<longleftrightarrow> j \<in> set (tm_sessions m) \<and> j \<noteq> i)
     \<and> (\<forall>j. j \<noteq> i \<longrightarrow> tm_heap m' j = tm_heap m j)
     \<and> (i \<in> set (tm_sessions m) \<longrightarrow> (\<exists>s'. tm_heap m' i = Some s' \<and> ss_done s' \<and> \<not> ss_conn_open s'
          \<and> hb_subs (ss_hub s') = []))"
proof (cases "tm_GetSession i m")
  case None
  then have "i \<notin> set (tm_sessions m)" using assms by (auto simp: tm_GetSession_def tm_ok_def split: if_splits)
  then show ?thesis using None assms by (auto simp: CloseSession_def)
next
  case (Some s)
  then have s: "i \<in> set (tm_sessions m)" "tm_heap m i = Some s" using tm_ok_GetSession [OF assms] by auto
  have ok: "session_ok s" "\<not> ss_done s" using assms s by (auto simp: tm_ok_def)
  obtain h where h: "hub_Close (ss_hub s) = Some h" "hub_ok h" "hb_subs h = []"
    using hub_ok_Close [of "ss_hub s"] ok(1) by (auto simp: session_ok_def)
  let ?p = "ss_ProjectID s"
  let ?s = "s\<lparr>ss_closeOnce := True, ss_done := True, ss_conn_open := False, ss_hub := h\<rparr>"
  let ?d = "tm_deregister i ?p m"
  let ?m = "?d\<lparr>tm_heap := (tm_heap m)(i \<mapsto> ?s)\<rparr>"
  have close: "CloseSession i m = Some ?m"
    using Some s(2) ok h(1) by (auto simp: CloseSession_def tear_down_def tm_deregister_def session_ok_def)
  have byp: "tm_byProject ?m = tm_byProject ?d" by simp
  note index = tm_deregister_index [OF assms s]
  have "tm_ok ?m"
    unfolding tm_ok_def
  proof (intro conjI allI impI ballI)
    fix p ids'
    assume "tm_byProject ?m p = Some ids'"
    then show "ids' \<noteq> []" "distinct ids'" using index(1) unfolding byp by blast+
  next
    fix p j
    show "(\<exists>ids. tm_byProject ?m p = Some ids \<and> j \<in> set ids) \<longleftrightarrow>
        j \<in> set (tm_sessions ?m) \<and> (\<exists>t. tm_heap ?m j = Some t \<and> ss_ProjectID t = p)"
      unfolding byp index(2) tm_ok_index [OF assms] using s by (auto simp: tm_deregister_def)
  qed (use assms s ok h in \<open>auto simp: tm_ok_def tm_deregister_def session_ok_def distinct_removeAll split: if_splits\<close>)
  then show ?thesis using close s h(3) by (auto simp: tm_deregister_def)
qed

interpretation tm: session_registry "\<lambda>m i. i \<in> set (tm_sessions m)" CloseSession tm_ok
  using CloseSession_ok by unfold_locales (blast, metis option.inject)

lemma close_each_eq: "close_each ids m = tm.close_list ids m"
proof (induction ids arbitrary: m)
  case (Cons i ids)
  then show ?case by (cases "CloseSession i m") simp_all
qed simp

lemma close_each_ok:
  "tm_ok m \<Longrightarrow> \<exists>m'. close_each ids m = Some m' \<and> tm_ok m'
     \<and> (\<forall>j. j \<in> set (tm_sessions m') \<longleftrightarrow> j \<in> set (tm_sessions m) \<and> j \<notin> set ids)"
  using tm.close_list_total by (simp add: close_each_eq)

section \<open>Runs\<close>

text \<open>
  The events of a server that uses the manager: whole operations, output rounds of the pumps, and
  the second half of a \<open>Subscribe\<close> whose lookup happened earlier.
\<close>

datatype tm_event =
    TmCreate execer string instant string string
  | TmSubscribeAt string
  | TmUnsubscribe string nat
  | TmPump string "byte list" bool
  | TmRecv string nat
  | TmClose string
  | TmCloseProject string
  | TmCloseAll

fun tm_step :: "tm_event \<Rightarrow> term_manager \<Rightarrow> term_manager option" where
  "tm_step (TmCreate docker uuid now projectID containerID) m =
     Some (snd (CreateSession docker uuid now projectID containerID m))"
| "tm_step (TmSubscribeAt i) m = Some (snd (tm_subscribe_at i m))"
| "tm_step (TmUnsubscribe i c) m = Some (tm_Unsubscribe i c m)"
| "tm_step (TmPump i data err) m = pump_round i data err m"
| "tm_step (TmRecv i c) m =
     Some (case tm_heap m i of None \<Rightarrow> m | Some s \<Rightarrow> upd_hub i (hub_recv c (ss_hub s)) m)"
| "tm_step (TmClose i) m = CloseSession i m"
| "tm_step (TmCloseProject p) m = CloseProjectSessions p m"
| "tm_step TmCloseAll m = tm_CloseAll m"

text \<open>Identifiers drawn by \<^verbatim>\<open>uuid.New()\<close> are new.\<close>

fun tm_fresh :: "tm_event \<Rightarrow> term_manager \<Rightarrow> bool" where
  "tm_fresh (TmCreate docker uuid now projectID containerID) m \<longleftrightarrow> tm_heap m uuid = None"
| "tm_fresh _ m \<longleftrightarrow> True"

inductive tm_reachable :: "nat \<Rightarrow> term_manager \<Rightarrow> bool" for n where
  new: "tm_reachable n (term_NewManager n)"
| step: "tm_reachable n m \<Longrightarrow> tm_fresh e m \<Longrightarrow> tm_step e m = Some m' \<Longrightarrow> tm_reachable n m'"

lemma hub_ok_heap: "tm_ok m \<Longrightarrow> tm_heap m i = Some s \<Longrightarrow> hub_ok (ss_hub s)"
  by (auto simp: tm_ok_def session_ok_def)

lemma tm_ok_step:
  assumes "tm_ok m" "tm_fresh e m"
  shows "\<exists>m'. tm_step e m = Some m' \<and> tm_ok m'"
proof (cases e)
  case (TmCreate docker uuid now projectID containerID)
  then show ?thesis using assms
    by (auto simp: CreateSession_def tm_ok_register split: option.splits)
next
  case (TmSubscribeAt i)
  then show ?thesis using assms hub_ok_heap [OF assms(1)]
    by (auto simp: tm_subscribe_at_def intro!: tm_ok_upd_hub hub_ok_Subscribe split: option.splits)
next
  case (TmUnsubscribe i c)
  then show ?thesis using assms hub_ok_heap [OF assms(1)]
    by (auto simp: tm_Unsubscribe_def tm_GetSession_def intro!: tm_ok_upd_hub hub_ok_Unsubscribe
        split: option.splits if_splits)
next
  case (TmPump i data err)
  have "\<exists>m1. (case tm_heap m i of None \<Rightarrow> Some m
      | Some s \<Rightarrow> if data = [] then Some m else map_option (\<lambda>h. upd_hub i h m) (hub_output data (ss_hub s))) = Some m1
      \<and> tm_ok m1"
    using assms(1) hub_ok_heap [OF assms(1)] hub_ok_output tm_ok_upd_hub
    by (cases "tm_heap m i") (simp, fastforce)
  then show ?thesis using CloseSession_ok TmPump by (auto simp: pump_round_def) blast
next
  case (TmRecv i c)
  then show ?thesis using assms hub_ok_heap [OF assms(1)]
    by (auto intro!: tm_ok_upd_hub hub_ok_recv split: option.splits)
next
  case (TmClose i)
  then show ?thesis using CloseSession_ok [OF assms(1), of i] by auto
next
  case (TmCloseProject p)
  then show ?thesis using close_each_ok [OF assms(1)] by (auto simp: CloseProjectSessions_def)
next
  case TmCloseAll
  then show ?thesis using close_each_ok [OF assms(1)] by (auto simp: tm_CloseAll_def)
qed

lemma tm_reachable_ok: "tm_reachable n m \<Longrightarrow> tm_ok m"
proof (induction rule: tm_reachable.induct)
  case new
  show ?case by (rule tm_ok_new)
next
  case (step m e m')
  then show ?case using tm_ok_step [OF step.IH step.hyps(2)] by auto
qed

section \<open>CreateSession and Subscribe between their locked sections\<close>

text \<open>The lock is not held while the exec process is started.\<close>

datatype create_pc = CrCheck | CrRegister | CrReturned string

fun create_step ::
  "string \<Rightarrow> instant \<Rightarrow> string \<Rightarrow> string \<Rightarrow> create_pc \<times> term_manager \<Rightarrow> create_pc \<times> term_manager" where
  "create_step uuid now execID projectID (CrCheck, m) =
     (case tm_existing projectID m of Some i \<Rightarrow> (CrReturned i, m) | None \<Rightarrow> (CrRegister, m))"
| "create_step uuid now execID projectID (CrRegister, m) =
     (CrReturned uuid, tm_register uuid projectID now execID m)"
| "create_step uuid now execID projectID (CrReturned i, m) = (CrReturned i, m)"

lemma create_alone:
  "ExecCreate docker containerID bash_exec = Some execID \<Longrightarrow> ExecAttach docker execID stream_attach \<Longrightarrow>
     CreateSession docker uuid now projectID containerID m = (Ok i, m') \<longleftrightarrow>
     ((create_step uuid now execID projectID) ^^ 2) (CrCheck, m) = (CrReturned i, m')"
  by (auto simp: CreateSession_def numeral_eq_Suc split: option.splits)

definition one_per_project :: "term_manager \<Rightarrow> bool" where
  "one_per_project m \<longleftrightarrow> (\<forall>p ids. tm_byProject m p = Some ids \<longrightarrow> length ids \<le> 1)"

lemma one_per_project_close: "CloseSession i m = Some m' \<Longrightarrow> one_per_project m \<Longrightarrow> one_per_project m'"
proof -
  have len: "length (removeAll i ids) \<le> length ids" for ids by (simp add: length_removeAll_less_eq)
  assume "CloseSession i m = Some m'" "one_per_project m"
  then show ?thesis using order_trans [OF len]
    by (auto simp: CloseSession_def tear_down_def tm_deregister_def one_per_project_def
        split: option.splits if_splits)
qed

lemma one_per_project_close_each:
  "close_each ids m = Some m' \<Longrightarrow> one_per_project m \<Longrightarrow> one_per_project m'"
  by (induction ids arbitrary: m) (auto simp: bind_eq_Some_conv dest: one_per_project_close)

lemma one_per_project_upd [simp]: "one_per_project (upd_hub i h m) = one_per_project m"
  by (simp add: one_per_project_def upd_hub_def)

lemma one_per_project_step:
  assumes "tm_ok m" "one_per_project m" "tm_step e m = Some m'"
  shows "one_per_project m'"
proof (cases e)
  case (TmCreate docker uuid now projectID containerID)
  have "tm_byProject m projectID = None" if "tm_existing projectID m = None"
    using that assms(1) by (auto simp: tm_existing_def tm_ok_def split: option.splits list.splits)
  then show ?thesis using assms(2,3) TmCreate
    by (auto simp: CreateSession_def one_per_project_def tm_register_def split: option.splits if_splits)
qed (use assms(2,3) in \<open>auto simp: tm_subscribe_at_def tm_Unsubscribe_def pump_round_def CloseProjectSessions_def
      tm_CloseAll_def bind_eq_Some_conv split: option.splits if_splits
      dest: one_per_project_close one_per_project_close_each\<close>)

lemma tm_reachable_one: "tm_reachable n m \<Longrightarrow> one_per_project m"
proof (induction rule: tm_reachable.induct)
  case new
  show ?case by (simp add: one_per_project_def term_NewManager_def)
next
  case (step m e m')
  then show ?case using one_per_project_step [OF tm_reachable_ok] by blast
qed

section \<open>Properties\<close>


definition demo_execer :: execer where
  "demo_execer = \<lparr>ExecCreate = (\<lambda>_ _. Some ''x''), ExecAttach = (\<lambda>_ _. True), ExecResize = (\<lambda>_ _. True)\<rparr>"

lemma tm_demo_reachable:
  "tm_reachable 8 (tm_register ''s1'' ''p'' 0 ''x'' (term_NewManager 8))"
  using tm_reachable.step [OF tm_reachable.new, of "TmCreate demo_execer ''s1'' 0 ''p'' ''c''"]
  by (simp add: CreateSession_def tm_existing_def term_NewManager_def demo_execer_def)


text \<open>
  Shutting down and deleting a project leave nothing behind: after \<open>CloseAll\<close> no session is
  registered and every session ever created is torn down; after \<open>CloseProjectSessions\<close> exactly the
  sessions of that project are gone.
\<close>

theorem tm_close_complete:
  assumes "tm_reachable n m"
  shows "(\<exists>m'. tm_CloseAll m = Some m' \<and> tm_sessions m' = []
            \<and> (\<forall>i s. tm_heap m' i = Some s \<longrightarrow> ss_done s \<and> \<not> ss_conn_open s))
       \<and> (\<exists>m'. CloseProjectSessions p m = Some m'
            \<and> (\<forall>i. i \<in> set (tm_sessions m') \<longleftrightarrow>
                 i \<in> set (tm_sessions m) \<and> (\<forall>s. tm_heap m i = Some s \<longrightarrow> ss_ProjectID s \<noteq> p)))"
proof
  have ok: "tm_ok m" using assms by (rule tm_reachable_ok)
  obtain m1 where m1: "close_each (tm_sessions m) m = Some m1" "tm_ok m1" "tm_sessions m1 = []"
    using close_each_ok [OF ok, of "tm_sessions m"] by (auto simp flip: set_empty)
  then show "\<exists>m'. tm_CloseAll m = Some m' \<and> tm_sessions m' = []
      \<and> (\<forall>i s. tm_heap m' i = Some s \<longrightarrow> ss_done s \<and> \<not> ss_conn_open s)"
    by (auto simp: tm_CloseAll_def tm_ok_def session_ok_def)
  let ?ids = "case tm_byProject m p of None \<Rightarrow> [] | Some ids \<Rightarrow> ids"
  have mem: "i \<in> set ?ids \<longleftrightarrow> i \<in> set (tm_sessions m) \<and> (\<exists>s. tm_heap m i = Some s \<and> ss_ProjectID s = p)" for i
  proof -
    have "(\<exists>ids. tm_byProject m p = Some ids \<and> i \<in> set ids) \<longleftrightarrow>
        i \<in> set (tm_sessions m) \<and> (\<exists>s. tm_heap m i = Some s \<and> ss_ProjectID s = p)"
      using ok by (simp add: tm_ok_def)
    then show ?thesis by (cases "tm_byProject m p") auto
  qed
  obtain m2 where "close_each ?ids m = Some m2"
    "\<forall>j. j \<in> set (tm_sessions m2) \<longleftrightarrow> j \<in> set (tm_sessions m) \<and> j \<notin> set ?ids"
    using close_each_ok [OF ok, of ?ids] by blast
  then show "\<exists>m'. CloseProjectSessions p m = Some m' \<and> (\<forall>i. i \<in> set (tm_sessions m') \<longleftrightarrow>
      i \<in> set (tm_sessions m) \<and> (\<forall>s. tm_heap m i = Some s \<longrightarrow> ss_ProjectID s \<noteq> p))"
    unfolding CloseProjectSessions_def mem by blast
qed

theorem tm_close_complete_witness:
  "\<exists>m'. tm_CloseAll (tm_register ''s1'' ''p'' 0 ''x'' (term_NewManager 8)) = Some m' \<and> tm_sessions m' = []"
  using tm_close_complete [OF tm_demo_reachable] by blast

text \<open>
  The single-session cap. As long as each \<open>CreateSession\<close> runs undisturbed, a project never has
  more than one session. Two calls for the same project whose checks both come before either
  registration break the cap and leave two sessions of the project registered.
\<close>

theorem CreateSession_cap:
  assumes "tm_reachable n m" "tm_existing p m = None" "u1 \<noteq> u2"
  shows "(\<forall>q ids. tm_byProject m q = Some ids \<longrightarrow> length ids \<le> 1)
     \<and> create_step u1 t1 x1 p (CrCheck, m) = (CrRegister, m)
     \<and> create_step u2 t2 x2 p (CrCheck, m) = (CrRegister, m)
     \<and> (let m1 = snd (create_step u1 t1 x1 p (CrRegister, m)); m2 = snd (create_step u2 t2 x2 p (CrRegister, m1))
        in tm_byProject m2 p = Some [u1, u2] \<and> {u1, u2} \<subseteq> set (tm_sessions m2))"
proof -
  have "tm_byProject m p = None"
    using assms(2) tm_reachable_ok [OF assms(1)]
    by (auto simp: tm_existing_def tm_ok_def split: option.splits list.splits)
  then show ?thesis using assms(2,3) tm_reachable_one [OF assms(1)]
    by (auto simp: one_per_project_def tm_register_def Let_def)
qed

theorem CreateSession_cap_witness:
  "tm_byProject (snd (create_step ''b'' 0 ''y'' ''p'' (CrRegister,
     snd (create_step ''a'' 0 ''x'' ''p'' (CrRegister, term_NewManager 8))))) ''p'' = Some [''a'', ''b'']"
proof -
  have "tm_existing ''p'' (term_NewManager 8) = None" by code_simp
  from CreateSession_cap [OF tm_reachable.new this, of "''a''" "''b''" 0 "''x''" 0 "''y''"]
  show ?thesis by (simp add: Let_def)
qed

text \<open>
  A subscriber that looked the session up before it was closed and registers its channel
  afterwards is never told: its channel stays open although the session is over, and no later
  close of that session, nor the shutdown of all sessions, touches it.
\<close>

theorem late_subscriber_leaks:
  assumes "tm_reachable n m" "tm_GetSession i m = Some s"
  shows "\<exists>m1 c m2. CloseSession i m = Some m1 \<and> tm_subscribe_at i m1 = (Some c, m2)
     \<and> (\<exists>s2. tm_heap m2 i = Some s2 \<and> ss_done s2 \<and> c \<in> set (hb_subs (ss_hub s2))
          \<and> \<not> sc_closed (hb_chans (ss_hub s2) ! c))
     \<and> CloseSession i m2 = Some m2"
proof -
  have ok: "tm_ok m" using assms(1) by (rule tm_reachable_ok)
  have i: "i \<in> set (tm_sessions m)" using tm_ok_GetSession [OF ok] assms(2) by simp
  obtain m1 s1 where m1: "CloseSession i m = Some m1" "i \<notin> set (tm_sessions m1)"
    "tm_heap m1 i = Some s1" "ss_done s1"
    using CloseSession_ok [OF ok, of i] i by blast
  define c where "c = fst (hub_Subscribe (ss_hub s1))"
  define m2 where "m2 = upd_hub i (snd (hub_Subscribe (ss_hub s1))) m1"
  have "tm_subscribe_at i m1 = (Some c, m2)" using m1(3) by (simp add: tm_subscribe_at_def c_def m2_def)
  moreover have "\<exists>s2. tm_heap m2 i = Some s2 \<and> ss_done s2 \<and> c \<in> set (hb_subs (ss_hub s2))
      \<and> \<not> sc_closed (hb_chans (ss_hub s2) ! c)"
    using m1(3,4) by (simp add: m2_def c_def upd_hub_def hub_Subscribe_def)
  moreover have "CloseSession i m2 = Some m2"
    using m1(2) by (simp add: CloseSession_def tm_GetSession_def m2_def upd_hub_def)
  ultimately show ?thesis using m1(1) by blast
qed

theorem late_subscriber_leaks_witness:
  "\<exists>m1 c m2. CloseSession ''s1'' (tm_register ''s1'' ''p'' 0 ''x'' (term_NewManager 8)) = Some m1
     \<and> tm_subscribe_at ''s1'' m1 = (Some c, m2) \<and> CloseSession ''s1'' m2 = Some m2"
proof -
  obtain s where "tm_GetSession ''s1'' (tm_register ''s1'' ''p'' 0 ''x'' (term_NewManager 8)) = Some s"
    by (simp add: tm_GetSession_def tm_register_def)
  from late_subscriber_leaks [OF tm_demo_reachable this] show ?thesis by blast
qed

end
