(* ===== verification/Go_Strings.thy ===== *)
theory Go_Strings
  imports Prelude "HOL-Library.Sublist"
begin

text \<open>
  The functions of Go's \<^verbatim>\<open>strings\<close>, \<^verbatim>\<open>strconv\<close>, \<^verbatim>\<open>encoding/hex\<close> and \<^verbatim>\<open>path\<close> packages that the
  program calls, as executable functions on byte strings. Go strings are byte sequences, as
  HOL's \<open>string\<close> is. White space and letter case are those of ASCII: the program applies
  \<^verbatim>\<open>TrimSpace\<close> and \<^verbatim>\<open>ToLower\<close> to header values, CLI output and environment variables.
\<close>

section \<open>Package strings\<close>

definition HasPrefix :: "string \<Rightarrow> string \<Rightarrow> bool" where
  "HasPrefix s p \<longleftrightarrow> take (length p) s = p"

definition HasSuffix :: "string \<Rightarrow> string \<Rightarrow> bool" where
  "HasSuffix s p \<longleftrightarrow> length p \<le> length s \<and> drop (length s - length p) s = p"

definition TrimPrefix :: "string \<Rightarrow> string \<Rightarrow> string" where
  "TrimPrefix s p = (if HasPrefix s p then drop (length p) s else s)"

definition TrimSuffix :: "string \<Rightarrow> string \<Rightarrow> string" where
  "TrimSuffix s p = (if HasSuffix s p then take (length s - length p) s else s)"

text \<open>\<^verbatim>\<open>strings.Split\<close> with a one-byte separator: never the empty list.\<close>

fun Split :: "char \<Rightarrow> string \<Rightarrow> string list" where
  "Split c [] = [[]]"
| "Split c (x # xs) =
     (if x = c then [] # Split c xs
      else (case Split c xs of [] \<Rightarrow> [[x]] | y # ys \<Rightarrow> (x # y) # ys))"

fun Join :: "string \<Rightarrow> string list \<Rightarrow> string" where
  "Join sep [] = []"
| "Join sep [x] = x"
| "Join sep (x # y # ys) = x @ sep @ Join sep (y # ys)"

text \<open>\<^verbatim>\<open>strings.Index\<close>: the position of the first occurrence, \<open>None\<close> for -1.\<close>

fun Index :: "string \<Rightarrow> string \<Rightarrow> nat option" where
  "Index [] sub = (if sub = [] then Some 0 else None)"
| "Index (x # xs) sub =
     (if HasPrefix (x # xs) sub then Some 0 else map_option Suc (Index xs sub))"

definition Contains :: "string \<Rightarrow> string \<Rightarrow> bool" where
  "Contains s sub \<longleftrightarrow> Index s sub \<noteq> None"

fun IndexByte :: "string \<Rightarrow> char \<Rightarrow> nat option" where
  "IndexByte [] c = None"
| "IndexByte (x # xs) c = (if x = c then Some 0 else map_option Suc (IndexByte xs c))"

fun LastIndexByte :: "string \<Rightarrow> char \<Rightarrow> nat option" where
  "LastIndexByte [] c = None"
| "LastIndexByte (x # xs) c =
     (case LastIndexByte xs c of
        Some i \<Rightarrow> Some (Suc i)
      | None \<Rightarrow> if x = c then Some 0 else None)"

definition ContainsAny :: "string \<Rightarrow> string \<Rightarrow> bool" where
  "ContainsAny s chars \<longleftrightarrow> list_ex (\<lambda>c. c \<in> set chars) s"

definition is_space :: "char \<Rightarrow> bool" where
  "is_space c \<longleftrightarrow> c \<in> set [CHR '' '', CHR 0x09, CHR 0x0A, CHR 0x0B, CHR 0x0C, CHR 0x0D]"

definition TrimSpace :: "string \<Rightarrow> string" where
  "TrimSpace s = rev (dropWhile is_space (rev (dropWhile is_space s)))"

text \<open>\<^verbatim>\<open>strings.TrimRight(s, cutset)\<close>.\<close>

definition TrimRight :: "string \<Rightarrow> string \<Rightarrow> string" where
  "TrimRight s cutset = rev (dropWhile (\<lambda>c. c \<in> set cutset) (rev s))"

definition lower_char :: "char \<Rightarrow> char" where
  "lower_char c =
     (let n = of_char c :: nat in if 65 \<le> n \<and> n \<le> 90 then char_of (n + 32) else c)"

definition ToLower :: "string \<Rightarrow> string" where
  "ToLower s = map lower_char s"

section \<open>Package strconv\<close>

definition digit_char :: "nat \<Rightarrow> char" where
  "digit_char d = char_of (48 + d)"

definition is_digit :: "char \<Rightarrow> bool" where
  "is_digit c \<longleftrightarrow> 48 \<le> (of_char c :: nat) \<and> (of_char c :: nat) \<le> 57"

definition digit_val :: "char \<Rightarrow> int" where
  "digit_val c = (of_char c :: int) - 48"

fun nat_digits :: "nat \<Rightarrow> string" where
  "nat_digits n =
     (if n < 10 then [digit_char n] else nat_digits (n div 10) @ [digit_char (n mod 10)])"

declare nat_digits.simps [simp del]

definition Itoa :: "int \<Rightarrow> string" where
  "Itoa i = (if i < 0 then CHR ''-'' # nat_digits (nat (- i)) else nat_digits (nat i))"

definition digits_value :: "string \<Rightarrow> int" where
  "digits_value s = foldl (\<lambda>a c. 10 * a + digit_val c) 0 s"

text \<open>
  \<^verbatim>\<open>strconv.Atoi\<close>: an optional sign, then one or more decimal digits; values outside the
  64-bit range are errors (\<open>None\<close>).
\<close>

definition int64_range :: "int \<Rightarrow> bool" where
  "int64_range i \<longleftrightarrow> - (2 ^ 63) \<le> i \<and> i < 2 ^ 63"

definition Atoi :: "string \<Rightarrow> int option" where
  "Atoi s =
     (let neg = (case s of c # _ \<Rightarrow> c = CHR ''-'' | [] \<Rightarrow> False);
          ds = (case s of c # cs \<Rightarrow> if c = CHR ''-'' \<or> c = CHR ''+'' then cs else s | [] \<Rightarrow> []);
          v = (if neg then - digits_value ds else digits_value ds)
      in if ds \<noteq> [] \<and> list_all is_digit ds \<and> int64_range v then Some v else None)"

section \<open>Package encoding/hex\<close>

definition hex_digit :: "nat \<Rightarrow> char" where
  "hex_digit d = (if d < 10 then char_of (48 + d) else char_of (87 + d))"

definition hex_EncodeToString :: "byte list \<Rightarrow> string" where
  "hex_EncodeToString bs =
     concat (map (\<lambda>b. [hex_digit (unat b div 16), hex_digit (unat b mod 16)]) bs)"

section \<open>Package path\<close>

text \<open>
  \<^verbatim>\<open>path.Clean\<close> (and \<^verbatim>\<open>filepath.Clean\<close> on Unix): process the slash-separated elements from
  left to right, dropping empty and \<^verbatim>\<open>.\<close> elements; \<^verbatim>\<open>..\<close> removes the last kept element, is
  dropped at the root, and is kept in a relative path with nothing to remove.
\<close>

fun clean_elems :: "bool \<Rightarrow> string list \<Rightarrow> string list \<Rightarrow> string list" where
  "clean_elems rooted acc [] = rev acc"
| "clean_elems rooted acc (e # es) =
     (if e = [] \<or> e = ''.'' then clean_elems rooted acc es
      else if e = ''..'' then
        (case acc of
           [] \<Rightarrow> if rooted then clean_elems rooted [] es else clean_elems rooted [''..''] es
         | a # as \<Rightarrow>
             if a = ''..'' then clean_elems rooted (''..'' # acc) es
             else clean_elems rooted as es)
      else clean_elems rooted (e # acc) es)"

definition path_Clean :: "string \<Rightarrow> string" where
  "path_Clean p =
     (if p = [] then ''.''
      else if HasPrefix p ''/'' then
        CHR ''/'' # Join ''/'' (clean_elems True [] (Split CHR ''/'' p))
      else
        (case clean_elems False [] (Split CHR ''/'' p) of
           [] \<Rightarrow> ''.'' | es \<Rightarrow> Join ''/'' es))"

text \<open>\<^verbatim>\<open>path.Join\<close>: empty elements are ignored, the rest joined with slashes and cleaned.\<close>

definition path_Join :: "string list \<Rightarrow> string" where
  "path_Join es =
     (case filter (\<lambda>e. e \<noteq> []) es of [] \<Rightarrow> [] | es' \<Rightarrow> path_Clean (Join ''/'' es'))"

section \<open>Facts: prefixes and suffixes\<close>

lemma HasPrefix_iff: "HasPrefix s p \<longleftrightarrow> (\<exists>t. s = p @ t)"
  unfolding HasPrefix_def by (metis append_eq_conv_conj append_take_drop_id)

lemma HasSuffix_iff: "HasSuffix s p \<longleftrightarrow> (\<exists>t. s = t @ p)"
proof
  assume "HasSuffix s p"
  then have "s = take (length s - length p) s @ p"
    unfolding HasSuffix_def by (metis append_take_drop_id)
  then show "\<exists>t. s = t @ p" ..
qed (auto simp: HasSuffix_def)

lemma HasPrefix_append [simp]: "HasPrefix (p @ s) p"
  by (simp add: HasPrefix_def)

lemma HasSuffix_append [simp]: "HasSuffix (s @ p) p"
  by (simp add: HasSuffix_def)

lemma TrimPrefix_append [simp]: "TrimPrefix (p @ s) p = s"
  by (simp add: TrimPrefix_def)

lemma TrimSuffix_append [simp]: "TrimSuffix (s @ p) p = s"
  by (simp add: TrimSuffix_def)

lemma TrimSuffix_no [simp]: "\<not> HasSuffix s p \<Longrightarrow> TrimSuffix s p = s"
  by (simp add: TrimSuffix_def)

lemma HasPrefix_Nil [simp]: "HasPrefix s []"
  by (simp add: HasPrefix_def)

lemma HasPrefix_Cons [simp]: "HasPrefix (x # s) [c] \<longleftrightarrow> x = c"
  by (simp add: HasPrefix_def)

section \<open>Facts: splitting and joining\<close>

lemma Split_neq_Nil [simp]: "Split c s \<noteq> []"
  by (induction s) (auto split: list.splits)

lemma Split_append: "Split c (a @ c # b) = Split c a @ Split c b"
  by (induction a) (auto split: list.splits)

lemma Split_no_sep [simp]: "c \<notin> set s \<Longrightarrow> Split c s = [s]"
  by (induction s) auto

lemma Split_elem_no_sep: "e \<in> set (Split c s) \<Longrightarrow> c \<notin> set e"
  by (induction s arbitrary: e) (auto split: list.splits if_splits)

lemma Split_elem_subset: "e \<in> set (Split c s) \<Longrightarrow> set e \<subseteq> set s"
proof (induction s arbitrary: e)
  case (Cons x s)
  then show ?case
    by (cases "Split c s") (fastforce split: if_splits)+
qed auto

lemma Join_Cons: "ys \<noteq> [] \<Longrightarrow> Join sep (y # ys) = y @ sep @ Join sep ys"
  by (cases ys) auto

lemma Join_Split: "Join [c] (Split c s) = s"
proof (induction s)
  case (Cons x s)
  show ?case
  proof (cases "x = c")
    case True
    with Cons show ?thesis by (simp add: Join_Cons)
  next
    case False
    obtain y ys where "Split c s = y # ys" by (cases "Split c s") auto
    with Cons False show ?thesis by (cases ys) auto
  qed
qed simp

lemma Split_Join:
  assumes "xs \<noteq> []" "\<forall>x \<in> set xs. c \<notin> set x"
  shows "Split c (Join [c] xs) = xs"
  using assms
proof (induction xs)
  case (Cons x xs)
  show ?case
  proof (cases "xs = []")
    case True
    with Cons.prems show ?thesis by simp
  next
    case False
    with Cons have "Split c (x @ c # Join [c] xs) = [x] @ xs"
      by (subst Split_append) simp
    with False show ?thesis by (simp add: Join_Cons)
  qed
qed simp

section \<open>Facts: searching\<close>

lemma Index_SomeD: "Index s sub = Some i \<Longrightarrow> i \<le> length s \<and> HasPrefix (drop i s) sub"
  by (induction s arbitrary: i) (auto split: if_splits)

lemma Index_append: "\<exists>i \<le> length pre. Index (pre @ sub @ post) sub = Some i"
proof (induction pre)
  case Nil
  show ?case
    by (cases "sub @ post") (auto, metis HasPrefix_append)
next
  case (Cons x pre)
  then show ?case by fastforce
qed

lemma Contains_iff: "Contains s sub \<longleftrightarrow> (\<exists>a b. s = a @ sub @ b)"
proof
  assume "Contains s sub"
  then obtain i where "Index s sub = Some i" by (auto simp: Contains_def)
  then have "HasPrefix (drop i s) sub" by (simp add: Index_SomeD)
  then obtain b where "drop i s = sub @ b" by (auto simp: HasPrefix_iff)
  then have "s = take i s @ sub @ b" by (metis append_take_drop_id)
  then show "\<exists>a b. s = a @ sub @ b" by blast
next
  assume "\<exists>a b. s = a @ sub @ b"
  then obtain a b where "s = a @ sub @ b" by blast
  with Index_append [of a sub b] show "Contains s sub" by (auto simp: Contains_def)
qed

lemma Contains_char [simp]: "Contains s [c] \<longleftrightarrow> c \<in> set s"
  by (auto simp: Contains_iff in_set_conv_decomp)

lemma IndexByte_None [simp]: "IndexByte s c = None \<longleftrightarrow> c \<notin> set s"
  by (induction s) auto

lemma IndexByte_append:
  "c \<notin> set a \<Longrightarrow> IndexByte (a @ c # b) c = Some (length a)"
  by (induction a) auto

lemma LastIndexByte_None [simp]: "LastIndexByte s c = None \<longleftrightarrow> c \<notin> set s"
  by (induction s) (auto split: option.splits)

lemma LastIndexByte_append:
  "c \<notin> set b \<Longrightarrow> LastIndexByte (a @ c # b) c = Some (length a)"
proof (induction a)
  case Nil
  then show ?case
    using LastIndexByte_None [of b c] by (simp del: LastIndexByte_None)
next
  case (Cons x a)
  then show ?case by simp
qed

section \<open>Facts: numbers\<close>

lemma of_char_digit [simp]: "d < 10 \<Longrightarrow> (of_char (digit_char d) :: nat) = 48 + d"
  by (simp add: digit_char_def)

lemma is_digit_digit_char [simp]: "d < 10 \<Longrightarrow> is_digit (digit_char d)"
  by (simp add: is_digit_def)

lemma digit_val_digit_char [simp]: "d < 10 \<Longrightarrow> digit_val (digit_char d) = int d"
proof -
  assume "d < 10"
  then have "(of_char (digit_char d) :: int) = int (48 + d)"
    by (metis of_char_digit of_nat_of_char)
  then show ?thesis by (simp add: digit_val_def)
qed

lemma nat_digits_digits: "c \<in> set (nat_digits n) \<Longrightarrow> is_digit c"
proof (induction n rule: nat_digits.induct)
  case (1 n)
  then show ?case
    by (subst (asm) (2) nat_digits.simps) (auto split: if_splits)
qed

lemma nat_digits_neq_Nil [simp]: "nat_digits n \<noteq> []"
  by (subst nat_digits.simps) simp

lemma digits_value_snoc: "digits_value (s @ [c]) = 10 * digits_value s + digit_val c"
  by (simp add: digits_value_def)

lemma digits_value_nat_digits: "digits_value (nat_digits n) = int n"
proof (induction n rule: nat_digits.induct)
  case (1 n)
  show ?case
  proof (cases "n < 10")
    case True
    then show ?thesis
      by (subst nat_digits.simps) (simp add: digits_value_def)
  next
    case False
    have "10 * int (n div 10) + int (n mod 10) = int n" by presburger
    with 1 False show ?thesis
      by (subst nat_digits.simps) (simp add: digits_value_snoc)
  qed
qed

lemma is_digit_not:
  "\<not> is_digit CHR ''-''" "\<not> is_digit CHR ''+''" "\<not> is_digit CHR '':''" "\<not> is_digit CHR ''*''"
  "\<not> is_digit CHR ''.''" "\<not> is_digit CHR ''/''" "\<not> is_digit CHR ''[''" "\<not> is_digit CHR '']''"
  by (simp_all add: is_digit_def)

lemma Itoa_chars: "c \<in> set (Itoa i) \<Longrightarrow> is_digit c \<or> c = CHR ''-''"
  by (auto simp: Itoa_def dest: nat_digits_digits split: if_splits)

lemma Itoa_no_sep [simp]:
  "CHR '':'' \<notin> set (Itoa i)" "CHR ''*'' \<notin> set (Itoa i)" "CHR ''.'' \<notin> set (Itoa i)"
  "CHR ''/'' \<notin> set (Itoa i)" "CHR ''['' \<notin> set (Itoa i)" "CHR '']'' \<notin> set (Itoa i)"
  using Itoa_chars is_digit_not by fastforce+

lemma Itoa_neq_Nil [simp]: "Itoa i \<noteq> []"
  by (simp add: Itoa_def)

lemma Atoi_Itoa: "int64_range i \<Longrightarrow> Atoi (Itoa i) = Some i"
proof -
  assume r: "int64_range i"
  show ?thesis
  proof (cases "i < 0")
    case True
    with r show ?thesis
      by (auto simp: Itoa_def Atoi_def Let_def digits_value_nat_digits list_all_iff
          dest: nat_digits_digits)
  next
    case False
    obtain d ds where ds: "nat_digits (nat i) = d # ds" by (cases "nat_digits (nat i)") auto
    then have "is_digit d" using nat_digits_digits [of d "nat i"] by simp
    then have "d \<noteq> CHR ''-''" "d \<noteq> CHR ''+''" using is_digit_not by auto
    moreover have "list_all is_digit (d # ds)"
      using nat_digits_digits [of _ "nat i"] ds by (simp add: list_all_iff)
    moreover have "digits_value (d # ds) = i"
      using digits_value_nat_digits [of "nat i"] ds False by simp
    ultimately show ?thesis using False r ds
      by (simp add: Itoa_def Atoi_def Let_def)
  qed
qed

lemma Itoa_inj: "Itoa i = Itoa j \<Longrightarrow> i = j"
proof -
  assume eq: "Itoa i = Itoa j"
  have neg: "(hd (Itoa k) = CHR ''-'') = (k < 0)" for k
    using nat_digits_digits [of "hd (nat_digits (nat k))" "nat k"] is_digit_not(1)
    by (auto simp: Itoa_def)
  have "digits_value (nat_digits (nat \<bar>i\<bar>)) = digits_value (nat_digits (nat \<bar>j\<bar>))"
    using eq neg [of i] neg [of j] by (auto simp: Itoa_def split: if_splits)
  then have "\<bar>i\<bar> = \<bar>j\<bar>" by (simp add: digits_value_nat_digits)
  then show "i = j" using eq neg [of i] neg [of j] by auto
qed

lemma length_hex [simp]: "length (hex_EncodeToString bs) = 2 * length bs"
  by (induction bs) (simp_all add: hex_EncodeToString_def)

lemma TrimSpace_id: "\<forall>c \<in> set s. \<not> is_space c \<Longrightarrow> TrimSpace s = s"
proof -
  assume s: "\<forall>c \<in> set s. \<not> is_space c"
  have d: "dropWhile is_space xs = xs" if "\<forall>c \<in> set xs. \<not> is_space c" for xs
    using that by (cases xs) auto
  show ?thesis using s d [of s] d [of "rev s"] by (simp add: TrimSpace_def)
qed

lemma TrimSpace_newline:
  assumes "\<forall>c \<in> set s. \<not> is_space c"
  shows "TrimSpace (s @ [CHR 0x0A]) = s"
proof -
  have d: "dropWhile is_space (xs @ ys) = xs @ ys" if "\<forall>c \<in> set xs. \<not> is_space c" "xs \<noteq> []" for xs ys
    using that by (cases xs) auto
  have n: "is_space CHR 0x0A" by (simp add: is_space_def)
  show ?thesis
  proof (cases "s = []")
    case False
    then show ?thesis
      using assms d [of s "[CHR 0x0A]"] d [of "rev s" "[]"] n by (simp add: TrimSpace_def)
  qed (simp add: TrimSpace_def n)
qed

lemma hex_digit_not_space: "d < 16 \<Longrightarrow> \<not> is_space (hex_digit d)"
proof -
  have "list_all (\<lambda>d. \<not> is_space (hex_digit d)) [0..<16]" by code_simp
  then show "d < 16 \<Longrightarrow> \<not> is_space (hex_digit d)" by (simp add: list_all_iff)
qed

lemma hex_not_space:
  assumes "c \<in> set (hex_EncodeToString bs)"
  shows "\<not> is_space c"
proof -
  obtain b :: byte where "c = hex_digit (unat b div 16) \<or> c = hex_digit (unat b mod 16)"
    using assms by (auto simp: hex_EncodeToString_def)
  moreover have "unat b < 16 * 16" using unsigned_less [of b] by simp
  then have "unat b div 16 < 16" by (rule less_mult_imp_div_less)
  ultimately show ?thesis using hex_digit_not_space [of "unat b div 16"] hex_digit_not_space [of "unat b mod 16"] by auto
qed

section \<open>Facts: cleaned paths\<close>

definition plain_elem :: "string \<Rightarrow> bool" where
  "plain_elem e \<longleftrightarrow> e \<noteq> [] \<and> e \<noteq> ''.'' \<and> e \<noteq> ''..''"

text \<open>At the root no dot-dot element survives, whatever the input.\<close>

lemma clean_elems_rooted_plain:
  "list_all plain_elem acc \<Longrightarrow> list_all plain_elem (clean_elems True acc es)"
  by (induction "True" acc es rule: clean_elems.induct)
    (auto simp: plain_elem_def split: list.splits)

lemma clean_elems_subset: "set (clean_elems True acc es) \<subseteq> set acc \<union> set es"
  by (induction "True" acc es rule: clean_elems.induct)
    (auto split: list.splits if_splits)

lemma clean_elems_plain:
  "list_all plain_elem es \<Longrightarrow> clean_elems rooted acc es = rev acc @ es"
  by (induction es arbitrary: acc) (auto simp: plain_elem_def)

lemma clean_elems_Nil_first [simp]: "clean_elems rooted acc ([] # es) = clean_elems rooted acc es"
  by simp

text \<open>A rooted path cleans to the root followed by plain elements only.\<close>

definition rooted_elems :: "string \<Rightarrow> string list" where
  "rooted_elems p = clean_elems True [] (Split CHR ''/'' p)"

lemma path_Clean_rooted:
  "path_Clean (CHR ''/'' # p) = CHR ''/'' # Join ''/'' (rooted_elems p)"
  by (simp add: path_Clean_def rooted_elems_def)

lemma rooted_elems_plain: "e \<in> set (rooted_elems p) \<Longrightarrow> plain_elem e"
  using clean_elems_rooted_plain [of "[]" "Split CHR ''/'' p"]
  by (simp add: rooted_elems_def list_all_iff)

lemma rooted_elems_no_slash: "e \<in> set (rooted_elems p) \<Longrightarrow> CHR ''/'' \<notin> set e"
proof -
  assume "e \<in> set (rooted_elems p)"
  then have "e \<in> set (Split CHR ''/'' p)"
    using clean_elems_subset [of "[]" "Split CHR ''/'' p"]
    by (auto simp: rooted_elems_def)
  then show ?thesis by (rule Split_elem_no_sep)
qed

lemma Split_path_Clean_rooted:
  "Split CHR ''/'' (Join ''/'' (rooted_elems p)) =
     (if rooted_elems p = [] then [[]] else rooted_elems p)"
  by (auto intro!: Split_Join dest: rooted_elems_no_slash)

lemma path_Clean_idem_rooted:
  "path_Clean (path_Clean (CHR ''/'' # p)) = path_Clean (CHR ''/'' # p)"
proof -
  have "rooted_elems (Join ''/'' (rooted_elems p)) = rooted_elems p"
  proof (cases "rooted_elems p = []")
    case True
    then show ?thesis by (simp add: rooted_elems_def)
  next
    case False
    have "list_all plain_elem (rooted_elems p)"
      by (simp add: list_all_iff rooted_elems_plain)
    then have "clean_elems True [] (rooted_elems p) = rooted_elems p"
      by (simp add: clean_elems_plain)
    with False show ?thesis
      by (subst rooted_elems_def) (simp add: Split_path_Clean_rooted)
  qed
  then show ?thesis by (simp add: path_Clean_rooted)
qed

text \<open>Joining a plain name to a rooted directory adds one element and nothing else.\<close>

lemma clean_elems_snoc:
  "plain_elem e \<Longrightarrow> clean_elems True acc (es @ [e]) = clean_elems True acc es @ [e]"
  by (induction "True" acc es rule: clean_elems.induct)
    (auto simp: plain_elem_def split: list.splits)

lemma path_Join_plain:
  assumes "HasPrefix dir ''/''" "plain_elem name" "CHR ''/'' \<notin> set name"
  shows "path_Join [dir, name] =
    (if path_Clean dir = ''/'' then CHR ''/'' # name else path_Clean dir @ CHR ''/'' # name)"
proof -
  obtain d where d: "dir = CHR ''/'' # d" using assms(1) by (auto simp: HasPrefix_iff)
  have "Split CHR ''/'' (d @ CHR ''/'' # name) = Split CHR ''/'' d @ [name]"
    using assms(3) by (simp add: Split_append)
  then have elems: "rooted_elems (d @ CHR ''/'' # name) = rooted_elems d @ [name]"
    using assms(2) by (simp add: rooted_elems_def clean_elems_snoc)
  have "path_Join [dir, name] = path_Clean (CHR ''/'' # (d @ CHR ''/'' # name))"
    using assms(2) by (simp add: path_Join_def d plain_elem_def)
  also have "\<dots> = CHR ''/'' # Join ''/'' (rooted_elems d @ [name])" by (simp only: path_Clean_rooted elems)
  also have "\<dots> = (if rooted_elems d = [] then CHR ''/'' # name
      else CHR ''/'' # Join ''/'' (rooted_elems d) @ CHR ''/'' # name)"
  proof -
    have "xs \<noteq> [] \<Longrightarrow> Join ''/'' (xs @ [name]) = Join ''/'' xs @ CHR ''/'' # name" for xs
      by (induction "''/''" xs rule: Join.induct) auto
    then show ?thesis by simp
  qed
  finally have eq: "path_Join [dir, name] = (if rooted_elems d = [] then CHR ''/'' # name
      else CHR ''/'' # Join ''/'' (rooted_elems d) @ CHR ''/'' # name)" .
  have "Join ''/'' (rooted_elems d) = [] \<longleftrightarrow> rooted_elems d = []"
  proof (cases "rooted_elems d")
    case (Cons e es)
    then have "plain_elem e" using rooted_elems_plain [of e d] by simp
    with Cons show ?thesis by (cases es) (auto simp: plain_elem_def)
  qed simp
  then have "path_Clean dir = ''/'' \<longleftrightarrow> rooted_elems d = []" by (simp add: d path_Clean_rooted)
  then show ?thesis using eq by (simp add: d path_Clean_rooted)
qed

end
