(* ===== verification/Go_Http.thy ===== *)
theory Go_Http
  imports Go_Strings
begin

text \<open>
  The part of Go's \<^verbatim>\<open>net/http\<close> and \<^verbatim>\<open>encoding/json\<close> that the server code uses: requests,
  response writers with the header snapshot taken by the first \<^verbatim>\<open>WriteHeader\<close>, cookies, JSON
  values, \<^verbatim>\<open>http.Error\<close>, and handlers as state transformers. Header names are in canonical
  form. \<open>rq_Path\<close> is the decoded path and \<open>rq_EscapedPath\<close> the path as sent. The Cookie header and
  the query are kept parsed. Of a body the model has what a JSON
  decoder makes of it and how many bytes the decoder has to read for that, so that a body limit
  can make the decoding fail.
\<close>

section \<open>Values\<close>

datatype json =
  JNull | JBool bool | JNum int | JStr string | JArr "json list" | JObj "(string \<times> json) list"

type_synonym header = "(string \<times> string) list"

record http_request =
  rq_Method :: string
  rq_Host :: string
  rq_Path :: string
  rq_EscapedPath :: string
  rq_RemoteAddr :: string
  rq_Header :: header
  rq_Cookies :: "(string \<times> string) list"
  rq_Query :: "(string \<times> string) list"
  rq_PathValues :: "(string \<times> string) list"
  rq_Json :: "json option"
  rq_BodyLen :: nat
  rq_BodyLimit :: "nat option"

definition base_request :: http_request where
  "base_request = \<lparr>rq_Method = ''GET'', rq_Host = [], rq_Path = ''/'', rq_EscapedPath = ''/'', rq_RemoteAddr = [], rq_Header = [],
     rq_Cookies = [], rq_Query = [], rq_PathValues = [], rq_Json = None, rq_BodyLen = 0, rq_BodyLimit = None\<rparr>"

record cookie =
  ck_Name :: string
  ck_Value :: string
  ck_Path :: string
  ck_Domain :: string
  ck_HttpOnly :: bool
  ck_SameSiteLax :: bool
  ck_Secure :: bool
  ck_MaxAge :: int

text \<open>
  A body is text, a JSON document, the reply of an upstream to a forwarded request, what the
  file server makes of a path, or the frames of a WebSocket connected to a session.
\<close>

datatype body =
    NoBody | TextBody string | JsonBody json | Upstream string http_request
  | StaticFile string | WebSocket string

record http_response =
  rs_Header :: header
  rs_SetCookies :: "cookie list"
  rs_Sent :: "(int \<times> header \<times> cookie list) option"
  rs_Body :: body

definition new_response :: http_response where
  "new_response = \<lparr>rs_Header = [], rs_SetCookies = [], rs_Sent = None, rs_Body = NoBody\<rparr>"

section \<open>Headers and cookies\<close>

definition header_Get :: "header \<Rightarrow> string \<Rightarrow> string" where
  "header_Get h k = (case map_of h k of Some v \<Rightarrow> v | None \<Rightarrow> [])"

definition header_Del :: "header \<Rightarrow> string \<Rightarrow> header" where
  "header_Del h k = filter (\<lambda>p. fst p \<noteq> k) h"

definition header_Set :: "header \<Rightarrow> string \<Rightarrow> string \<Rightarrow> header" where
  "header_Set h k v = (k, v) # header_Del h k"

definition request_Cookie :: "http_request \<Rightarrow> string \<Rightarrow> string option" where
  "request_Cookie r name = map_of (rq_Cookies r) name"

definition query_Get :: "http_request \<Rightarrow> string \<Rightarrow> string" where
  "query_Get r k = (case map_of (rq_Query r) k of Some v \<Rightarrow> v | None \<Rightarrow> [])"

definition PathValue :: "http_request \<Rightarrow> string \<Rightarrow> string" where
  "PathValue r k = (case map_of (rq_PathValues r) k of Some v \<Rightarrow> v | None \<Rightarrow> [])"

section \<open>Decoding bodies\<close>

text \<open>
  \<^verbatim>\<open>json.NewDecoder(r.Body).Decode\<close> up to the document: it fails on malformed input and on a body
  that exceeds the limit set by \<^verbatim>\<open>http.MaxBytesReader\<close>.
\<close>

definition decode_body :: "http_request \<Rightarrow> json option" where
  "decode_body r =
     (case rq_BodyLimit r of
        None \<Rightarrow> rq_Json r
      | Some l \<Rightarrow> if l < rq_BodyLen r then None else rq_Json r)"

text \<open>
  Decoding into a struct: the document is an object or null; a field is found whatever its letter
  case, the last one counts, and an absent or null field keeps its zero value.
\<close>

definition struct_fields :: "json \<Rightarrow> (string \<times> json) list option" where
  "struct_fields j = (case j of JObj fs \<Rightarrow> Some fs | JNull \<Rightarrow> Some [] | _ \<Rightarrow> None)"

definition json_field :: "string \<Rightarrow> (string \<times> json) list \<Rightarrow> json option" where
  "json_field k fs =
     (case filter (\<lambda>p. ToLower (fst p) = ToLower k \<and> snd p \<noteq> JNull) fs of
        [] \<Rightarrow> None | ps \<Rightarrow> Some (snd (last ps)))"

definition string_field :: "string \<Rightarrow> (string \<times> json) list \<Rightarrow> string option" where
  "string_field k fs =
     (case json_field k fs of None \<Rightarrow> Some [] | Some (JStr s) \<Rightarrow> Some s | Some _ \<Rightarrow> None)"

definition int_field :: "string \<Rightarrow> (string \<times> json) list \<Rightarrow> int option" where
  "int_field k fs =
     (case json_field k fs of
        None \<Rightarrow> Some 0 | Some (JNum n) \<Rightarrow> if int64_range n then Some n else None | Some _ \<Rightarrow> None)"

definition uint16_field :: "string \<Rightarrow> (string \<times> json) list \<Rightarrow> 16 word option" where
  "uint16_field k fs =
     (case json_field k fs of
        None \<Rightarrow> Some 0 | Some (JNum n) \<Rightarrow> if 0 \<le> n \<and> n < 2 ^ 16 then Some (of_int n) else None | Some _ \<Rightarrow> None)"

fun json_strings :: "json list \<Rightarrow> string list option" where
  "json_strings [] = Some []"
| "json_strings (JStr s # js) = map_option (\<lambda>ss. s # ss) (json_strings js)"
| "json_strings (JNull # js) = map_option (\<lambda>ss. [] # ss) (json_strings js)"
| "json_strings (_ # js) = None"

definition strings_field :: "string \<Rightarrow> (string \<times> json) list \<Rightarrow> string list option" where
  "strings_field k fs =
     (case json_field k fs of None \<Rightarrow> Some [] | Some (JArr js) \<Rightarrow> json_strings js | Some _ \<Rightarrow> None)"

section \<open>Response writers\<close>

definition set_header :: "http_response \<Rightarrow> string \<Rightarrow> string \<Rightarrow> http_response" where
  "set_header w k v = w\<lparr>rs_Header := header_Set (rs_Header w) k v\<rparr>"

definition SetCookie :: "http_response \<Rightarrow> cookie \<Rightarrow> http_response" where
  "SetCookie w c = w\<lparr>rs_SetCookies := rs_SetCookies w @ [c]\<rparr>"

text \<open>Only the first \<^verbatim>\<open>WriteHeader\<close> counts; later changes to the header map are not sent.\<close>

definition WriteHeader :: "http_response \<Rightarrow> int \<Rightarrow> http_response" where
  "WriteHeader w code =
     (case rs_Sent w of
        None \<Rightarrow> w\<lparr>rs_Sent := Some (code, rs_Header w, rs_SetCookies w)\<rparr>
      | Some _ \<Rightarrow> w)"

definition write_body :: "http_response \<Rightarrow> body \<Rightarrow> http_response" where
  "write_body w b = (WriteHeader w 200)\<lparr>rs_Body := b\<rparr>"

definition http_Error :: "http_response \<Rightarrow> string \<Rightarrow> int \<Rightarrow> http_response" where
  "http_Error w msg code =
     write_body
       (WriteHeader
         (set_header (set_header w ''Content-Type'' ''text/plain; charset=utf-8'')
            ''X-Content-Type-Options'' ''nosniff'') code)
       (TextBody (msg @ [CHR 0x0A]))"

definition rs_status :: "http_response \<Rightarrow> int" where
  "rs_status w = (case rs_Sent w of Some (code, _) \<Rightarrow> code | None \<Rightarrow> 200)"

definition sent_header :: "http_response \<Rightarrow> string \<Rightarrow> string option" where
  "sent_header w k = (case rs_Sent w of Some (_, h, _) \<Rightarrow> map_of h k | None \<Rightarrow> map_of (rs_Header w) k)"

definition sent_cookies :: "http_response \<Rightarrow> cookie list" where
  "sent_cookies w = (case rs_Sent w of Some (_, _, cs) \<Rightarrow> cs | None \<Rightarrow> rs_SetCookies w)"

text \<open>
  A handler reads the request and transforms the response writer and the server state.
\<close>

type_synonym 's handler = "http_request \<Rightarrow> http_response \<times> 's \<Rightarrow> http_response \<times> 's"

section \<open>Facts\<close>

lemma header_Get_Set [simp]: "header_Get (header_Set h k v) k = v"
  by (simp add: header_Get_def header_Set_def)

lemma map_of_header_Del: "map_of (header_Del h k) k' = (if k' = k then None else map_of h k')"
  by (simp add: header_Del_def map_of_filter_neq)

lemma map_of_header_Set: "map_of (header_Set h k v) k' = (if k' = k then Some v else map_of h k')"
  by (simp add: header_Set_def map_of_header_Del)

lemma header_Get_Del [simp]: "header_Get (header_Del h k) k = []"
  by (simp add: header_Get_def map_of_header_Del)

lemma header_Get_Set_other [simp]: "k' \<noteq> k \<Longrightarrow> header_Get (header_Set h k v) k' = header_Get h k'"
  by (simp add: header_Get_def map_of_header_Set)

lemma header_Get_Del_other [simp]: "k' \<noteq> k \<Longrightarrow> header_Get (header_Del h k) k' = header_Get h k'"
  by (simp add: header_Get_def map_of_header_Del)

lemmas http_defs = set_header_def SetCookie_def WriteHeader_def write_body_def http_Error_def
  rs_status_def sent_header_def sent_cookies_def

lemma http_Error_status [simp]: "rs_Sent w = None \<Longrightarrow> rs_status (http_Error w msg code) = code"
  by (simp add: http_defs)

lemma http_Error_Body [simp]: "rs_Body (http_Error w msg code) = TextBody (msg @ [CHR 0x0A])"
  by (simp add: http_defs split: option.splits)

end
