(* ===== verification/Go_Net.thy ===== *)
theory Go_Net
  imports Go_Strings
begin

text \<open>
  The functions of Go's \<^verbatim>\<open>net\<close> package that the program calls: splitting and joining host and
  port, parsing textual addresses (\<^verbatim>\<open>netip.ParseAddr\<close> with its IPv4 and IPv6 grammars), address
  classes, and CIDR blocks. An address is its 16-byte form, as \<^verbatim>\<open>net.ParseIP\<close> returns it.
\<close>

unbundle bit_operations_syntax

section \<open>Host and port\<close>

definition SplitHostPort :: "string \<Rightarrow> (string \<times> string) option" where
  "SplitHostPort hostport =
     (case LastIndexByte hostport CHR '':'' of
        None \<Rightarrow> None
      | Some i \<Rightarrow>
          if hostport ! 0 = CHR ''['' then
            (case IndexByte hostport CHR '']'' of
               None \<Rightarrow> None
             | Some e \<Rightarrow>
                 if Suc e = length hostport \<or> Suc e \<noteq> i then None
                 else if IndexByte (drop 1 hostport) CHR ''['' \<noteq> None
                        \<or> IndexByte (drop (Suc e) hostport) CHR '']'' \<noteq> None then None
                 else Some (drop 1 (take e hostport), drop (Suc i) hostport))
          else if IndexByte (take i hostport) CHR '':'' \<noteq> None
                  \<or> IndexByte hostport CHR ''['' \<noteq> None
                  \<or> IndexByte hostport CHR '']'' \<noteq> None then None
          else Some (take i hostport, drop (Suc i) hostport))"

definition JoinHostPort :: "string \<Rightarrow> string \<Rightarrow> string" where
  "JoinHostPort host port =
     (if IndexByte host CHR '':'' \<noteq> None then ''['' @ host @ '']:'' @ port
      else host @ '':'' @ port)"

section \<open>Textual addresses\<close>

type_synonym ip = "byte list"

definition v4_field :: "string \<Rightarrow> byte option" where
  "v4_field s =
     (if s \<noteq> [] \<and> list_all is_digit s \<and> (s = ''0'' \<or> hd s \<noteq> CHR ''0'')
        \<and> length s \<le> 3 \<and> digits_value s \<le> 255
      then Some (of_int (digits_value s)) else None)"

fun those :: "'a option list \<Rightarrow> 'a list option" where
  "those [] = Some []"
| "those (x # xs) =
     (case x of None \<Rightarrow> None | Some y \<Rightarrow> map_option (\<lambda>ys. y # ys) (those xs))"

definition parseIPv4Fields :: "string \<Rightarrow> byte list option" where
  "parseIPv4Fields s =
     (let fs = Split CHR ''.'' s in if length fs = 4 then those (map v4_field fs) else None)"

definition v4InV6Prefix :: "byte list" where
  "v4InV6Prefix = replicate 10 0 @ [255, 255]"

definition parseIPv4 :: "string \<Rightarrow> ip option" where
  "parseIPv4 s = map_option (\<lambda>b. v4InV6Prefix @ b) (parseIPv4Fields s)"

definition hex_val :: "char \<Rightarrow> int option" where
  "hex_val c =
     (let n = of_char c :: int in
      if 48 \<le> n \<and> n \<le> 57 then Some (n - 48)
      else if 97 \<le> n \<and> n \<le> 102 then Some (n - 87)
      else if 65 \<le> n \<and> n \<le> 70 then Some (n - 55)
      else None)"

text \<open>The leading hexadecimal digits of \<open>s\<close>, their number and their value.\<close>

fun hex_run :: "string \<Rightarrow> nat \<Rightarrow> int \<Rightarrow> nat \<times> int" where
  "hex_run [] off acc = (off, acc)"
| "hex_run (c # s) off acc =
     (case hex_val c of None \<Rightarrow> (off, acc) | Some v \<Rightarrow> hex_run s (Suc off) (16 * acc + v))"

text \<open>
  The group loop of \<^verbatim>\<open>parseIPv6\<close>: \<open>k\<close> groups of two bytes are still missing, \<open>bs\<close> are the bytes
  parsed so far, \<open>el\<close> is the position of the ellipsis, \<open>s\<close> the rest of the input. The result is
  the state at the end of the loop.
\<close>

fun v6_loop ::
  "nat \<Rightarrow> byte list \<Rightarrow> nat option \<Rightarrow> string \<Rightarrow> (byte list \<times> nat option \<times> string) option" where
  "v6_loop 0 bs el s = Some (bs, el, s)"
| "v6_loop (Suc k) bs el s =
     (let (off, acc) = hex_run s 0 0; rest = drop off s in
      if off = 0 \<or> off > 4 then None
      else if HasPrefix rest ''.'' then
        (if (el = None \<and> length bs \<noteq> 12) \<or> length bs + 4 > 16 then None
         else map_option (\<lambda>v4. (bs @ v4, el, [])) (parseIPv4Fields s))
      else
        let bs' = bs @ [of_int (acc div 256), of_int (acc mod 256)] in
        (case rest of
           [] \<Rightarrow> Some (bs', el, [])
         | c # more \<Rightarrow>
             if c \<noteq> CHR '':'' \<or> more = [] then None
             else if hd more = CHR '':'' then
               (if el \<noteq> None then None
                else if tl more = [] then Some (bs', Some (length bs'), [])
                else v6_loop k bs' (Some (length bs')) (tl more))
             else v6_loop k bs' el more))"

definition v6_finish :: "byte list \<times> nat option \<times> string \<Rightarrow> ip option" where
  "v6_finish st =
     (case st of (bs, el, s) \<Rightarrow>
        if s \<noteq> [] then None
        else if length bs < 16 then
          map_option (\<lambda>e. take e bs @ replicate (16 - length bs) 0 @ drop e bs) el
        else if el \<noteq> None then None
        else Some bs)"

text \<open>\<^verbatim>\<open>net.ParseIP\<close> refuses every address with a zone, so the zone is not parsed further.\<close>

definition parseIPv6 :: "string \<Rightarrow> ip option" where
  "parseIPv6 s =
     (if IndexByte s CHR ''%'' \<noteq> None then None
      else if s = ''::'' then Some (replicate 16 0)
      else Option.bind
             (if HasPrefix s ''::'' then v6_loop 8 [] (Some 0) (drop 2 s) else v6_loop 8 [] None s)
             v6_finish)"

definition ParseIP :: "string \<Rightarrow> ip option" where
  "ParseIP s =
     (case List.find (\<lambda>c. c \<in> set ''.:%'') s of
        None \<Rightarrow> None
      | Some c \<Rightarrow>
          if c = CHR ''.'' then parseIPv4 s
          else if c = CHR '':'' then parseIPv6 s else None)"

section \<open>Address classes\<close>

definition To4 :: "ip \<Rightarrow> byte list option" where
  "To4 a = (if take 12 a = v4InV6Prefix then Some (drop 12 a) else None)"

definition IsLoopback :: "ip \<Rightarrow> bool" where
  "IsLoopback a =
     (case To4 a of Some b \<Rightarrow> b ! 0 = 127 | None \<Rightarrow> a = replicate 15 0 @ [1])"

definition IsPrivate :: "ip \<Rightarrow> bool" where
  "IsPrivate a =
     (case To4 a of
        Some b \<Rightarrow> b ! 0 = 10 \<or> (b ! 0 = 172 \<and> b ! 1 AND 240 = 16) \<or> (b ! 0 = 192 \<and> b ! 1 = 168)
      | None \<Rightarrow> a ! 0 AND 254 = 252)"

definition IsLinkLocalUnicast :: "ip \<Rightarrow> bool" where
  "IsLinkLocalUnicast a =
     (case To4 a of
        Some b \<Rightarrow> b ! 0 = 169 \<and> b ! 1 = 254
      | None \<Rightarrow> a ! 0 = 254 \<and> a ! 1 AND 192 = 128)"

section \<open>CIDR blocks\<close>

record ip_net =
  net_IP :: "byte list"
  net_Mask :: "byte list"

text \<open>\<^verbatim>\<open>net.CIDRMask(n, 8 * len)\<close>.\<close>

definition CIDRMask :: "nat \<Rightarrow> nat \<Rightarrow> byte list" where
  "CIDRMask n len =
     map (\<lambda>i. let k = n - 8 * i in if k \<ge> 8 then 255 else NOT (drop_bit k 255)) [0..<len]"

definition mask_bytes :: "byte list \<Rightarrow> byte list \<Rightarrow> byte list" where
  "mask_bytes m a = map2 (AND) a m"

definition ParseCIDR :: "string \<Rightarrow> ip_net option" where
  "ParseCIDR s =
     (case IndexByte s CHR ''/'' of
        None \<Rightarrow> None
      | Some i \<Rightarrow>
          let addr = take i s; m = drop (Suc i) s in
          (case ParseIP addr of
             None \<Rightarrow> None
           | Some a \<Rightarrow>
               let b = (if IndexByte addr CHR '':'' = None then drop 12 a else a) in
               if m = [] \<or> \<not> list_all is_digit m \<or> digits_value m > 8 * int (length b) then None
               else let msk = CIDRMask (nat (digits_value m)) (length b) in
                    Some \<lparr>net_IP = mask_bytes msk b, net_Mask = msk\<rparr>))"

definition net_Contains :: "ip_net \<Rightarrow> ip \<Rightarrow> bool" where
  "net_Contains n a =
     (let b = (case To4 a of Some b \<Rightarrow> b | None \<Rightarrow> a) in
      length b = length (net_IP n)
      \<and> mask_bytes (net_Mask n) (net_IP n) = mask_bytes (net_Mask n) b)"

section \<open>Facts\<close>

lemma those_length: "those xs = Some ys \<Longrightarrow> length ys = length xs"
  by (induction xs arbitrary: ys) (auto split: option.splits)

lemma parseIPv4_length: "parseIPv4 s = Some a \<Longrightarrow> length a = 16"
  by (auto simp: parseIPv4_def parseIPv4Fields_def Let_def v4InV6Prefix_def dest: those_length
      split: if_splits)

lemma v4_fields_length: "parseIPv4Fields s = Some v \<Longrightarrow> length v = 4"
  by (auto simp: parseIPv4Fields_def Let_def dest: those_length split: if_splits)

lemma v6_loop_length:
  "v6_loop k bs el s = Some (bs', el', s') \<Longrightarrow> length bs + 2 * k = 16 \<Longrightarrow> length bs' \<le> 16"
proof (induction k bs el s rule: v6_loop.induct)
  case (2 k bs el s)
  then show ?case
    by (auto simp: Let_def dest: v4_fields_length split: prod.splits if_splits list.splits)
qed auto

lemma v6_finish_length: "v6_finish (bs, el, s) = Some a \<Longrightarrow> length bs \<le> 16 \<Longrightarrow> length a = 16"
  by (auto simp: v6_finish_def split: if_splits)

lemma parseIPv6_length: "parseIPv6 s = Some a \<Longrightarrow> length a = 16"
  by (auto simp: parseIPv6_def bind_eq_Some_conv split: if_splits
      dest!: v6_loop_length dest: v6_finish_length)

lemma ParseIP_length: "ParseIP s = Some a \<Longrightarrow> length a = 16"
  by (auto simp: ParseIP_def dest: parseIPv4_length parseIPv6_length split: option.splits if_splits)

text \<open>Joining and splitting are inverse on hosts and ports without brackets.\<close>

lemma Split_Join_HostPort:
  assumes "CHR ''['' \<notin> set host \<union> set port" "CHR '']'' \<notin> set host \<union> set port"
    "CHR '':'' \<notin> set port"
  shows "SplitHostPort (JoinHostPort host port) = Some (host, port)"
proof (cases "CHR '':'' \<in> set host")
  case True
  then have jp: "JoinHostPort host port = CHR ''['' # host @ '']:'' @ port"
    by (simp add: JoinHostPort_def)
  have "LastIndexByte (CHR ''['' # host @ '']:'' @ port) CHR '':'' = Some (length host + 2)"
    using LastIndexByte_append [of "CHR '':''" port "CHR ''['' # host @ '']''"] assms(3) by simp
  moreover have "IndexByte (CHR ''['' # host @ '']:'' @ port) CHR '']'' = Some (length host + 1)"
    using IndexByte_append [of "CHR '']''" "CHR ''['' # host" "CHR '':'' # port"] assms(2) by simp
  ultimately show ?thesis using assms by (simp add: jp SplitHostPort_def)
next
  case False
  then have jp: "JoinHostPort host port = host @ CHR '':'' # port" by (simp add: JoinHostPort_def)
  have "(host @ CHR '':'' # port) ! 0 \<noteq> CHR ''[''" using assms(1) by (cases host) auto
  with False assms show ?thesis by (simp add: jp SplitHostPort_def LastIndexByte_append)
qed

end
