(* ===== verification/Go_Url.thy ===== *)
theory Go_Url
  imports Go_Net
begin

text \<open>
  The part of Go's \<^verbatim>\<open>net/url\<close> that the server uses: percent-decoding and the host that
  \<^verbatim>\<open>url.Parse\<close> finds in a URL, with the inputs it rejects.
\<close>

section \<open>Percent-decoding\<close>

fun pct_ok :: "string \<Rightarrow> bool" where
  "pct_ok [] = True"
| "pct_ok (c # s) =
     (if c = CHR ''%''
      then (case s of a # b # rest \<Rightarrow> hex_val a \<noteq> None \<and> hex_val b \<noteq> None \<and> pct_ok rest | _ \<Rightarrow> False)
      else pct_ok s)"

definition is_alnum :: "char \<Rightarrow> bool" where
  "is_alnum c = (let n = (of_char c :: nat) in (48 \<le> n \<and> n \<le> 57) \<or> (65 \<le> n \<and> n \<le> 90) \<or> (97 \<le> n \<and> n \<le> 122))"

definition is_letter :: "char \<Rightarrow> bool" where
  "is_letter c = (let n = (of_char c :: nat) in (65 \<le> n \<and> n \<le> 90) \<or> (97 \<le> n \<and> n \<le> 122))"

text \<open>The bytes below 128 that a host may hold unescaped.\<close>

definition host_char :: "char \<Rightarrow> bool" where
  "host_char c = (is_alnum c \<or> c \<in> set (''!$&()*+,;=:[]<>-_.~'' @ [CHR 0x22, CHR 0x27]))"

text \<open>\<^verbatim>\<open>unescape\<close> in host mode: only bytes of 128 and above, and the percent sign, may be escaped.\<close>

fun unescape_host :: "string \<Rightarrow> string option" where
  "unescape_host [] = Some []"
| "unescape_host (c # s) =
     (if c = CHR ''%'' then
        (case s of
           a # b # rest \<Rightarrow>
             (case (hex_val a, hex_val b) of
                (Some x, Some y) \<Rightarrow>
                  if x < 8 \<and> \<not> (a = CHR ''2'' \<and> b = CHR ''5'') then None
                  else map_option (\<lambda>t. char_of (nat (16 * x + y)) # t) (unescape_host rest)
              | _ \<Rightarrow> None)
         | _ \<Rightarrow> None)
      else if (of_char c :: nat) < 128 \<and> \<not> host_char c then None
      else map_option (\<lambda>t. c # t) (unescape_host s))"

text \<open>\<^verbatim>\<open>PathUnescape\<close>, and the variant of the request multiplexer that keeps what it cannot decode.\<close>

fun PathUnescape :: "string \<Rightarrow> string option" where
  "PathUnescape [] = Some []"
| "PathUnescape (c # s) =
     (if c = CHR ''%'' then
        (case s of
           a # b # rest \<Rightarrow>
             (case (hex_val a, hex_val b) of
                (Some x, Some y) \<Rightarrow> map_option (\<lambda>t. char_of (nat (16 * x + y)) # t) (PathUnescape rest)
              | _ \<Rightarrow> None)
         | _ \<Rightarrow> None)
      else map_option (\<lambda>t. c # t) (PathUnescape s))"

definition pathUnescape :: "string \<Rightarrow> string" where
  "pathUnescape s = (case PathUnescape s of None \<Rightarrow> s | Some t \<Rightarrow> t)"

definition upper_hex :: "nat \<Rightarrow> char" where
  "upper_hex d = (if d < 10 then char_of (48 + d) else char_of (55 + d))"

definition escape_with :: "(char \<Rightarrow> bool) \<Rightarrow> string \<Rightarrow> string" where
  "escape_with keep s = concat (map (\<lambda>c. if keep c then [c]
     else [CHR ''%'', upper_hex (of_char c div 16), upper_hex (of_char c mod 16)]) s)"

definition PathEscape :: "string \<Rightarrow> string" where
  "PathEscape = escape_with (\<lambda>c. is_alnum c \<or> c \<in> set ''-_.~$&+:=@'')"

definition escape_path :: "string \<Rightarrow> string" where
  "escape_path = escape_with (\<lambda>c. is_alnum c \<or> c \<in> set ''-_.~$&+,/:;=@'')"

section \<open>The authority\<close>

definition validOptionalPort :: "string \<Rightarrow> bool" where
  "validOptionalPort p = (case p of [] \<Rightarrow> True | c # ds \<Rightarrow> c = CHR '':'' \<and> list_all is_digit ds)"

definition parseHost :: "string \<Rightarrow> string option" where
  "parseHost host =
     (case LastIndexByte host (CHR ''['') of
        Some (Suc _) \<Rightarrow> None
      | Some 0 \<Rightarrow>
          (case LastIndexByte host (CHR '']'') of
             None \<Rightarrow> None
           | Some i \<Rightarrow>
               let colonPort = drop (i + 1) host; hostname = drop 1 (take i host);
                   (addr, zone) = (case Index hostname ''%25'' of
                                     None \<Rightarrow> (hostname, []) | Some z \<Rightarrow> (take z hostname, drop z hostname))
               in if \<not> validOptionalPort colonPort \<or> parseIPv6 addr = None then None
                  else map_option (\<lambda>z. ''['' @ addr @ z @ '']'' @ colonPort) (unescape_host zone))
      | None \<Rightarrow>
          (case IndexByte host (CHR '':'') of
             None \<Rightarrow> unescape_host host
           | Some i \<Rightarrow> if validOptionalPort (drop i host) then unescape_host host else None))"

definition validUserinfo :: "string \<Rightarrow> bool" where
  "validUserinfo s = list_all (\<lambda>c. is_alnum c \<or> c \<in> set (''-._:~!$&()*+,;=%@'' @ [CHR 0x27])) s"

definition parseAuthority :: "string \<Rightarrow> string option" where
  "parseAuthority authority =
     (case LastIndexByte authority (CHR ''@'') of
        None \<Rightarrow> parseHost authority
      | Some i \<Rightarrow>
          (case parseHost (drop (i + 1) authority) of
             None \<Rightarrow> None
           | Some h \<Rightarrow>
               if validUserinfo (take i authority) \<and> pct_ok (take i authority) then Some h else None))"

section \<open>URLs\<close>

fun scheme_len :: "nat \<Rightarrow> string \<Rightarrow> nat option option" where
  "scheme_len i [] = Some None"
| "scheme_len i (c # s) =
     (if is_letter c then scheme_len (Suc i) s
      else if is_digit c \<or> c \<in> set ''+-.'' then (if i = 0 then Some None else scheme_len (Suc i) s)
      else if c = CHR '':'' then (if i = 0 then None else Some (Some i))
      else Some None)"

definition getScheme :: "string \<Rightarrow> (string \<times> string) option" where
  "getScheme raw =
     map_option (\<lambda>r. case r of None \<Rightarrow> ([], raw) | Some i \<Rightarrow> (take i raw, drop (i + 1) raw)) (scheme_len 0 raw)"

definition Cut :: "string \<Rightarrow> char \<Rightarrow> string \<times> string" where
  "Cut s c = (case IndexByte s c of None \<Rightarrow> (s, []) | Some i \<Rightarrow> (take i s, drop (i + 1) s))"

definition is_ctl :: "char \<Rightarrow> bool" where
  "is_ctl c = (let n = (of_char c :: nat) in n < 32 \<or> n = 127)"

text \<open>The field \<^verbatim>\<open>Host\<close> of what \<^verbatim>\<open>url.Parse\<close> returns; \<open>None\<close> when it fails.\<close>

definition url_parse_rest :: "string \<Rightarrow> string \<Rightarrow> string option" where
  "url_parse_rest scheme rest0 =
     (let rest = fst (Cut rest0 (CHR ''?'')) in
      if \<not> HasPrefix rest ''/'' \<and> scheme \<noteq> [] then Some []
      else if \<not> HasPrefix rest ''/'' \<and> Contains (fst (Cut rest (CHR ''/''))) '':'' then None
      else if (scheme \<noteq> [] \<or> \<not> HasPrefix rest ''///'') \<and> HasPrefix rest ''//'' then
        let a = drop 2 rest; n = (case IndexByte a (CHR ''/'') of None \<Rightarrow> length a | Some i \<Rightarrow> i) in
        (case parseAuthority (take n a) of
           None \<Rightarrow> None
         | Some h \<Rightarrow> if pct_ok (drop n a) then Some h else None)
      else if pct_ok rest then Some [] else None)"

definition url_Parse_Host :: "string \<Rightarrow> string option" where
  "url_Parse_Host raw =
     (let (u, frag) = Cut raw (CHR ''#'') in
      if list_ex is_ctl u \<or> \<not> pct_ok frag then None
      else if u = ''*'' then Some []
      else Option.bind (getScheme u) (\<lambda>(scheme, rest). url_parse_rest scheme rest))"

text \<open>Scheme and host of a URL.\<close>

definition url_Parse :: "string \<Rightarrow> (string \<times> string) option" where
  "url_Parse raw =
     (case url_Parse_Host raw of
        None \<Rightarrow> None
      | Some h \<Rightarrow>
          (case getScheme (fst (Cut raw (CHR ''#''))) of
             None \<Rightarrow> None
           | Some (scheme, _) \<Rightarrow> Some (ToLower scheme, h)))"

section \<open>Plain origins\<close>

text \<open>
  A host name or IPv4 address, with a port when it is not the default one: what a browser puts
  into the Origin header after the scheme, apart from bracketed IPv6 addresses.
\<close>

definition plain_name :: "string \<Rightarrow> bool" where
  "plain_name h = (h \<noteq> [] \<and> list_all (\<lambda>c. is_alnum c \<or> c \<in> {CHR ''.'', CHR ''-'', CHR ''_''}) h)"

definition plain_port :: "string \<Rightarrow> bool" where
  "plain_port p = (p = [] \<or> (\<exists>ds. p = CHR '':'' # ds \<and> list_all is_digit ds))"

definition name_char :: "char \<Rightarrow> bool" where
  "name_char c = (is_alnum c \<or> c = CHR ''.'' \<or> c = CHR ''-'' \<or> c = CHR ''_'')"

definition origin_char :: "char \<Rightarrow> bool" where
  "origin_char c = (host_char c \<and> \<not> is_ctl c \<and> c \<noteq> CHR ''/'' \<and> c \<noteq> CHR ''?'' \<and> c \<noteq> CHR ''#'' \<and> c \<noteq> CHR ''@''
     \<and> c \<noteq> CHR ''['' \<and> c \<noteq> CHR '']'' \<and> c \<noteq> CHR ''%'')"

lemma name_char_origin: "name_char c \<Longrightarrow> origin_char c \<and> c \<noteq> CHR '':''"
  by (auto simp: name_char_def origin_char_def is_alnum_def is_ctl_def host_char_def Let_def)

lemma colon_origin: "origin_char (CHR '':'')"
  by (simp add: origin_char_def is_ctl_def host_char_def)

lemma digit_name_char: "is_digit c \<Longrightarrow> name_char c"
  by (auto simp: is_digit_def is_alnum_def name_char_def Let_def)

lemma plain_name_chars: "plain_name h \<Longrightarrow> c \<in> set h \<Longrightarrow> name_char c"
  by (auto simp: plain_name_def name_char_def list_all_iff)

lemma plain_port_chars: "plain_port p \<Longrightarrow> c \<in> set p \<Longrightarrow> origin_char c"
  using colon_origin digit_name_char name_char_origin by (auto simp: plain_port_def list_all_iff)

lemma plain_chars: "plain_name h \<Longrightarrow> plain_port p \<Longrightarrow> c \<in> set (h @ p) \<Longrightarrow> origin_char c"
  using plain_name_chars plain_port_chars name_char_origin by (metis Un_iff set_append)

lemma unescape_host_plain: "(\<And>c. c \<in> set s \<Longrightarrow> origin_char c) \<Longrightarrow> unescape_host s = Some s"
  by (induction s) (auto simp: origin_char_def)

lemma origin_char_not_in:
  assumes "\<And>c. c \<in> set s \<Longrightarrow> origin_char c"
  shows "CHR ''/'' \<notin> set s" "CHR ''?'' \<notin> set s" "CHR ''#'' \<notin> set s" "CHR ''@'' \<notin> set s"
    "CHR ''['' \<notin> set s" "\<not> list_ex is_ctl s"
  using assms by (auto simp: origin_char_def list_ex_iff)

lemma validOptionalPort_plain: "plain_port p \<Longrightarrow> validOptionalPort p"
  by (auto simp: plain_port_def validOptionalPort_def)

lemma parseHost_plain:
  assumes "plain_name h" "plain_port p"
  shows "parseHost (h @ p) = Some (h @ p)"
proof -
  note c = plain_chars [OF assms]
  have no: "LastIndexByte (h @ p) (CHR ''['') = None"
    using origin_char_not_in(5) [of "h @ p"] c unfolding LastIndexByte_None by blast
  have un: "unescape_host (h @ p) = Some (h @ p)" using c by (rule unescape_host_plain)
  have "CHR '':'' \<notin> set h" using plain_name_chars [OF assms(1)] name_char_origin by blast
  then consider "IndexByte (h @ p) (CHR '':'') = None" | "IndexByte (h @ p) (CHR '':'') = Some (length h)"
    using assms(2) by (auto simp: plain_port_def IndexByte_append)
  then show ?thesis
    using validOptionalPort_plain [OF assms(2)] unfolding parseHost_def no option.case
    by cases (simp_all only: option.case un, simp)
qed

text \<open>The host of a plain origin is what follows the slashes.\<close>

lemma getScheme_letters:
  assumes "scheme \<noteq> []" "list_all is_letter scheme"
  shows "getScheme (scheme @ CHR '':'' # s) = Some (scheme, s)"
proof -
  have "\<not> is_letter (CHR '':'')" "\<not> is_digit (CHR '':'')" by (simp_all add: is_letter_def is_digit_def)
  then have "list_all is_letter t \<Longrightarrow> i + length t \<noteq> 0 \<Longrightarrow> scheme_len i (t @ CHR '':'' # s) = Some (Some (i + length t))"
    for i t by (induction t arbitrary: i) auto
  from this [of scheme 0] show ?thesis using assms by (simp add: getScheme_def)
qed

lemma url_Parse_Host_plain:
  assumes "scheme \<noteq> []" "list_all is_letter scheme" "plain_name h" "plain_port p"
  shows "url_Parse_Host (scheme @ ''://'' @ h @ p) = Some (h @ p)"
proof -
  let ?hp = "h @ p" and ?u = "scheme @ ''://'' @ h @ p"
  have let_origin: "is_letter c \<Longrightarrow> origin_char c" for c
    by (auto simp: is_letter_def origin_char_def host_char_def is_alnum_def is_ctl_def Let_def)
  note hp = origin_char_not_in [of ?hp, OF plain_chars [OF assms(3,4)]]
  have sch: "CHR ''#'' \<notin> set scheme" "\<not> list_ex is_ctl scheme"
    using origin_char_not_in(3,6) [of scheme] let_origin assms(2) by (auto simp: list_all_iff)
  have u: "CHR ''#'' \<notin> set ?u" "\<not> list_ex is_ctl ?u" "?u \<noteq> ''*''"
    using hp(3,6) sch assms(1) by (auto simp: is_ctl_def Cons_eq_append_conv)
  have "IndexByte ?u (CHR ''#'') = None" "IndexByte (''//'' @ ?hp) (CHR ''?'') = None" "IndexByte ?hp (CHR ''/'') = None"
    "LastIndexByte ?hp (CHR ''@'') = None"
    using u(1) hp by (simp_all only: IndexByte_None LastIndexByte_None) auto
  note idx = this
  have "url_parse_rest scheme (''//'' @ ?hp) = Some ?hp"
    using idx parseHost_plain [OF assms(3,4)] assms(1)
    by (simp add: url_parse_rest_def Cut_def parseAuthority_def HasPrefix_def
          del: IndexByte_None LastIndexByte_None)
  moreover have "getScheme ?u = Some (scheme, ''//'' @ ?hp)"
    using getScheme_letters [OF assms(1,2), of "''//'' @ ?hp"] by simp
  moreover have "Cut ?u (CHR ''#'') = (?u, [])" using idx(1) by (simp add: Cut_def del: IndexByte_None)
  ultimately show ?thesis using u(2,3) by (simp add: url_Parse_Host_def)
qed

section \<open>Facts: decoding\<close>

lemma PathUnescape_plain: "CHR ''%'' \<notin> set s \<Longrightarrow> PathUnescape s = Some s"
  by (induction s) auto

lemma pathUnescape_plain [simp]: "CHR ''%'' \<notin> set s \<Longrightarrow> pathUnescape s = s"
  by (simp add: pathUnescape_def PathUnescape_plain)

lemma escape_with_keep: "list_all keep s \<Longrightarrow> escape_with keep s = s"
  by (induction s) (auto simp: escape_with_def)

end
