(* ===== verification/Terminal_Ws.thy ===== *)
theory Terminal_Ws
  imports Terminal_Manager Go_Http Go_Url
begin

text \<open>
  The WebSocket bridge of a container terminal (\<^verbatim>\<open>internal/terminal/handler.go\<close>). The handler runs
  beside the output pump it starts and beside everything else that uses the session manager, so
  it is a step relation: the main goroutine, the pump goroutine and the rest of the server move
  one at a time. The text of a control frame is decoded by an argument \<open>unmarshal\<close>.
\<close>

section \<open>Constants and pure parts\<close>

definition maxMessageSize :: nat where
  "maxMessageSize = 1024 * 1024"

definition maxResizeDimension :: int where
  "maxResizeDimension = 500"

definition maxReplayBytes :: nat where
  "maxReplayBytes = 64 * 1024"

definition closeCodeSessionNotFound :: nat where
  "closeCodeSessionNotFound = 4004"

definition terminalIdleTimeout :: duration where
  "terminalIdleTimeout = 30 * minute"

definition checkOrigin :: "http_request \<Rightarrow> bool" where
  "checkOrigin r =
     (let origin = header_Get (rq_Header r) ''Origin'' in
      if origin = [] then False
      else (case url_Parse_Host origin of None \<Rightarrow> False | Some h \<Rightarrow> h = rq_Host r))"

text \<open>The session identifier: the last segment of the path, one trailing slash ignored.\<close>

definition ws_session_id :: "string \<Rightarrow> string option" where
  "ws_session_id urlPath =
     (let p = TrimSuffix urlPath ''/'' in
      map_option (\<lambda>idx. drop (idx + 1) p) (LastIndexByte p (CHR ''/'')))"

definition cap_replay :: "byte list \<Rightarrow> byte list" where
  "cap_replay replay =
     (if length replay > maxReplayBytes then drop (length replay - maxReplayBytes) replay else replay)"

text \<open>What a text frame asks for: nothing, or a size with both dimensions positive and clamped.\<close>

definition resize_of :: "json option \<Rightarrow> (int \<times> int) option" where
  "resize_of doc =
     Option.bind (Option.bind doc struct_fields) (\<lambda>fs.
       case (int_field ''cols'' fs, int_field ''rows'' fs) of
         (Some cols, Some rows) \<Rightarrow>
           if cols \<le> 0 \<or> rows \<le> 0 then None
           else Some (if cols > maxResizeDimension then maxResizeDimension else cols,
                      if rows > maxResizeDimension then maxResizeDimension else rows)
       | _ \<Rightarrow> None)"

section \<open>State\<close>

datatype ws_out = OutBinary "byte list" | OutClose nat string

datatype ws_in = InBinary "byte list" | InText "byte list" | InOther

datatype ws_pc = WsStart | WsFound | WsUpgraded | WsLooked | WsSubscribed | WsReading | WsStopping | WsReturned

datatype ws_pump = PumpNone | PumpRunning | PumpDone

text \<open>
  \<open>ws_snap\<close> records the chunks the session had output when the replay was read; \<open>ws_stdin\<close> and
  \<open>ws_sizes\<close> what was passed on to the shell, \<open>ws_sent\<close> what was written to the client.
\<close>

record ws_state =
  ws_tm :: term_manager
  ws_pc :: ws_pc
  ws_ch :: "nat option"
  ws_pump :: ws_pump
  ws_stop :: bool
  ws_sent :: "ws_out list"
  ws_stdin :: "byte list list"
  ws_sizes :: "(int \<times> int) list"
  ws_replay :: "byte list"
  ws_snap :: "byte list list"

definition ws_init :: "term_manager \<Rightarrow> ws_state" where
  "ws_init m = \<lparr>ws_tm = m, ws_pc = WsStart, ws_ch = None, ws_pump = PumpNone, ws_stop = False, ws_sent = [],
     ws_stdin = [], ws_sizes = [], ws_replay = [], ws_snap = []\<rparr>"

definition session_hub :: "string \<Rightarrow> term_manager \<Rightarrow> hub option" where
  "session_hub i m = map_option ss_hub (tm_heap m i)"

section \<open>The main goroutine\<close>

definition ws_not_found :: "ws_state \<Rightarrow> ws_state" where
  "ws_not_found s = s\<lparr>ws_sent := ws_sent s @ [OutClose closeCodeSessionNotFound ''session not found''], ws_pc := WsReturned\<rparr>"

definition ws_lookup :: "string \<Rightarrow> bool \<Rightarrow> ws_state \<Rightarrow> ws_state" where
  "ws_lookup i upgradeOk s =
     (if tm_GetSession i (ws_tm s) = None
      then (if upgradeOk then ws_not_found s else s\<lparr>ws_pc := WsReturned\<rparr>)
      else s\<lparr>ws_pc := WsFound\<rparr>)"

definition ws_upgrade :: "bool \<Rightarrow> ws_state \<Rightarrow> ws_state" where
  "ws_upgrade upgradeOk s = s\<lparr>ws_pc := (if upgradeOk then WsUpgraded else WsReturned)\<rparr>"

definition ws_sub_lookup :: "string \<Rightarrow> ws_state \<Rightarrow> ws_state" where
  "ws_sub_lookup i s =
     (if tm_GetSession i (ws_tm s) = None then ws_not_found s else s\<lparr>ws_pc := WsLooked\<rparr>)"

definition ws_subscribe :: "string \<Rightarrow> ws_state \<Rightarrow> ws_state" where
  "ws_subscribe i s =
     (case tm_subscribe_at i (ws_tm s) of (c, m) \<Rightarrow> s\<lparr>ws_tm := m, ws_ch := c, ws_pc := WsSubscribed\<rparr>)"

text \<open>The deferred \<open>Unsubscribe\<close> and the close of the connection.\<close>

definition ws_leave :: "string \<Rightarrow> ws_state \<Rightarrow> ws_state" where
  "ws_leave i s =
     s\<lparr>ws_tm := (case ws_ch s of None \<Rightarrow> ws_tm s | Some c \<Rightarrow> tm_Unsubscribe i c (ws_tm s)), ws_pc := WsReturned\<rparr>"

definition ws_send_replay :: "string \<Rightarrow> bool \<Rightarrow> ws_state \<Rightarrow> ws_state" where
  "ws_send_replay i writeOk s =
     (let replay = cap_replay (case tm_ReplayBuffer i (ws_tm s) of None \<Rightarrow> [] | Some b \<Rightarrow> b);
          s1 = s\<lparr>ws_snap := (case session_hub i (ws_tm s) of Some h \<Rightarrow> hb_out h | None \<Rightarrow> [])\<rparr> in
      if replay = [] then s1\<lparr>ws_pc := WsReading, ws_pump := PumpRunning\<rparr>
      else if \<not> writeOk then ws_leave i s1
      else s1\<lparr>ws_sent := ws_sent s @ [OutBinary replay], ws_replay := replay, ws_pc := WsReading, ws_pump := PumpRunning\<rparr>)"

text \<open>A longer message makes the read fail.\<close>

fun ws_in_size :: "ws_in \<Rightarrow> nat" where
  "ws_in_size (InBinary data) = length data"
| "ws_in_size (InText data) = length data"
| "ws_in_size InOther = 0"

text \<open>One frame of the input loop; failed writes and resizes are only logged.\<close>

definition ws_dispatch ::
  "(byte list \<Rightarrow> json option) \<Rightarrow> string \<Rightarrow> execer \<Rightarrow> bool \<Rightarrow> ws_in \<Rightarrow> ws_state \<Rightarrow> ws_state" where
  "ws_dispatch unmarshal i docker writeOk msg s =
     (case msg of
        InBinary data \<Rightarrow>
          (case WriteInput writeOk i data (ws_tm s) of
             Inl _ \<Rightarrow> s
           | Inr d \<Rightarrow> s\<lparr>ws_stdin := ws_stdin s @ [d]\<rparr>)
      | InText data \<Rightarrow>
          (case resize_of (unmarshal data) of
             None \<Rightarrow> s
           | Some (cols, rows) \<Rightarrow>
               (case tm_Resize docker i cols rows (ws_tm s) of
                  Inl _ \<Rightarrow> s
                | Inr (_, z) \<Rightarrow> s\<lparr>ws_sizes := ws_sizes s @ [(xz_Width z, xz_Height z)]\<rparr>))
      | InOther \<Rightarrow> s)"

section \<open>The output pump\<close>

definition ws_pump_step :: "string \<Rightarrow> nat \<Rightarrow> hub \<Rightarrow> bool \<Rightarrow> ws_state \<Rightarrow> ws_state" where
  "ws_pump_step i c h writeOk s =
     (let ch = hb_chans h ! c in
      case sc_queue ch of
        d # _ \<Rightarrow>
          let s1 = s\<lparr>ws_tm := upd_hub i (hub_recv c h) (ws_tm s)\<rparr> in
          if writeOk then s1\<lparr>ws_sent := ws_sent s @ [OutBinary d]\<rparr> else s1\<lparr>ws_pump := PumpDone\<rparr>
      | [] \<Rightarrow> if sc_closed ch then s\<lparr>ws_pump := PumpDone\<rparr> else s)"

section \<open>Interleavings\<close>

text \<open>
  \<open>rest\<close> is anything else the server does with the manager: nobody but the handler reads its
  channel.
\<close>

inductive ws_step :: "(byte list \<Rightarrow> json option) \<Rightarrow> string \<Rightarrow> http_request \<Rightarrow> ws_state \<Rightarrow> ws_state \<Rightarrow> bool"
  for unmarshal i r where
  lookup: "ws_pc s = WsStart \<Longrightarrow> (up \<longrightarrow> checkOrigin r) \<Longrightarrow> ws_step unmarshal i r s (ws_lookup i up s)"
| upgrade: "ws_pc s = WsFound \<Longrightarrow> (up \<longrightarrow> checkOrigin r) \<Longrightarrow> ws_step unmarshal i r s (ws_upgrade up s)"
| sub_lookup: "ws_pc s = WsUpgraded \<Longrightarrow> ws_step unmarshal i r s (ws_sub_lookup i s)"
| subscribe: "ws_pc s = WsLooked \<Longrightarrow> ws_step unmarshal i r s (ws_subscribe i s)"
| replay: "ws_pc s = WsSubscribed \<Longrightarrow> ws_step unmarshal i r s (ws_send_replay i ok s)"
| message: "ws_pc s = WsReading \<Longrightarrow> ws_in_size msg \<le> maxMessageSize \<Longrightarrow>
    ws_step unmarshal i r s (ws_dispatch unmarshal i docker writeOk msg s)"
| read_error: "ws_pc s = WsReading \<Longrightarrow> ws_step unmarshal i r s (s\<lparr>ws_stop := True, ws_pc := WsStopping\<rparr>)"
| joined: "ws_pc s = WsStopping \<Longrightarrow> ws_pump s = PumpDone \<Longrightarrow> ws_step unmarshal i r s (ws_leave i s)"
| pump: "ws_pump s = PumpRunning \<Longrightarrow> ws_ch s = Some c \<Longrightarrow> session_hub i (ws_tm s) = Some h \<Longrightarrow>
    ws_step unmarshal i r s (ws_pump_step i c h ok s)"
| pump_stop: "ws_pump s = PumpRunning \<Longrightarrow> ws_stop s \<Longrightarrow> ws_step unmarshal i r s (s\<lparr>ws_pump := PumpDone\<rparr>)"
| rest: "tm_fresh e (ws_tm s) \<Longrightarrow> (\<forall>c. ws_ch s = Some c \<longrightarrow> e \<noteq> TmRecv i c) \<Longrightarrow> tm_step e (ws_tm s) = Some m \<Longrightarrow>
    ws_step unmarshal i r s (s\<lparr>ws_tm := m\<rparr>)"

inductive ws_reachable :: "(byte list \<Rightarrow> json option) \<Rightarrow> string \<Rightarrow> http_request \<Rightarrow> nat \<Rightarrow> ws_state \<Rightarrow> bool"
  for unmarshal i r n where
  init: "tm_reachable n m \<Longrightarrow> ws_reachable unmarshal i r n (ws_init m)"
| step: "ws_reachable unmarshal i r n s \<Longrightarrow> ws_step unmarshal i r s s' \<Longrightarrow> ws_reachable unmarshal i r n s'"


section \<open>What the other users of a session leave alone\<close>

text \<open>
  A relation between the states of one session's hub that holds for every single operation on the hub
  - those that are \<open>quiet\<close> - holds for everything that can be done to the manager.
\<close>

definition heap_rel :: "(hub \<Rightarrow> hub \<Rightarrow> bool) \<Rightarrow> string \<Rightarrow> term_manager \<Rightarrow> term_manager \<Rightarrow> bool" where
  "heap_rel R i m m' \<longleftrightarrow> (\<forall>s. tm_heap m i = Some s \<longrightarrow> (\<exists>s'. tm_heap m' i = Some s'
     \<and> R (ss_hub s) (ss_hub s') \<and> (ss_done s \<longrightarrow> ss_done s')))"

locale hub_relation =
  fixes R :: "hub \<Rightarrow> hub \<Rightarrow> bool" and quiet :: "hub_event \<Rightarrow> bool"
  assumes refl: "R h h"
    and trans: "R h1 h2 \<Longrightarrow> R h2 h3 \<Longrightarrow> R h1 h3"
    and one: "quiet e \<Longrightarrow> hub_step e h = Some h' \<Longrightarrow> R h h'"
    and others: "quiet HSub" "quiet (HUnsub c)" "quiet (HOutput data)" "quiet HClose"
begin

lemma heap_refl: "heap_rel R i m m"
  by (simp add: heap_rel_def refl)

lemma heap_trans: "heap_rel R i m1 m2 \<Longrightarrow> heap_rel R i m2 m3 \<Longrightarrow> heap_rel R i m1 m3"
  unfolding heap_rel_def by (meson trans)

lemma heap_upd_hub:
  "(\<And>s. i = j \<Longrightarrow> tm_heap m i = Some s \<Longrightarrow> R (ss_hub s) h) \<Longrightarrow> heap_rel R i m (upd_hub j h m)"
  by (auto simp: heap_rel_def upd_hub_def refl)

lemma heap_event:
  "tm_heap m j = Some s \<Longrightarrow> hub_step e (ss_hub s) = Some h \<Longrightarrow> (i = j \<Longrightarrow> quiet e) \<Longrightarrow> heap_rel R i m (upd_hub j h m)"
  by (rule heap_upd_hub) (auto intro: one)

lemma heap_CloseSession: "CloseSession j m = Some m' \<Longrightarrow> heap_rel R i m m'"
  using one [OF others(4)]
  by (auto simp: CloseSession_def tear_down_def tm_deregister_def heap_rel_def refl split: option.splits if_splits)

lemma heap_close_each: "close_each ids m = Some m' \<Longrightarrow> heap_rel R i m m'"
  by (induction ids m rule: close_each.induct)
    (auto simp: bind_eq_Some_conv heap_refl intro: heap_trans heap_CloseSession)

lemma heap_pump:
  assumes "pump_round j data err m = Some m'"
  shows "heap_rel R i m m'"
proof -
  obtain m1 where m1: "(case tm_heap m j of None \<Rightarrow> Some m
        | Some s \<Rightarrow> if data = [] then Some m else map_option (\<lambda>h. upd_hub j h m) (hub_output data (ss_hub s))) = Some m1"
      "(if err then CloseSession j m1 else Some m1) = Some m'"
    using assms by (auto simp: pump_round_def bind_eq_Some_conv)
  from m1(1) have "heap_rel R i m m1"
    using others(3) by (auto simp: heap_refl split: option.splits if_splits intro: heap_event [where e = "HOutput data"])
  moreover from m1(2) have "heap_rel R i m1 m'"
    by (auto simp: heap_refl split: if_splits intro: heap_CloseSession)
  ultimately show ?thesis by (rule heap_trans)
qed

lemma heap_step:
  assumes "tm_step e m = Some m'" "tm_fresh e m" "\<And>c. e = TmRecv i c \<Longrightarrow> quiet (HRecv c)"
  shows "heap_rel R i m m'"
proof (cases e)
  case (TmCreate docker uuid now projectID containerID)
  then show ?thesis using assms
    by (auto simp: CreateSession_def tm_register_def heap_rel_def refl split: option.splits if_splits)
next
  case (TmSubscribeAt j)
  then show ?thesis using assms others(1)
    by (auto simp: tm_subscribe_at_def heap_refl split: option.splits intro!: heap_event [where e = HSub])
next
  case (TmUnsubscribe j d)
  then show ?thesis using assms others(2)
    by (auto simp: tm_Unsubscribe_def tm_GetSession_def heap_refl split: option.splits if_splits
        intro!: heap_event [where e = "HUnsub d"])
next
  case (TmRecv j d)
  then show ?thesis using assms
    by (auto simp: heap_refl split: option.splits intro!: heap_event [where e = "HRecv d"])
qed (use assms in \<open>auto simp: CloseProjectSessions_def tm_CloseAll_def
      intro: heap_pump heap_CloseSession heap_close_each\<close>)

end

definition hub_keeps :: "nat \<Rightarrow> hub \<Rightarrow> hub \<Rightarrow> bool" where
  "hub_keeps c h h' \<longleftrightarrow> prefix (hb_out h) (hb_out h')
     \<and> (c < length (hb_chans h) \<longrightarrow> c < length (hb_chans h')
          \<and> sc_got (hb_chans h' ! c) = sc_got (hb_chans h ! c) \<and> sc_since (hb_chans h' ! c) = sc_since (hb_chans h ! c))"

lemma hub_keeps_refl [simp]: "hub_keeps c h h"
  by (simp add: hub_keeps_def)

lemma hub_keeps_trans: "hub_keeps c h1 h2 \<Longrightarrow> hub_keeps c h2 h3 \<Longrightarrow> hub_keeps c h1 h3"
  by (auto simp: hub_keeps_def)

lemma hub_keeps_close_chan: "close_chan d h = Some h' \<Longrightarrow> hub_keeps c h h'"
  by (auto simp: hub_keeps_def close_chan_def nth_update_if split: if_splits)

lemma hub_keeps_subs [simp]: "hub_keeps c h (h'\<lparr>hb_subs := cs\<rparr>) = hub_keeps c h h'"
  by (simp add: hub_keeps_def)

lemma hub_keeps_send: "send_or_evict data d h = Some h' \<Longrightarrow> hub_keeps c h h'"
  by (auto simp: send_or_evict_def Let_def split: if_splits dest: hub_keeps_close_chan)
    (auto simp: hub_keeps_def nth_update_if)

lemma hub_keeps_broadcast: "broadcast data cs h = Some h' \<Longrightarrow> hub_keeps c h h'"
  by (induction data cs h rule: broadcast.induct)
    (auto simp: bind_eq_Some_conv intro: hub_keeps_trans hub_keeps_send)

lemma hub_keeps_output:
  assumes "hub_output data h = Some h'"
  shows "hub_keeps c h h'"
proof (rule hub_keeps_trans)
  show "hub_keeps c h (h\<lparr>hb_buf := rb_Write (hb_buf h) data, hb_out := hb_out h @ [data]\<rparr>)"
    by (simp add: hub_keeps_def)
  show "hub_keeps c (h\<lparr>hb_buf := rb_Write (hb_buf h) data, hb_out := hb_out h @ [data]\<rparr>) h'"
    using assms by (auto simp: hub_output_def intro: hub_keeps_broadcast)
qed

lemma hub_keeps_close_subs: "close_subs cs h = Some h' \<Longrightarrow> hub_keeps c h h'"
  by (induction cs h rule: close_subs.induct)
    (auto simp: bind_eq_Some_conv intro: hub_keeps_trans hub_keeps_close_chan)

lemma hub_keeps_Close: "hub_Close h = Some h' \<Longrightarrow> hub_keeps c h h'"
  by (auto simp: hub_Close_def dest: hub_keeps_close_subs)

lemma hub_keeps_Subscribe [simp]: "hub_keeps c h (snd (hub_Subscribe h))"
  by (simp add: hub_keeps_def hub_Subscribe_def nth_append)

lemma hub_keeps_Unsubscribe [simp]: "hub_keeps c h (hub_Unsubscribe d h)"
  by (simp add: hub_Unsubscribe_def)

lemma hub_keeps_recv: "d \<noteq> c \<Longrightarrow> hub_keeps c h (hub_recv d h)"
  by (auto simp: hub_keeps_def hub_recv_def split: list.splits)

lemma hub_keeps_step: "e \<noteq> HRecv c \<Longrightarrow> hub_step e h = Some h' \<Longrightarrow> hub_keeps c h h'"
  by (cases e) (auto intro: hub_keeps_output hub_keeps_recv hub_keeps_Close)

interpretation keeps: hub_relation "hub_keeps c" "\<lambda>e. e \<noteq> HRecv c" for c
  by unfold_locales (auto intro: hub_keeps_trans hub_keeps_step)

text \<open>A channel that is no longer a subscriber does not become one again.\<close>

definition hub_drops :: "nat \<Rightarrow> hub \<Rightarrow> hub \<Rightarrow> bool" where
  "hub_drops c h h' \<longleftrightarrow> (c < length (hb_chans h) \<and> c \<notin> set (hb_subs h) \<longrightarrow> c < length (hb_chans h') \<and> c \<notin> set (hb_subs h'))"

lemma close_chan_drops: "close_chan d h = Some h' \<Longrightarrow> length (hb_chans h') = length (hb_chans h) \<and> hb_subs h' = hb_subs h"
  by (auto simp: close_chan_def split: if_splits)

lemma broadcast_drops: "broadcast data cs h = Some h' \<Longrightarrow> hub_drops c h h'"
proof (induction data cs h rule: broadcast.induct)
  case (2 data d cs h)
  then obtain h1 where h1: "send_or_evict data d h = Some h1" "broadcast data cs h1 = Some h'" by (auto simp: bind_eq_Some_conv)
  from h1(1) have "hub_drops c h h1"
    by (auto simp: hub_drops_def send_or_evict_def Let_def split: if_splits dest: close_chan_drops)
  then show ?case using 2(1) [OF h1] by (simp add: hub_drops_def)
qed (simp add: hub_drops_def)

lemma close_subs_drops: "close_subs cs h = Some h' \<Longrightarrow> length (hb_chans h') = length (hb_chans h)"
  by (induction cs h rule: close_subs.induct) (auto simp: bind_eq_Some_conv dest: close_chan_drops)

lemma hub_drops_step: "hub_step e h = Some h' \<Longrightarrow> hub_drops c h h'"
proof (cases e)
  case (HOutput data)
  assume "hub_step e h = Some h'"
  then have "hub_drops c (h\<lparr>hb_buf := rb_Write (hb_buf h) data, hb_out := hb_out h @ [data]\<rparr>) h'"
    using HOutput broadcast_drops by (simp add: hub_output_def)
  then show ?thesis by (simp add: hub_drops_def)
next
  case HClose
  assume "hub_step e h = Some h'"
  then show ?thesis using HClose by (auto simp: hub_drops_def hub_Close_def dest: close_subs_drops)
qed (auto simp: hub_drops_def hub_Subscribe_def hub_Unsubscribe_def hub_recv_def split: list.splits if_splits)

interpretation drops: hub_relation "hub_drops c" "\<lambda>_. True" for c
  by unfold_locales (auto simp: hub_drops_def dest: hub_drops_step [unfolded hub_drops_def])

section \<open>The stream the client sees\<close>

definition replay_frames :: "ws_state \<Rightarrow> ws_out list" where
  "replay_frames s = (if ws_replay s = [] then [] else [OutBinary (ws_replay s)])"

text \<open>
  Before the pump starts nothing has been sent on the subscription. Afterwards the frames are the
  replay and what the pump took from the channel, all of it unless the last write failed.
\<close>

definition ws_sub_ok :: "string \<Rightarrow> nat \<Rightarrow> nat \<Rightarrow> session \<Rightarrow> ws_state \<Rightarrow> bool" where
  "ws_sub_ok i n c ss s \<longleftrightarrow>
     (let h = ss_hub ss; ch = hb_chans h ! c in
      c < length (hb_chans h) \<and>
      (if ws_pump s = PumpNone
       then sc_got ch = [] \<and> sc_since ch \<le> length (hb_out h) \<and> ws_sent s = [] \<and> ws_replay s = []
       else (\<exists>chunks. ws_sent s = replay_frames s @ map OutBinary chunks \<and> prefix chunks (sc_got ch)
               \<and> (chunks = sc_got ch \<or> ws_pump s = PumpDone))
         \<and> sc_since ch \<le> length (ws_snap s) \<and> prefix (ws_snap s) (hb_out h)
         \<and> (ws_replay s = lastn (min maxReplayBytes n) (concat (ws_snap s)) \<or> ws_replay s = [] \<and> ss_done ss)))"

definition ws_stream_ok :: "string \<Rightarrow> nat \<Rightarrow> ws_state \<Rightarrow> bool" where
  "ws_stream_ok i n s \<longleftrightarrow>
     (case ws_ch s of
        None \<Rightarrow> ws_pump s = PumpNone \<and> (ws_sent s = [] \<or> ws_sent s = [OutClose closeCodeSessionNotFound ''session not found''])
      | Some c \<Rightarrow> (\<exists>ss. tm_heap (ws_tm s) i = Some ss \<and> ws_sub_ok i n c ss s))"

definition ws_pc_ok :: "string \<Rightarrow> http_request \<Rightarrow> ws_state \<Rightarrow> bool" where
  "ws_pc_ok i r s \<longleftrightarrow>
     (case ws_pc s of
        WsReturned \<Rightarrow> ws_pump s \<noteq> PumpRunning \<and> (ws_sent s \<noteq> [] \<longrightarrow> checkOrigin r)
      | WsReading \<Rightarrow> checkOrigin r \<and> ws_ch s \<noteq> None
      | WsStopping \<Rightarrow> checkOrigin r \<and> ws_ch s \<noteq> None
      | WsSubscribed \<Rightarrow> checkOrigin r \<and> ws_ch s \<noteq> None \<and> ws_pump s = PumpNone
      | WsLooked \<Rightarrow> checkOrigin r \<and> ws_ch s = None \<and> ws_sent s = [] \<and> ws_replay s = [] \<and> tm_heap (ws_tm s) i \<noteq> None
      | WsUpgraded \<Rightarrow> checkOrigin r \<and> ws_ch s = None \<and> ws_sent s = [] \<and> ws_replay s = []
      | _ \<Rightarrow> ws_ch s = None \<and> ws_sent s = [] \<and> ws_replay s = [])"

definition ws_ok :: "string \<Rightarrow> http_request \<Rightarrow> nat \<Rightarrow> ws_state \<Rightarrow> bool" where
  "ws_ok i r n s \<longleftrightarrow> tm_reachable n (ws_tm s) \<and> ws_pc_ok i r s \<and> ws_stream_ok i n s
     \<and> (\<forall>p \<in> set (ws_sizes s). fst p \<in> {1..maxResizeDimension} \<and> snd p \<in> {1..maxResizeDimension})"

lemma ws_sub_ok_keeps:
  assumes "ws_sub_ok i n c ss s" "hub_keeps c (ss_hub ss) (ss_hub ss')" "ss_done ss \<longrightarrow> ss_done ss'"
    "ws_pump s' = ws_pump s" "ws_sent s' = ws_sent s" "ws_replay s' = ws_replay s" "ws_snap s' = ws_snap s"
  shows "ws_sub_ok i n c ss' s'"
  using assms prefix_length_le [of "hb_out (ss_hub ss)" "hb_out (ss_hub ss')"]
  unfolding ws_sub_ok_def hub_keeps_def Let_def replay_frames_def
  by (auto simp: if_splits)

text \<open>Every session's replay buffer holds the tail of its whole output.\<close>

definition bufs_ok :: "nat \<Rightarrow> term_manager \<Rightarrow> bool" where
  "bufs_ok n m \<longleftrightarrow> tm_bufSize m = n \<and> (\<forall>i s. tm_heap m i = Some s \<longrightarrow> buf_ok n (ss_hub s))"

lemma bufs_ok_upd_hub: "bufs_ok n m \<Longrightarrow> (\<And>s. tm_heap m i = Some s \<Longrightarrow> buf_ok n h) \<Longrightarrow> bufs_ok n (upd_hub i h m)"
  by (auto simp: bufs_ok_def upd_hub_def split: if_splits)

lemma bufs_ok_CloseSession: "CloseSession i m = Some m' \<Longrightarrow> bufs_ok n m \<Longrightarrow> bufs_ok n m'"
  using buf_ok_step [of HClose]
  by (auto simp: CloseSession_def tear_down_def tm_deregister_def bufs_ok_def split: option.splits if_splits)

lemma bufs_ok_close_each: "close_each ids m = Some m' \<Longrightarrow> bufs_ok n m \<Longrightarrow> bufs_ok n m'"
  by (induction ids m rule: close_each.induct) (auto simp: bind_eq_Some_conv dest: bufs_ok_CloseSession)

lemma bufs_ok_pump:
  assumes "pump_round i data err m = Some m'" "bufs_ok n m"
  shows "bufs_ok n m'"
proof -
  obtain m1 where m1: "(case tm_heap m i of None \<Rightarrow> Some m
        | Some s \<Rightarrow> if data = [] then Some m else map_option (\<lambda>h. upd_hub i h m) (hub_output data (ss_hub s))) = Some m1"
      "(if err then CloseSession i m1 else Some m1) = Some m'"
    using assms(1) by (auto simp: pump_round_def bind_eq_Some_conv)
  from m1(1) have "bufs_ok n m1"
    using assms(2) buf_ok_step [of "HOutput data"]
    by (auto split: option.splits if_splits intro!: bufs_ok_upd_hub) (auto simp: bufs_ok_def)
  then show ?thesis using m1(2) by (auto split: if_splits dest: bufs_ok_CloseSession)
qed

lemma bufs_ok_step: "tm_step e m = Some m' \<Longrightarrow> bufs_ok n m \<Longrightarrow> bufs_ok n m'"
proof (cases e)
  case (TmCreate docker uuid now projectID containerID)
  assume "tm_step e m = Some m'" "bufs_ok n m"
  with TmCreate show ?thesis
    by (auto simp: CreateSession_def tm_register_def new_session_def bufs_ok_def buf_ok_def new_hub_def
        split: option.splits if_splits)
next
  case (TmSubscribeAt i)
  assume "tm_step e m = Some m'" "bufs_ok n m"
  with TmSubscribeAt show ?thesis using buf_ok_step [of HSub]
    by (auto simp: tm_subscribe_at_def split: option.splits intro!: bufs_ok_upd_hub) (auto simp: bufs_ok_def)
next
  case (TmUnsubscribe i c)
  assume "tm_step e m = Some m'" "bufs_ok n m"
  with TmUnsubscribe show ?thesis using buf_ok_step [of "HUnsub c"]
    by (auto simp: tm_Unsubscribe_def tm_GetSession_def split: option.splits if_splits intro!: bufs_ok_upd_hub)
      (auto simp: bufs_ok_def)
next
  case (TmRecv i c)
  assume "tm_step e m = Some m'" "bufs_ok n m"
  with TmRecv show ?thesis using buf_ok_step [of "HRecv c"]
    by (auto split: option.splits intro!: bufs_ok_upd_hub) (auto simp: bufs_ok_def)
qed (auto simp: CloseProjectSessions_def tm_CloseAll_def
      dest: bufs_ok_pump bufs_ok_CloseSession bufs_ok_close_each)

lemma tm_reachable_bufs: "tm_reachable n m \<Longrightarrow> bufs_ok n m"
  by (induction rule: tm_reachable.induct) (auto simp: bufs_ok_def term_NewManager_def dest: bufs_ok_step)

lemma reachable_replay:
  "tm_reachable n m \<Longrightarrow> tm_heap m i = Some ss \<Longrightarrow> rb_Bytes (hb_buf (ss_hub ss)) = lastn n (concat (hb_out (ss_hub ss)))"
  using tm_reachable_bufs by (intro buf_ok_replay) (auto simp: bufs_ok_def)

section \<open>The invariant is kept\<close>

lemma cap_replay_lastn: "cap_replay b = lastn maxReplayBytes b"
  by (simp add: cap_replay_def lastn_def)

lemma lastn_lastn: "lastn a (lastn b xs) = lastn (min a b) xs"
proof -
  have "length xs - b + (length xs - (length xs - b) - a) = length xs - min a b" by arith
  then show ?thesis by (simp add: lastn_def add.commute)
qed

lemma resize_of_bounds:
  "resize_of doc = Some (c, r) \<Longrightarrow> c \<in> {1..maxResizeDimension} \<and> r \<in> {1..maxResizeDimension}"
proof -
  assume "resize_of doc = Some (c, r)"
  then obtain fs where "(case (int_field ''cols'' fs, int_field ''rows'' fs) of
         (Some cols, Some rows) \<Rightarrow>
           if cols \<le> 0 \<or> rows \<le> 0 then None
           else Some (if cols > maxResizeDimension then maxResizeDimension else cols,
                      if rows > maxResizeDimension then maxResizeDimension else rows)
       | _ \<Rightarrow> None) = Some (c, r)"
    unfolding resize_of_def bind_eq_Some_conv by blast
  then show ?thesis
    by (cases "int_field ''cols'' fs"; cases "int_field ''rows'' fs")
      (auto simp: maxResizeDimension_def split: if_split_asm)
qed

lemma ws_stream_ok_sub:
  "ws_stream_ok i n s \<Longrightarrow> ws_ch s = Some c \<Longrightarrow> \<exists>ss. tm_heap (ws_tm s) i = Some ss \<and> ws_sub_ok i n c ss s"
  by (simp add: ws_stream_ok_def)

lemma ws_stream_ok_tm_step:
  assumes "ws_stream_ok i n s" "tm_fresh e (ws_tm s)" "\<And>c. ws_ch s = Some c \<Longrightarrow> e \<noteq> TmRecv i c"
    "tm_step e (ws_tm s) = Some m"
  shows "ws_stream_ok i n (s\<lparr>ws_tm := m\<rparr>)"
proof (cases "ws_ch s")
  case None
  then show ?thesis using assms(1) by (simp add: ws_stream_ok_def)
next
  case (Some c)
  obtain ss where ss: "tm_heap (ws_tm s) i = Some ss" "ws_sub_ok i n c ss s"
    using ws_stream_ok_sub [OF assms(1) Some] by blast
  obtain ss' where ss': "tm_heap m i = Some ss'" "hub_keeps c (ss_hub ss) (ss_hub ss')" "ss_done ss \<longrightarrow> ss_done ss'"
    using keeps.heap_step [OF assms(4,2), of i c] assms(3) [OF Some] ss(1) unfolding heap_rel_def by blast
  have "ws_sub_ok i n c ss' (s\<lparr>ws_tm := m\<rparr>)" by (rule ws_sub_ok_keeps [OF ss(2) ss'(2,3)]) simp_all
  then show ?thesis using Some ss'(1) by (simp add: ws_stream_ok_def)
qed

lemma heap_stays:
  assumes "tm_step e m = Some m'" "tm_fresh e m" "tm_heap m i \<noteq> None"
  shows "tm_heap m' i \<noteq> None"
proof -
  have "heap_rel (hub_drops 0) i m m'" by (rule drops.heap_step [OF assms(1,2)]) simp
  then show ?thesis using assms(3) unfolding heap_rel_def by blast
qed

lemma ws_ok_tm_step:
  assumes "ws_ok i r n s" "tm_fresh e (ws_tm s)" "\<And>c. ws_ch s = Some c \<Longrightarrow> e \<noteq> TmRecv i c"
    "tm_step e (ws_tm s) = Some m"
  shows "ws_ok i r n (s\<lparr>ws_tm := m\<rparr>)"
proof -
  have "tm_reachable n m" using assms(1,2,4) by (auto simp: ws_ok_def intro: tm_reachable.step)
  moreover have "ws_stream_ok i n (s\<lparr>ws_tm := m\<rparr>)"
    using ws_stream_ok_tm_step [OF _ assms(2,3,4)] assms(1) by (simp add: ws_ok_def)
  moreover have "ws_pc_ok i r (s\<lparr>ws_tm := m\<rparr>)"
    using assms(1) heap_stays [OF assms(4,2), of i] by (simp add: ws_ok_def ws_pc_ok_def split: ws_pc.splits)
  ultimately show ?thesis using assms(1) by (simp add: ws_ok_def)
qed

lemma ws_ok_subscribe:
  assumes "ws_ok i r n s" "ws_pc s = WsLooked"
  shows "ws_ok i r n (ws_subscribe i s)"
proof -
  have pc: "checkOrigin r" "ws_ch s = None" "ws_sent s = []" "ws_replay s = []" "tm_heap (ws_tm s) i \<noteq> None"
    "ws_pump s = PumpNone"
    using assms by (auto simp: ws_ok_def ws_pc_ok_def ws_stream_ok_def)
  then obtain ss where ss: "tm_heap (ws_tm s) i = Some ss" by blast
  have r: "tm_reachable n (upd_hub i (snd (hub_Subscribe (ss_hub ss))) (ws_tm s))"
    using assms(1) tm_reachable.step [of n "ws_tm s" "TmSubscribeAt i"] ss
    by (simp add: ws_ok_def tm_subscribe_at_def)
  moreover have eq: "ws_subscribe i s = s\<lparr>ws_tm := upd_hub i (snd (hub_Subscribe (ss_hub ss))) (ws_tm s),
      ws_ch := Some (length (hb_chans (ss_hub ss))), ws_pc := WsSubscribed\<rparr>"
    using ss by (simp add: ws_subscribe_def tm_subscribe_at_def hub_Subscribe_def)
  ultimately show ?thesis using assms(1) ss pc
    by (simp add: ws_ok_def ws_pc_ok_def ws_stream_ok_def ws_sub_ok_def upd_hub_def hub_Subscribe_def)
qed

lemma ws_stream_ok_pc:
  "ws_stream_ok i n (s\<lparr>ws_pc := pc\<rparr>) = ws_stream_ok i n s" "ws_stream_ok i n (s\<lparr>ws_stop := b\<rparr>) = ws_stream_ok i n s"
  "ws_stream_ok i n (s\<lparr>ws_stdin := xs\<rparr>) = ws_stream_ok i n s" "ws_stream_ok i n (s\<lparr>ws_sizes := ys\<rparr>) = ws_stream_ok i n s"
  by (cases "ws_ch s"; simp add: ws_stream_ok_def ws_sub_ok_def replay_frames_def Let_def)+

lemma ws_ok_return: "ws_ok i r n s \<Longrightarrow> ws_pump s \<noteq> PumpRunning \<Longrightarrow> ws_ok i r n (s\<lparr>ws_pc := WsReturned\<rparr>)"
  unfolding ws_ok_def ws_pc_ok_def ws_stream_ok_pc by (cases "ws_pc s") simp_all

lemma ws_ok_leave:
  assumes "ws_ok i r n s" "ws_pump s \<noteq> PumpRunning"
  shows "ws_ok i r n (ws_leave i s)"
proof (cases "ws_ch s")
  case None
  then have "ws_leave i s = s\<lparr>ws_pc := WsReturned\<rparr>" by (simp add: ws_leave_def)
  then show ?thesis using ws_ok_return [OF assms] by simp
next
  case (Some c)
  have "ws_ok i r n (s\<lparr>ws_tm := tm_Unsubscribe i c (ws_tm s)\<rparr>)"
    using ws_ok_tm_step [OF assms(1), of "TmUnsubscribe i c"] by simp
  from ws_ok_return [OF this] show ?thesis using Some assms(2) by (simp add: ws_leave_def)
qed

lemma ws_stream_ok_snap: "ws_pump s = PumpNone \<Longrightarrow> ws_stream_ok i n (s\<lparr>ws_snap := x\<rparr>) = ws_stream_ok i n s"
  by (cases "ws_ch s"; simp add: ws_stream_ok_def ws_sub_ok_def Let_def)

lemma ws_ok_snap: "ws_ok i r n s \<Longrightarrow> ws_pump s = PumpNone \<Longrightarrow> ws_ok i r n (s\<lparr>ws_snap := x\<rparr>)"
  unfolding ws_ok_def ws_pc_ok_def by (cases "ws_pc s") (simp_all add: ws_stream_ok_snap)

lemma ws_ok_sub:
  assumes "ws_ok i r n s" "ws_ch s = Some c"
  obtains ss where "tm_heap (ws_tm s) i = Some ss" "ws_sub_ok i n c ss s"
  using assms ws_stream_ok_sub unfolding ws_ok_def by blast

text \<open>The state after the replay has been sent, and its invariant.\<close>

definition ws_replayed :: "byte list \<Rightarrow> byte list list \<Rightarrow> ws_state \<Rightarrow> ws_state" where
  "ws_replayed replay out s =
     s\<lparr>ws_snap := out, ws_sent := (if replay = [] then [] else [OutBinary replay]), ws_replay := replay,
       ws_pc := WsReading, ws_pump := PumpRunning\<rparr>"

lemma ws_ok_replayed:
  assumes "ws_ok i r n s" "ws_pc s = WsSubscribed" "tm_heap (ws_tm s) i = Some ss"
    "replay = lastn (min maxReplayBytes n) (concat (hb_out (ss_hub ss))) \<or> replay = [] \<and> ss_done ss"
  shows "ws_ok i r n (ws_replayed replay (hb_out (ss_hub ss)) s)"
proof -
  have pc: "checkOrigin r" "ws_ch s \<noteq> None" "ws_pump s = PumpNone"
    using assms by (simp_all add: ws_ok_def ws_pc_ok_def)
  then obtain c where c: "ws_ch s = Some c" by blast
  have "ws_sub_ok i n c ss s" using ws_ok_sub [OF assms(1) c] assms(3) by (metis option.inject)
  then have "ws_sub_ok i n c ss (ws_replayed replay (hb_out (ss_hub ss)) s)"
    using pc(3) assms(4) by (simp add: ws_sub_ok_def ws_replayed_def replay_frames_def Let_def)
  then show ?thesis using assms(1,3) pc c
    by (simp add: ws_ok_def ws_pc_ok_def ws_stream_ok_def ws_replayed_def)
qed

lemma replay_value:
  assumes "tm_reachable n m" "tm_heap m i = Some ss"
  defines "b \<equiv> cap_replay (case tm_ReplayBuffer i m of None \<Rightarrow> [] | Some b \<Rightarrow> b)"
  shows "b = lastn (min maxReplayBytes n) (concat (hb_out (ss_hub ss))) \<or> b = [] \<and> ss_done ss"
proof (cases "i \<in> set (tm_sessions m)")
  case True
  then show ?thesis using assms(2) reachable_replay [OF assms(1,2)]
    by (simp add: b_def tm_ReplayBuffer_def tm_GetSession_def cap_replay_lastn lastn_lastn)
next
  case False
  then have "ss_done ss" using tm_reachable_ok [OF assms(1)] assms(2) unfolding tm_ok_def by blast
  then show ?thesis using False by (simp add: b_def tm_ReplayBuffer_def tm_GetSession_def cap_replay_def)
qed

lemma ws_ok_replay:
  assumes "ws_ok i r n s" "ws_pc s = WsSubscribed"
  shows "ws_ok i r n (ws_send_replay i writeOk s)"
proof -
  have pc: "ws_pump s = PumpNone" "ws_ch s \<noteq> None" using assms by (simp_all add: ws_ok_def ws_pc_ok_def)
  then obtain c ss where c: "ws_ch s = Some c" "tm_heap (ws_tm s) i = Some ss" "ws_sub_ok i n c ss s"
    using ws_ok_sub [OF assms(1)] by blast
  then have sent: "ws_sent s = []" "ws_replay s = []" using pc(1) by (simp_all add: ws_sub_ok_def Let_def)
  have tm: "tm_reachable n (ws_tm s)" using assms by (simp add: ws_ok_def)
  let ?b = "cap_replay (case tm_ReplayBuffer i (ws_tm s) of None \<Rightarrow> [] | Some b \<Rightarrow> b)"
  let ?out = "hb_out (ss_hub ss)"
  have "ws_send_replay i writeOk s = ws_replayed ?b ?out s \<or> ws_send_replay i writeOk s = ws_leave i (s\<lparr>ws_snap := ?out\<rparr>)"
    using c(2) sent by (simp add: ws_send_replay_def ws_replayed_def session_hub_def Let_def)
  then show ?thesis
    using ws_ok_replayed [OF assms c(2) replay_value [OF tm c(2)]] ws_ok_leave [OF ws_ok_snap [OF assms(1) pc(1)]]
      pc(1) by auto
qed

lemma ws_pc_ok_upd:
  "ws_pc_ok i r (s\<lparr>ws_stdin := xs\<rparr>) = ws_pc_ok i r s" "ws_pc_ok i r (s\<lparr>ws_sizes := ys\<rparr>) = ws_pc_ok i r s"
  by (cases "ws_pc s"; simp add: ws_pc_ok_def)+

lemma ws_ok_dispatch:
  assumes "ws_ok i r n s"
  shows "ws_ok i r n (ws_dispatch unmarshal i docker writeOk msg s)"
proof (cases msg)
  case (InBinary data)
  then have "ws_dispatch unmarshal i docker writeOk msg s = s \<or>
      ws_dispatch unmarshal i docker writeOk msg s = s\<lparr>ws_stdin := ws_stdin s @ [data]\<rparr>"
    by (simp add: ws_dispatch_def WriteInput_def)
  moreover have "ws_ok i r n (s\<lparr>ws_stdin := ws_stdin s @ [data]\<rparr>)"
    using assms by (simp add: ws_ok_def ws_pc_ok_upd ws_stream_ok_pc)
  ultimately show ?thesis using assms by auto
next
  case (InText data)
  show ?thesis
  proof (cases "resize_of (unmarshal data)")
    case (Some p)
    obtain c q where p: "p = (c, q)" by (cases p)
    have "ws_dispatch unmarshal i docker writeOk msg s = s \<or>
        ws_dispatch unmarshal i docker writeOk msg s = s\<lparr>ws_sizes := ws_sizes s @ [(c, q)]\<rparr>"
      using InText Some p by (simp add: ws_dispatch_def tm_Resize_def Let_def split: option.splits)
    moreover have "ws_ok i r n (s\<lparr>ws_sizes := ws_sizes s @ [(c, q)]\<rparr>)"
      using assms resize_of_bounds [of _ c q] Some p
      by (simp add: ws_ok_def ws_pc_ok_upd ws_stream_ok_pc)
    ultimately show ?thesis using assms by auto
  qed (simp add: InText ws_dispatch_def assms)
qed (simp add: ws_dispatch_def assms)

lemma ws_stream_ok_pump_done:
  "ws_pump s = PumpRunning \<Longrightarrow> ws_stream_ok i n s \<Longrightarrow> ws_stream_ok i n (s\<lparr>ws_pump := PumpDone\<rparr>)"
  by (cases "ws_ch s") (auto simp: ws_stream_ok_def ws_sub_ok_def replay_frames_def Let_def)

lemma ws_ok_pump_done: "ws_ok i r n s \<Longrightarrow> ws_pump s = PumpRunning \<Longrightarrow> ws_ok i r n (s\<lparr>ws_pump := PumpDone\<rparr>)"
  unfolding ws_ok_def ws_pc_ok_def by (cases "ws_pc s") (simp_all add: ws_stream_ok_pump_done)

lemma ws_ok_pump:
  assumes "ws_ok i r n s" "ws_pump s = PumpRunning" "ws_ch s = Some c" "session_hub i (ws_tm s) = Some h"
  shows "ws_ok i r n (ws_pump_step i c h writeOk s)"
proof (cases "sc_queue (hb_chans h ! c)")
  case Nil
  then show ?thesis using assms(1) ws_ok_pump_done [OF assms(1,2)] by (simp add: ws_pump_step_def)
next
  case (Cons d q)
  obtain ss where ss: "tm_heap (ws_tm s) i = Some ss" "ws_sub_ok i n c ss s"
    by (rule ws_ok_sub [OF assms(1,3)])
  have h: "h = ss_hub ss" using assms(4) ss(1) by (simp add: session_hub_def)
  let ?m = "upd_hub i (hub_recv c h) (ws_tm s)" and ?ss = "ss\<lparr>ss_hub := hub_recv c h\<rparr>"
  have c: "c < length (hb_chans h)" using ss(2) h by (simp add: ws_sub_ok_def Let_def)
  have r: "tm_reachable n ?m"
    using assms(1) tm_reachable.step [of n "ws_tm s" "TmRecv i c"] ss(1) h by (simp add: ws_ok_def)
  have got: "sc_got (hb_chans (hub_recv c h) ! c) = sc_got (hb_chans h ! c) @ [d]"
    "sc_since (hb_chans (hub_recv c h) ! c) = sc_since (hb_chans h ! c)"
    "hb_out (hub_recv c h) = hb_out h" "length (hb_chans (hub_recv c h)) = length (hb_chans h)"
    using Cons c by (simp_all add: hub_recv_def)
  have eq: "ws_pump_step i c h writeOk s =
      (if writeOk then s\<lparr>ws_tm := ?m, ws_sent := ws_sent s @ [OutBinary d]\<rparr> else s\<lparr>ws_tm := ?m, ws_pump := PumpDone\<rparr>)"
    using Cons by (simp add: ws_pump_step_def)
  obtain chunks where chunks: "ws_sent s = replay_frames s @ map OutBinary chunks" "sc_got (hb_chans h ! c) = chunks"
    using ss(2) assms(2) h by (auto simp: ws_sub_ok_def Let_def)
  have "ws_sub_ok i n c ?ss (ws_pump_step i c h writeOk s)"
  proof (cases writeOk)
    case True
    then show ?thesis using ss(2) h c got chunks assms(2) unfolding eq
      by (auto simp: ws_sub_ok_def Let_def replay_frames_def intro!: exI [of _ "chunks @ [d]"])
  next
    case False
    then show ?thesis using ss(2) h c got chunks assms(2) unfolding eq
      by (auto simp: ws_sub_ok_def Let_def replay_frames_def intro!: exI [of _ chunks])
  qed
  moreover have "tm_heap (ws_tm (ws_pump_step i c h writeOk s)) i = Some ?ss" "ws_ch (ws_pump_step i c h writeOk s) = Some c"
    "tm_reachable n (ws_tm (ws_pump_step i c h writeOk s))" "ws_sizes (ws_pump_step i c h writeOk s) = ws_sizes s"
    using ss(1) r assms(3) unfolding eq by (simp_all add: upd_hub_def)
  moreover have "ws_pc_ok i r (ws_pump_step i c h writeOk s)"
    using assms ss(1) unfolding eq by (cases "ws_pc s") (auto simp: ws_ok_def ws_pc_ok_def upd_hub_def)
  ultimately show ?thesis using assms(1) by (simp add: ws_ok_def ws_stream_ok_def)
qed

lemma ws_ok_lookup:
  assumes "ws_ok i r n s" "ws_pc s = WsStart" "up \<longrightarrow> checkOrigin r"
  shows "ws_ok i r n (ws_lookup i up s)"
  using assms by (auto simp: ws_ok_def ws_pc_ok_def ws_lookup_def ws_not_found_def ws_stream_ok_def)

lemma ws_ok_upgrade:
  assumes "ws_ok i r n s" "ws_pc s = WsFound" "up \<longrightarrow> checkOrigin r"
  shows "ws_ok i r n (ws_upgrade up s)"
  using assms by (auto simp: ws_ok_def ws_pc_ok_def ws_upgrade_def ws_stream_ok_def)

lemma ws_ok_sub_lookup:
  assumes "ws_ok i r n s" "ws_pc s = WsUpgraded"
  shows "ws_ok i r n (ws_sub_lookup i s)"
  using assms
  by (auto simp: ws_ok_def ws_pc_ok_def ws_sub_lookup_def ws_not_found_def ws_stream_ok_def tm_GetSession_def
      split: if_splits)

lemma ws_ok_step: "ws_step unmarshal i r s s' \<Longrightarrow> ws_ok i r n s \<Longrightarrow> ws_ok i r n s'"
proof (induction rule: ws_step.induct)
  case (read_error s)
  then have "ws_ok i r n (s\<lparr>ws_pc := WsStopping\<rparr>)"
    by (simp add: ws_ok_def ws_pc_ok_def ws_stream_ok_pc)
  moreover have "s\<lparr>ws_stop := True, ws_pc := WsStopping\<rparr> = s\<lparr>ws_pc := WsStopping\<rparr>\<lparr>ws_stop := True\<rparr>" by simp
  ultimately show ?case
    by (simp add: ws_ok_def ws_pc_ok_def ws_stream_ok_pc del: ws_state.select_convs)
next
  case (joined s)
  then show ?case by (simp add: ws_ok_leave)
qed (blast intro: ws_ok_lookup ws_ok_upgrade ws_ok_sub_lookup ws_ok_subscribe ws_ok_replay ws_ok_dispatch
      ws_ok_pump ws_ok_pump_done ws_ok_tm_step)+

lemma ws_reachable_ok: "ws_reachable unmarshal i r n s \<Longrightarrow> ws_ok i r n s"
proof (induction rule: ws_reachable.induct)
  case (init m)
  then show ?case by (simp add: ws_ok_def ws_init_def ws_pc_ok_def ws_stream_ok_def)
next
  case (step s s')
  then show ?case using ws_ok_step by blast
qed

definition demo_ws_request :: http_request where
  "demo_ws_request = base_request\<lparr>rq_Host := ''appx.test:8443'', rq_Path := ''/ws/term/s1'',
     rq_Header := [(''Origin'', ''https://appx.test:8443'')]\<rparr>"

definition demo_ws_tm :: term_manager where
  "demo_ws_tm = the (tm_step (TmPump ''s1'' [1, 2] False) (tm_register ''s1'' ''p'' 0 ''x'' (term_NewManager 8)))"

definition demo_ws_subscribed :: ws_state where
  "demo_ws_subscribed =
     ws_subscribe ''s1'' (ws_sub_lookup ''s1'' (ws_upgrade True (ws_lookup ''s1'' True (ws_init demo_ws_tm))))"

definition demo_ws :: ws_state where
  "demo_ws = ws_send_replay ''s1'' True demo_ws_subscribed"

lemma demo_ws_tm_reachable: "tm_reachable 8 demo_ws_tm"
proof (rule tm_reachable.step [OF tm_demo_reachable])
  show "tm_fresh (TmPump ''s1'' [1, 2] False) (tm_register ''s1'' ''p'' 0 ''x'' (term_NewManager 8))" by simp
  have "tm_step (TmPump ''s1'' [1, 2] False) (tm_register ''s1'' ''p'' 0 ''x'' (term_NewManager 8)) \<noteq> None"
    by code_simp
  then show "tm_step (TmPump ''s1'' [1, 2] False) (tm_register ''s1'' ''p'' 0 ''x'' (term_NewManager 8)) = Some demo_ws_tm"
    by (simp add: demo_ws_tm_def del: tm_step.simps)
qed

lemma demo_ws_reachable: "ws_reachable Map.empty ''s1'' demo_ws_request 8 demo_ws"
proof -
  have o: "checkOrigin demo_ws_request" by code_simp
  let ?s1 = "ws_lookup ''s1'' True (ws_init demo_ws_tm)"
  have pcs: "ws_pc ?s1 = WsFound" "ws_pc (ws_upgrade True ?s1) = WsUpgraded"
    "ws_pc (ws_sub_lookup ''s1'' (ws_upgrade True ?s1)) = WsLooked" "ws_pc demo_ws_subscribed = WsSubscribed"
    by code_simp+
  note init = ws_reachable.init [OF demo_ws_tm_reachable, of Map.empty "''s1''" demo_ws_request]
  have "ws_reachable Map.empty ''s1'' demo_ws_request 8 ?s1"
    by (rule ws_reachable.step [OF init ws_step.lookup]) (simp_all add: o ws_init_def)
  then have "ws_reachable Map.empty ''s1'' demo_ws_request 8 (ws_upgrade True ?s1)"
    by (rule ws_reachable.step [OF _ ws_step.upgrade]) (simp_all add: o pcs)
  then have "ws_reachable Map.empty ''s1'' demo_ws_request 8 (ws_sub_lookup ''s1'' (ws_upgrade True ?s1))"
    by (rule ws_reachable.step [OF _ ws_step.sub_lookup]) (simp add: pcs)
  then have "ws_reachable Map.empty ''s1'' demo_ws_request 8 demo_ws_subscribed"
    unfolding demo_ws_subscribed_def by (rule ws_reachable.step [OF _ ws_step.subscribe]) (simp add: pcs)
  then show ?thesis
    unfolding demo_ws_def by (rule ws_reachable.step [OF _ ws_step.replay]) (simp add: pcs)
qed

lemma demo_ws_sent: "ws_sent demo_ws = [OutBinary [1, 2]]" "ws_ch demo_ws = Some 0" "ws_pump demo_ws = PumpRunning"
proof -
  have "tm_ReplayBuffer ''s1'' (ws_tm demo_ws_subscribed) = Some [1, 2]" "ws_sent demo_ws_subscribed = []"
    "ws_ch demo_ws_subscribed = Some 0"
    by code_simp+
  moreover have "cap_replay [1, 2] = [1, 2 :: byte]" by (simp add: cap_replay_def maxReplayBytes_def)
  ultimately show "ws_sent demo_ws = [OutBinary [1, 2]]" "ws_ch demo_ws = Some 0" "ws_pump demo_ws = PumpRunning"
    by (simp_all add: demo_ws_def ws_send_replay_def Let_def)
qed

section \<open>Properties\<close>



text \<open>
  The Origin check. For an origin a browser sends - a scheme, a host name or IPv4 address and
  an optional port - the upgrade is allowed exactly when host and port equal the request's Host; a
  request without an Origin is always refused.
\<close>

theorem checkOrigin_same_host:
  assumes "scheme \<noteq> []" "list_all is_letter scheme" "plain_name h" "plain_port p"
    "header_Get (rq_Header r) ''Origin'' = scheme @ ''://'' @ h @ p"
  shows "checkOrigin r \<longleftrightarrow> rq_Host r = h @ p"
  using url_Parse_Host_plain [OF assms(1-4)] assms(1,5) by (auto simp: checkOrigin_def)

theorem checkOrigin_same_host_witness: "checkOrigin demo_ws_request"
proof -
  have "''https'' \<noteq> []" "list_all is_letter ''https''" "plain_name ''appx.test''" by code_simp+
  moreover have "plain_port '':8443''" by (simp add: plain_port_def is_digit_def)
  moreover have "header_Get (rq_Header demo_ws_request) ''Origin'' = ''https'' @ ''://'' @ ''appx.test'' @ '':8443''"
    by code_simp
  ultimately have "checkOrigin demo_ws_request \<longleftrightarrow> rq_Host demo_ws_request = ''appx.test'' @ '':8443''"
    by (rule checkOrigin_same_host)
  then show ?thesis by (simp add: demo_ws_request_def)
qed

end
