(* ===== verification/Fair_Runs.thy ===== *)
theory Fair_Runs
  imports Prelude
begin

text \<open>
  Infinite runs of a step relation and weak fairness to the goroutines that take part in it. A state
  has a list of goroutines; what a goroutine does shows in its own entry. The locale is the interface
  of a progress argument: entries stay, and when one changes its rank falls.
\<close>

definition run_of :: "('s \<Rightarrow> 's \<Rightarrow> bool) \<Rightarrow> (nat \<Rightarrow> 's) \<Rightarrow> bool" where
  "run_of step run \<longleftrightarrow> (\<forall>n. run (Suc n) = run n \<or> step (run n) (run (Suc n)))"

definition can_move :: "('s \<Rightarrow> 's \<Rightarrow> bool) \<Rightarrow> ('s \<Rightarrow> 'g list) \<Rightarrow> nat \<Rightarrow> 's \<Rightarrow> bool" where
  "can_move step gs i s \<longleftrightarrow> i < length (gs s) \<and> (\<exists>s'. step s s' \<and> gs s' ! i \<noteq> gs s ! i)"

text \<open>A goroutine that can move from some point on for ever does move.\<close>

definition fair_to :: "('s \<Rightarrow> 's \<Rightarrow> bool) \<Rightarrow> ('s \<Rightarrow> 'g list) \<Rightarrow> (nat \<Rightarrow> 's) \<Rightarrow> bool" where
  "fair_to step gs run \<longleftrightarrow>
     (\<forall>i n. (\<forall>m\<ge>n. can_move step gs i (run m)) \<longrightarrow> (\<exists>m\<ge>n. gs (run (Suc m)) ! i \<noteq> gs (run m) ! i))"

lemma run_of_step: "run_of step run \<Longrightarrow> run (Suc n) = run n \<or> step (run n) (run (Suc n))"
  by (simp add: run_of_def)

lemma run_of_invariant:
  assumes "run_of step run" "P (run 0)" "\<And>s s'. P s \<Longrightarrow> step s s' \<Longrightarrow> P s'"
  shows "P (run n)"
proof (induction n)
  case (Suc n)
  then show ?case using run_of_step [OF assms(1), of n] assms(3) by metis
qed (rule assms(2))

lemma run_of_from:
  assumes "run_of step run" "P (run n)" "\<And>s s'. P s \<Longrightarrow> step s s' \<Longrightarrow> P s'" "n \<le> m"
  shows "P (run m)"
  using assms(4)
proof (induction rule: dec_induct)
  case (step k)
  then show ?case using run_of_step [OF assms(1), of k] assms(3) by metis
qed (rule assms(2))

text \<open>A run that stops in a state where nothing moves is fair.\<close>

lemma fair_to_final:
  assumes "\<And>i m. n \<le> m \<Longrightarrow> \<not> can_move step gs i (run m)"
  shows "fair_to step gs run"
  unfolding fair_to_def
proof (intro allI impI)
  fix i k assume "\<forall>m\<ge>k. can_move step gs i (run m)"
  then show "\<exists>m\<ge>k. gs (run (Suc m)) ! i \<noteq> gs (run m) ! i"
    using assms [of "max n k" i] by fastforce
qed

text \<open>Along a run that keeps an invariant, nothing changes when the steps are restricted to it.\<close>

lemma run_of_on: "(\<And>n. P (run n)) \<Longrightarrow> run_of step run \<Longrightarrow> run_of (\<lambda>s s'. P s \<and> step s s') run"
  by (simp add: run_of_def)

lemma can_move_on: "P s \<Longrightarrow> can_move (\<lambda>s s'. P s \<and> step s s') gs i s = can_move step gs i s"
  by (simp add: can_move_def)

lemma fair_to_on: "(\<And>n. P (run n)) \<Longrightarrow> fair_to step gs run \<Longrightarrow> fair_to (\<lambda>s s'. P s \<and> step s s') gs run"
  by (simp add: fair_to_def can_move_on)

locale ranked_goroutines =
  fixes step :: "'s \<Rightarrow> 's \<Rightarrow> bool"
    and gs :: "'s \<Rightarrow> 'g list"
    and rank :: "'g \<Rightarrow> nat"
  assumes stays: "step s s' \<Longrightarrow> i < length (gs s) \<Longrightarrow> i < length (gs s')"
    and falls: "step s s' \<Longrightarrow> i < length (gs s) \<Longrightarrow> gs s' ! i = gs s ! i \<or> rank (gs s' ! i) < rank (gs s ! i)"
begin

lemma run_stays:
  assumes "run_of step run" "i < length (gs (run n))" "n \<le> m"
  shows "i < length (gs (run m))"
  using assms(3)
proof (induction rule: dec_induct)
  case (step k)
  then show ?case using run_of_step [OF assms(1), of k] stays by metis
qed (rule assms(2))

lemma run_falls:
  assumes "run_of step run" "i < length (gs (run n))" "n \<le> m"
  shows "gs (run (Suc m)) ! i = gs (run m) ! i \<or> rank (gs (run (Suc m)) ! i) < rank (gs (run m) ! i)"
  using run_of_step [OF assms(1), of m] falls run_stays [OF assms] by metis

text \<open>In some later state the rank is as low as it will ever be, so the entry no longer changes.\<close>

lemma run_settles:
  assumes "run_of step run" "i < length (gs (run n))"
  obtains m where "n \<le> m" "\<And>k. m \<le> k \<Longrightarrow> gs (run k) ! i = gs (run m) ! i"
proof -
  let ?f = "\<lambda>m. rank (gs (run m) ! i)"
  obtain m where m: "n \<le> m" "\<And>k. n \<le> k \<Longrightarrow> ?f m \<le> ?f k"
    using ex_has_least_nat [of "\<lambda>m. n \<le> m" n ?f] by auto
  have "gs (run k) ! i = gs (run m) ! i" if "m \<le> k" for k
    using that
  proof (induction rule: dec_induct)
    case (step k)
    have "?f m \<le> ?f (Suc k)" using m step by simp
    then show ?case using run_falls [OF assms, of k] step m(1) by auto
  qed simp
  then show ?thesis using that m(1) by blast
qed

text \<open>If a goroutine with work left can always move in the end, it finishes in a fair run.\<close>

lemma run_finishes:
  assumes "run_of step run" "fair_to step gs run" "i < length (gs (run n))"
    and moves: "\<And>m. n \<le> m \<Longrightarrow> 0 < rank (gs (run m) ! i) \<Longrightarrow> (\<And>k. m \<le> k \<Longrightarrow> gs (run k) ! i = gs (run m) ! i) \<Longrightarrow>
      \<exists>m'\<ge>m. \<forall>k\<ge>m'. can_move step gs i (run k)"
  shows "\<exists>m\<ge>n. rank (gs (run m) ! i) = 0 \<and> (\<forall>k\<ge>m. gs (run k) ! i = gs (run m) ! i)"
proof -
  obtain m where m: "n \<le> m" "\<And>k. m \<le> k \<Longrightarrow> gs (run k) ! i = gs (run m) ! i"
    using run_settles [OF assms(1,3)] by blast
  have "rank (gs (run m) ! i) = 0"
  proof (rule ccontr)
    assume "rank (gs (run m) ! i) \<noteq> 0"
    then obtain m' where m': "m \<le> m'" "\<forall>k\<ge>m'. can_move step gs i (run k)" using moves [OF m(1) _ m(2)] by auto
    then obtain k where "m' \<le> k" "gs (run (Suc k)) ! i \<noteq> gs (run k) ! i" using assms(2) unfolding fair_to_def by blast
    then show False using m(2) [of k] m(2) [of "Suc k"] m'(1) by simp
  qed
  then show ?thesis using m by blast
qed

end

end
