(* ===== verification/Terminal_Ws_Liveness.thy ===== *)
theory Terminal_Ws_Liveness
  imports Terminal_Ws Fair_Runs
begin

text \<open>
  The end of a terminal connection (\<^verbatim>\<open>internal/terminal/handler.go\<close>): once the input loop has stopped, the
  pump and the handler both return under a fair scheduler, whatever the shell and the other users of
  the session do, and an open session no longer feeds the channel of a handler that has returned.
\<close>

section \<open>The two goroutines of a connection\<close>

datatype ws_goroutine = Bridge ws_pc | Pump ws_pump

definition ws_goroutines :: "ws_state \<Rightarrow> ws_goroutine list" where
  "ws_goroutines s = [Bridge (ws_pc s), Pump (ws_pump s)]"

fun ws_rank :: "ws_goroutine \<Rightarrow> nat" where
  "ws_rank (Bridge WsStart) = 7"
| "ws_rank (Bridge WsFound) = 6"
| "ws_rank (Bridge WsUpgraded) = 5"
| "ws_rank (Bridge WsLooked) = 4"
| "ws_rank (Bridge WsSubscribed) = 3"
| "ws_rank (Bridge WsReading) = 2"
| "ws_rank (Bridge WsStopping) = 1"
| "ws_rank (Bridge WsReturned) = 0"
| "ws_rank (Pump PumpNone) = 2"
| "ws_rank (Pump PumpRunning) = 1"
| "ws_rank (Pump PumpDone) = 0"

lemma ws_rank_0: "ws_rank (Bridge pc) = 0 \<longleftrightarrow> pc = WsReturned" "ws_rank (Pump p) = 0 \<longleftrightarrow> p = PumpDone"
  by (cases pc; simp) (cases p; simp)

lemma length_ws_goroutines [simp]: "length (ws_goroutines s) = 2"
  by (simp add: ws_goroutines_def)

lemma nth_ws_goroutines [simp]: "ws_goroutines s ! 0 = Bridge (ws_pc s)" "ws_goroutines s ! Suc 0 = Pump (ws_pump s)"
  by (simp_all add: ws_goroutines_def)

lemmas ws_updates =
  ws_lookup_def ws_not_found_def ws_upgrade_def ws_sub_lookup_def ws_subscribe_def ws_leave_def ws_send_replay_def
  ws_pump_step_def Let_def

lemma ws_dispatch_keeps [simp]:
  "ws_pc (ws_dispatch unmarshal i docker writeOk msg s) = ws_pc s"
  "ws_pump (ws_dispatch unmarshal i docker writeOk msg s) = ws_pump s"
  "ws_stop (ws_dispatch unmarshal i docker writeOk msg s) = ws_stop s"
  "ws_ch (ws_dispatch unmarshal i docker writeOk msg s) = ws_ch s"
  "ws_tm (ws_dispatch unmarshal i docker writeOk msg s) = ws_tm s"
  by (simp_all add: ws_dispatch_def split: ws_in.splits option.splits sum.splits prod.splits)

text \<open>A pump is started at most once; every step takes the goroutine that makes it further.\<close>

lemma ws_ok_subscribed: "ws_ok i r n s \<Longrightarrow> ws_pc s = WsSubscribed \<Longrightarrow> ws_pump s = PumpNone"
  by (simp add: ws_ok_def ws_pc_ok_def)

lemma ws_step_falls:
  assumes "ws_step unmarshal i r s s'" "ws_ok i r n s"
  shows "(ws_pc s' = ws_pc s \<or> ws_rank (Bridge (ws_pc s')) < ws_rank (Bridge (ws_pc s)))
     \<and> (ws_pump s' = ws_pump s \<or> ws_rank (Pump (ws_pump s')) < ws_rank (Pump (ws_pump s)))"
  using assms by (induction rule: ws_step.induct)
    (auto simp: ws_updates ws_ok_subscribed split: prod.splits list.splits)

interpretation ws: ranked_goroutines "\<lambda>s s'. ws_ok i r n s \<and> ws_step unmarshal i r s s'" ws_goroutines ws_rank
  for i r n unmarshal
proof unfold_locales
  fix s s' k
  assume "ws_ok i r n s \<and> ws_step unmarshal i r s s'" "k < length (ws_goroutines s)"
  then show "ws_goroutines s' ! k = ws_goroutines s ! k \<or> ws_rank (ws_goroutines s' ! k) < ws_rank (ws_goroutines s ! k)"
    using ws_step_falls [of unmarshal i r s s' n] by (cases k) (auto simp: less_2_cases_iff)
qed simp

section \<open>What a connection leaves behind\<close>

definition ws_let_go :: "string \<Rightarrow> ws_state \<Rightarrow> bool" where
  "ws_let_go i s \<longleftrightarrow> (\<forall>c ss. ws_ch s = Some c \<longrightarrow> tm_heap (ws_tm s) i = Some ss \<longrightarrow>
     ss_done ss \<or> c < length (hb_chans (ss_hub ss)) \<and> c \<notin> set (hb_subs (ss_hub ss)))"

definition ws_end_ok :: "string \<Rightarrow> ws_state \<Rightarrow> bool" where
  "ws_end_ok i s \<longleftrightarrow> (ws_pc s \<in> {WsReading, WsStopping} \<longrightarrow> ws_pump s \<noteq> PumpNone)
     \<and> (ws_pc s = WsStopping \<longrightarrow> ws_stop s) \<and> (ws_pc s = WsReturned \<longrightarrow> ws_let_go i s)"

text \<open>Leaving unsubscribes, unless the session is over and has left the registry.\<close>

lemma ws_leave_lets_go:
  assumes "ws_ok i r n s"
  shows "ws_let_go i (ws_leave i s)"
proof (cases "ws_ch s")
  case None
  then show ?thesis by (simp add: ws_let_go_def ws_leave_def)
next
  case (Some c)
  obtain ss where ss: "tm_heap (ws_tm s) i = Some ss" "ws_sub_ok i n c ss s" by (rule ws_ok_sub [OF assms Some])
  have "i \<in> set (tm_sessions (ws_tm s)) \<longleftrightarrow> \<not> ss_done ss"
    using tm_reachable_ok [of n "ws_tm s"] assms ss(1) unfolding ws_ok_def tm_ok_def by blast
  moreover have "c < length (hb_chans (ss_hub ss))" using ss(2) by (simp add: ws_sub_ok_def Let_def)
  ultimately show ?thesis using Some ss(1)
    by (auto simp: ws_let_go_def ws_leave_def tm_Unsubscribe_def tm_GetSession_def hub_Unsubscribe_def upd_hub_def)
qed

text \<open>Nobody else puts the channel back.\<close>

lemma ws_let_go_rest:
  assumes "ws_let_go i s" "tm_step e (ws_tm s) = Some m" "tm_fresh e (ws_tm s)" "tm_heap (ws_tm s) i \<noteq> None \<or> ws_ch s = None"
  shows "ws_let_go i (s\<lparr>ws_tm := m\<rparr>)"
proof (cases "ws_ch s")
  case None
  then show ?thesis by (simp add: ws_let_go_def)
next
  case (Some c)
  then obtain ss where ss: "tm_heap (ws_tm s) i = Some ss" using assms(4) by auto
  have "heap_rel (hub_drops c) i (ws_tm s) m" by (rule drops.heap_step [OF assms(2,3)]) simp
  then obtain ss' where ss': "tm_heap m i = Some ss'" "hub_drops c (ss_hub ss) (ss_hub ss')" "ss_done ss \<longrightarrow> ss_done ss'"
    using ss unfolding heap_rel_def by blast
  then show ?thesis using assms(1) Some ss by (auto simp: ws_let_go_def hub_drops_def)
qed

lemma ws_ok_channel: "ws_ok i r n s \<Longrightarrow> tm_heap (ws_tm s) i \<noteq> None \<or> ws_ch s = None"
  using ws_ok_sub [of i r n s] by fastforce

lemma ws_end_ok_step: "ws_step unmarshal i r s s' \<Longrightarrow> ws_ok i r n s \<Longrightarrow> ws_end_ok i s \<Longrightarrow> ws_end_ok i s'"
proof (induction rule: ws_step.induct)
  case (rest e s m)
  then show ?case using ws_let_go_rest [of i s e m] ws_ok_channel [of i r n s] by (auto simp: ws_end_ok_def)
next
  case (joined s)
  then show ?case using ws_leave_lets_go [of i r n s] by (simp add: ws_end_ok_def) (simp add: ws_leave_def)
next
  case (replay s ok)
  let ?s1 = "s\<lparr>ws_snap := (case session_hub i (ws_tm s) of Some h \<Rightarrow> hb_out h | None \<Rightarrow> [])\<rparr>"
  have "ws_let_go i (ws_leave i ?s1)"
    using ws_leave_lets_go [OF ws_ok_snap [OF replay(2) ws_ok_subscribed [OF replay(2,1)]]] .
  moreover have "ws_pc (ws_leave i ?s1) = WsReturned" by (simp add: ws_leave_def)
  ultimately show ?case by (auto simp: ws_send_replay_def Let_def ws_end_ok_def)
next
  case (pump s c h ok)
  have "ws_pc s \<noteq> WsReturned" using pump by (auto simp: ws_ok_def ws_pc_ok_def)
  then show ?case using pump by (auto simp: ws_end_ok_def ws_pump_step_def Let_def split: list.splits)
next
  case (pump_stop s)
  then show ?case by (auto simp: ws_end_ok_def ws_ok_def ws_pc_ok_def)
next
  case (message s msg docker writeOk)
  then show ?case by (simp add: ws_end_ok_def)
next
  case (subscribe s)
  then show ?case by (simp add: ws_end_ok_def ws_subscribe_def split: prod.splits)
qed (auto simp: ws_end_ok_def ws_let_go_def ws_ok_def ws_pc_ok_def ws_lookup_def ws_upgrade_def ws_sub_lookup_def ws_not_found_def)

lemma ws_reachable_end_ok: "ws_reachable unmarshal i r n s \<Longrightarrow> ws_end_ok i s"
proof (induction rule: ws_reachable.induct)
  case (init m)
  then show ?case by (simp add: ws_init_def ws_end_ok_def)
next
  case (step s s')
  then show ?case using ws_end_ok_step ws_reachable_ok by blast
qed

section \<open>The end of the connection\<close>

definition ws_closing :: "string \<Rightarrow> http_request \<Rightarrow> nat \<Rightarrow> ws_state \<Rightarrow> bool" where
  "ws_closing i r n s \<longleftrightarrow> ws_ok i r n s \<and> ws_end_ok i s \<and> ws_stop s \<and> ws_pump s \<noteq> PumpNone
     \<and> ws_pc s \<in> {WsStopping, WsReturned}"

lemma ws_closing_step: "ws_closing i r n s \<Longrightarrow> ws_step unmarshal i r s s' \<Longrightarrow> ws_closing i r n s'"
proof -
  assume s: "ws_closing i r n s" and step: "ws_step unmarshal i r s s'"
  have "ws_stop s' \<and> ws_pump s' \<noteq> PumpNone \<and> ws_pc s' \<in> {WsStopping, WsReturned}"
    using step s by (cases rule: ws_step.cases) (auto simp: ws_closing_def ws_updates split: list.splits)
  then show ?thesis using s step ws_ok_step ws_end_ok_step unfolding ws_closing_def by blast
qed

lemma ws_closing_start: "ws_reachable unmarshal i r n s \<Longrightarrow> ws_pc s = WsStopping \<Longrightarrow> ws_closing i r n s"
  using ws_reachable_ok [of unmarshal i r n s] ws_reachable_end_ok [of unmarshal i r n s]
  by (simp add: ws_closing_def ws_end_ok_def)

lemma pump_can_move:
  assumes "ws_closing i r n s" "ws_pump s \<noteq> PumpDone"
  shows "can_move (ws_step unmarshal i r) ws_goroutines 1 s"
proof -
  have "ws_pump s = PumpRunning" "ws_stop s" using assms by (cases "ws_pump s"; simp add: ws_closing_def)+
  from ws_step.pump_stop [OF this] show ?thesis using assms(2) unfolding can_move_def by (intro conjI exI) auto
qed

lemma bridge_can_move:
  assumes "ws_closing i r n s" "ws_pc s \<noteq> WsReturned" "ws_pump s = PumpDone"
  shows "can_move (ws_step unmarshal i r) ws_goroutines 0 s"
proof -
  have "ws_pc s = WsStopping" using assms(1,2) by (auto simp: ws_closing_def)
  from ws_step.joined [OF this assms(3)] show ?thesis
    using assms(2) unfolding can_move_def by (intro conjI exI) (auto simp: ws_leave_def)
qed

lemma ws_finishes:
  assumes closing: "\<And>l. k \<le> l \<Longrightarrow> ws_closing i r n (run l)" and ok: "\<And>l. ws_ok i r n (run l)"
    and run: "run_of (ws_step unmarshal i r) run" "fair_to (ws_step unmarshal i r) ws_goroutines run"
  shows "\<exists>m\<ge>k. \<forall>l\<ge>m. ws_pc (run l) = WsReturned \<and> ws_pump (run l) = PumpDone"
proof -
  note fin = ws.run_finishes [of i r n unmarshal run, OF run_of_on [where P = "ws_ok i r n", OF ok run(1)]
      fair_to_on [where P = "ws_ok i r n", OF ok run(2)], unfolded can_move_on [of "ws_ok i r n", OF ok]]
  have "\<exists>m\<ge>k. ws_rank (ws_goroutines (run m) ! 1) = 0 \<and> (\<forall>l\<ge>m. ws_goroutines (run l) ! 1 = ws_goroutines (run m) ! 1)"
  proof (rule fin)
    fix m assume m: "k \<le> m" "0 < ws_rank (ws_goroutines (run m) ! 1)"
      "\<And>l. m \<le> l \<Longrightarrow> ws_goroutines (run l) ! 1 = ws_goroutines (run m) ! 1"
    have "can_move (ws_step unmarshal i r) ws_goroutines 1 (run l)" if "m \<le> l" for l
    proof (rule pump_can_move)
      show "ws_closing i r n (run l)" by (rule closing) (use m(1) that in simp)
      show "ws_pump (run l) \<noteq> PumpDone" using m(2) m(3) [OF that] by auto
    qed
    then show "\<exists>m'\<ge>m. \<forall>l\<ge>m'. can_move (ws_step unmarshal i r) ws_goroutines 1 (run l)" by blast
  qed simp
  then obtain p where p: "k \<le> p" "ws_rank (ws_goroutines (run p) ! 1) = 0"
    "\<forall>l\<ge>p. ws_goroutines (run l) ! 1 = ws_goroutines (run p) ! 1" by blast
  have pump: "ws_pump (run l) = PumpDone" if "p \<le> l" for l
    using p(2) p(3) [rule_format, OF that] by (simp add: ws_rank_0)
  have "\<exists>m\<ge>p. ws_rank (ws_goroutines (run m) ! 0) = 0 \<and> (\<forall>l\<ge>m. ws_goroutines (run l) ! 0 = ws_goroutines (run m) ! 0)"
  proof (rule fin)
    fix m assume m: "p \<le> m" "0 < ws_rank (ws_goroutines (run m) ! 0)"
      "\<And>l. m \<le> l \<Longrightarrow> ws_goroutines (run l) ! 0 = ws_goroutines (run m) ! 0"
    have "can_move (ws_step unmarshal i r) ws_goroutines 0 (run l)" if "m \<le> l" for l
    proof (rule bridge_can_move)
      show "ws_closing i r n (run l)" by (rule closing) (use m(1) p(1) that in simp)
      show "ws_pc (run l) \<noteq> WsReturned" using m(2) m(3) [OF that] by auto
      show "ws_pump (run l) = PumpDone" by (rule pump) (use m(1) that in simp)
    qed
    then show "\<exists>m'\<ge>m. \<forall>l\<ge>m'. can_move (ws_step unmarshal i r) ws_goroutines 0 (run l)" by blast
  qed simp
  then obtain q where q: "p \<le> q" "ws_rank (ws_goroutines (run q) ! 0) = 0"
    "\<forall>l\<ge>q. ws_goroutines (run l) ! 0 = ws_goroutines (run q) ! 0" by blast
  have "ws_pc (run l) = WsReturned" if "q \<le> l" for l
    using q(2) q(3) [rule_format, OF that] by (simp add: ws_rank_0)
  then show ?thesis using pump p(1) q(1) by (intro exI [of _ q]) auto
qed

section \<open>Property\<close>


text \<open>The client of the example goes away; the handler stops its pump and leaves the session.\<close>

definition ended_run :: "nat \<Rightarrow> ws_state" where
  "ended_run k =
     (let stopping = demo_ws\<lparr>ws_stop := True, ws_pc := WsStopping\<rparr> in
      if k = 0 then demo_ws
      else if k = 1 then stopping
      else if k = 2 then stopping\<lparr>ws_pump := PumpDone\<rparr>
      else ws_leave ''s1'' (stopping\<lparr>ws_pump := PumpDone\<rparr>))"

lemma ended_run_step: "run_of (ws_step Map.empty ''s1'' demo_ws_request) ended_run"
  unfolding run_of_def
proof
  fix k :: nat
  let ?s = "demo_ws\<lparr>ws_stop := True, ws_pc := WsStopping\<rparr>"
  have pc: "ws_pc demo_ws = WsReading"
    using demo_ws_sent(1,3) by (auto simp: demo_ws_def ws_send_replay_def ws_leave_def Let_def split: if_splits)
  consider "k = 0" | "k = 1" | "k = 2" | "3 \<le> k" by linarith
  then show "ended_run (Suc k) = ended_run k \<or> ws_step Map.empty ''s1'' demo_ws_request (ended_run k) (ended_run (Suc k))"
  proof cases
    case 1
    then show ?thesis using ws_step.read_error [OF pc] by (simp add: ended_run_def Let_def)
  next
    case 2
    then show ?thesis using ws_step.pump_stop [of ?s] demo_ws_sent(3) by (simp add: ended_run_def Let_def)
  next
    case 3
    then show ?thesis using ws_step.joined [of "?s\<lparr>ws_pump := PumpDone\<rparr>"] by (simp add: ended_run_def Let_def)
  qed (simp add: ended_run_def)
qed

lemma ended_run_fair: "fair_to (ws_step Map.empty ''s1'' demo_ws_request) ws_goroutines ended_run"
proof (rule fair_to_final [of 3])
  fix i m assume "3 \<le> (m :: nat)"
  then have fin: "ended_run m = ended_run 3" "ws_pc (ended_run 3) = WsReturned" "ws_pump (ended_run 3) = PumpDone"
    by (simp_all add: ended_run_def ws_leave_def Let_def)
  have "ws_reachable Map.empty ''s1'' demo_ws_request 8 (ended_run 3)"
    using run_of_invariant [OF ended_run_step, of "ws_reachable Map.empty ''s1'' demo_ws_request 8" 3]
      demo_ws_reachable ws_reachable.step by (fastforce simp: ended_run_def)
  from ws_step_falls [OF _ ws_reachable_ok [OF this]] fin
  have "ws_goroutines s' = ws_goroutines (ended_run m)"
    if "ws_step Map.empty ''s1'' demo_ws_request (ended_run m) s'" for s'
    using that by (auto simp: ws_goroutines_def)
  then show "\<not> can_move (ws_step Map.empty ''s1'' demo_ws_request) ws_goroutines i (ended_run m)"
    by (auto simp: can_move_def)
qed


end
