(* ===== verification/Egress_Store.thy ===== *)
theory Egress_Store
  imports Go_Net
begin

text \<open>
  The egress store (\<^verbatim>\<open>internal/egress/store.go\<close>): the allowlist with its in-memory copy, the
  persisted setting, wildcard matching, and the connection log. A Go map used as a set is the
  list of its keys; nothing depends on the iteration order. The JSON codec of the setting is an
  argument (\<open>marshal\<close>, \<open>unmarshal\<close>). \<open>AddToAllowlist\<close> takes and releases the lock several times,
  so it is also given as the sequence of its atomic sections.
\<close>

section \<open>State\<close>

definition DefaultAllowlist :: "string list" where
  "DefaultAllowlist =
     [''api.anthropic.com:443'', ''api.openai.com:443'', ''proxy.golang.org:443'',
      ''sum.golang.org:443'', ''registry.npmjs.org:443'', ''bedrock-runtime.*.amazonaws.com:443'']"

definition settingKey :: string where
  "settingKey = ''egress_allowlist''"

record log_entry =
  le_ID :: int
  le_Destination :: string
  le_Port :: int
  le_Allowed :: bool
  le_Timestamp :: instant

text \<open>
  The \<open>egress_log\<close> table with its AUTOINCREMENT counter, the settings table, and the map in
  memory.
\<close>

record egress_store =
  eg_log :: "log_entry list"
  eg_next_id :: int
  eg_settings :: "string \<rightharpoonup> string"
  eg_allowlist :: "string list"

datatype egress_stmt = EgInsertLog | EgCountLog | EgQueryLog | EgUpsertSetting | EgPruneLog | EgSelectSetting

type_synonym egress_faults = "egress_stmt \<Rightarrow> bool"
type_synonym marshal = "string list \<Rightarrow> string"
type_synonym unmarshal = "string \<Rightarrow> string list option"

section \<open>The allowlist\<close>

definition load_entries :: "string list \<Rightarrow> egress_store \<Rightarrow> egress_store" where
  "load_entries entries s = s\<lparr>eg_allowlist := remdups entries\<rparr>"

definition reloadAllowlist :: "egress_faults \<Rightarrow> unmarshal \<Rightarrow> egress_store \<Rightarrow> egress_store" where
  "reloadAllowlist fl unmarshal s =
     (let val = (if fl EgSelectSetting then None else eg_settings s settingKey) in
      case val of
        None \<Rightarrow> load_entries DefaultAllowlist s
      | Some v \<Rightarrow>
          if v = [] then load_entries DefaultAllowlist s
          else (case unmarshal v of
                  None \<Rightarrow> load_entries DefaultAllowlist s
                | Some entries \<Rightarrow> load_entries entries s))"

definition egress_NewStore ::
  "egress_faults \<Rightarrow> unmarshal \<Rightarrow> log_entry list \<Rightarrow> int \<Rightarrow> (string \<rightharpoonup> string) \<Rightarrow> egress_store" where
  "egress_NewStore fl unmarshal lg nxt settings =
     reloadAllowlist fl unmarshal
       \<lparr>eg_log = lg, eg_next_id = nxt, eg_settings = settings, eg_allowlist = []\<rparr>"

definition GetAllowlist :: "egress_store \<Rightarrow> string list" where
  "GetAllowlist s = eg_allowlist s"

definition SetAllowlist ::
  "egress_faults \<Rightarrow> marshal \<Rightarrow> string list \<Rightarrow> egress_store \<Rightarrow> bool \<times> egress_store" where
  "SetAllowlist fl marshal entries s =
     (if fl EgUpsertSetting then (False, s)
      else (True, load_entries entries (s\<lparr>eg_settings := (eg_settings s)(settingKey \<mapsto> marshal entries)\<rparr>)))"

definition entry_key :: "string \<Rightarrow> int \<Rightarrow> string" where
  "entry_key host port = host @ '':'' @ Itoa port"

definition AddToAllowlist ::
  "egress_faults \<Rightarrow> marshal \<Rightarrow> string \<Rightarrow> int \<Rightarrow> egress_store \<Rightarrow> bool \<times> egress_store" where
  "AddToAllowlist fl marshal host port s =
     (let e = entry_key host port in
      if e \<in> set (eg_allowlist s) then (True, s)
      else let s1 = s\<lparr>eg_allowlist := eg_allowlist s @ [e]\<rparr>
           in SetAllowlist fl marshal (GetAllowlist s1) s1)"

section \<open>Matching\<close>

definition labelGlob_mid :: "string list \<Rightarrow> string \<Rightarrow> bool" where
  "labelGlob_mid parts rest0 \<longleftrightarrow>
     foldl (\<lambda>rest part. Option.bind rest (\<lambda>r. map_option (\<lambda>i. drop (i + length part) r) (Index r part)))
       (Some rest0) parts \<noteq> None"

definition labelGlob :: "string \<Rightarrow> string \<Rightarrow> bool" where
  "labelGlob pattern label =
     (if \<not> Contains pattern ''*'' then pattern = label
      else let parts = Split CHR ''*'' pattern in
           HasPrefix label (hd parts) \<and> HasSuffix label (last parts)
           \<and> labelGlob_mid (butlast (tl parts)) (drop (length (hd parts)) label))"

definition wildcardHostMatch :: "string \<Rightarrow> string \<Rightarrow> bool" where
  "wildcardHostMatch pattern host =
     (let pp = Split CHR ''.'' pattern; hp = Split CHR ''.'' host in
      length pp = length hp \<and> list_all (\<lambda>(p, h). labelGlob p h) (zip pp hp))"

definition IsAllowed :: "string \<Rightarrow> int \<Rightarrow> egress_store \<Rightarrow> bool" where
  "IsAllowed host port s =
     (let key = entry_key host port; portSuffix = '':'' @ Itoa port in
      key \<in> set (eg_allowlist s)
      \<or> list_ex (\<lambda>e. Contains e ''*'' \<and> HasSuffix e portSuffix
                    \<and> wildcardHostMatch (TrimSuffix e portSuffix) host) (eg_allowlist s))"

section \<open>The connection log\<close>

definition LogEntry ::
  "egress_faults \<Rightarrow> instant \<Rightarrow> string \<Rightarrow> int \<Rightarrow> bool \<Rightarrow> egress_store \<Rightarrow> bool \<times> egress_store" where
  "LogEntry fl now destination port allowed s =
     (if fl EgInsertLog then (False, s)
      else (True, s\<lparr>eg_log := eg_log s @ [\<lparr>le_ID = eg_next_id s, le_Destination = destination,
                      le_Port = port, le_Allowed = allowed, le_Timestamp = now\<rparr>],
                    eg_next_id := eg_next_id s + 1\<rparr>))"

text \<open>
  \<^verbatim>\<open>ORDER BY id DESC LIMIT ? OFFSET ?\<close>: a negative limit means no limit, a negative offset
  none.
\<close>

definition ListLog :: "egress_faults \<Rightarrow> int \<Rightarrow> int \<Rightarrow> egress_store \<Rightarrow> (log_entry list \<times> int) option" where
  "ListLog fl limit offset s =
     (if fl EgCountLog \<or> fl EgQueryLog then None
      else let desc = rev (sort_key le_ID (eg_log s)); page = drop (nat offset) desc in
           Some (if limit < 0 then page else take (nat limit) page, int (length (eg_log s))))"

definition PruneLog :: "egress_faults \<Rightarrow> instant \<Rightarrow> duration \<Rightarrow> egress_store \<Rightarrow> bool \<times> egress_store" where
  "PruneLog fl now maxAge s =
     (if fl EgPruneLog then (False, s)
      else (True, s\<lparr>eg_log := filter (\<lambda>e. \<not> le_Timestamp e < now - maxAge) (eg_log s)\<rparr>))"

section \<open>What a wildcard means\<close>

text \<open>The documented meaning: a star stands for zero or more characters of one label.\<close>

fun glob :: "string \<Rightarrow> string \<Rightarrow> bool" where
  "glob [] s \<longleftrightarrow> s = []"
| "glob (c # p) s \<longleftrightarrow>
     (if c = CHR ''*'' then glob p s \<or> (case s of [] \<Rightarrow> False | _ # t \<Rightarrow> glob (c # p) t)
      else (case s of [] \<Rightarrow> False | d # t \<Rightarrow> d = c \<and> glob p t))"

declare glob.simps(2) [simp del]

lemma glob_lit: "c \<noteq> CHR ''*'' \<Longrightarrow> glob (c # p) s \<longleftrightarrow> (\<exists>t. s = c # t \<and> glob p t)"
  by (cases s) (auto simp: glob.simps(2))

lemma glob_star_Nil: "glob (CHR ''*'' # p) [] \<longleftrightarrow> glob p []"
  by (simp add: glob.simps(2))

lemma glob_star_Cons: "glob (CHR ''*'' # p) (d # t) \<longleftrightarrow> glob p (d # t) \<or> glob (CHR ''*'' # p) t"
  by (subst glob.simps(2)) simp

lemma glob_plain_append:
  "CHR ''*'' \<notin> set a \<Longrightarrow> glob (a @ p) s \<longleftrightarrow> (\<exists>t. s = a @ t \<and> glob p t)"
proof (induction a arbitrary: s)
  case (Cons c a)
  then have "c \<noteq> CHR ''*''" by auto
  with Cons show ?case by (auto simp: glob_lit)
qed simp

lemma glob_plain: "CHR ''*'' \<notin> set p \<Longrightarrow> glob p s \<longleftrightarrow> s = p"
  using glob_plain_append [of p "[]"] by auto

lemma glob_star: "glob (CHR ''*'' # p) s \<longleftrightarrow> (\<exists>u t. s = u @ t \<and> glob p t)"
proof (induction s)
  case Nil
  then show ?case by (simp add: glob_star_Nil)
next
  case (Cons d s)
  have "(\<exists>u t. d # s = u @ t \<and> glob p t) \<longleftrightarrow> glob p (d # s) \<or> (\<exists>u t. s = u @ t \<and> glob p t)"
    by (auto simp: Cons_eq_append_conv)
  with Cons show ?case by (simp add: glob_star_Cons)
qed

lemma Contains_star: "Contains p ''*'' \<longleftrightarrow> CHR ''*'' \<in> set p"
  by (rule Contains_char)

text \<open>A pattern with stars, seen through its star-free parts.\<close>

fun glob_parts :: "string list \<Rightarrow> string \<Rightarrow> bool" where
  "glob_parts [] s \<longleftrightarrow> False"
| "glob_parts [p] s \<longleftrightarrow> s = p"
| "glob_parts (p # q # qs) s \<longleftrightarrow> (\<exists>u t. s = p @ u @ t \<and> glob_parts (q # qs) t)"

lemma glob_parts_Join:
  "ps \<noteq> [] \<Longrightarrow> \<forall>p \<in> set ps. CHR ''*'' \<notin> set p \<Longrightarrow> glob (Join ''*'' ps) s \<longleftrightarrow> glob_parts ps s"
proof (induction ps s rule: glob_parts.induct)
  case (3 p q qs s)
  then have "glob (Join ''*'' (p # q # qs)) s \<longleftrightarrow> (\<exists>t. s = p @ t \<and> (\<exists>u v. t = u @ v \<and> glob (Join ''*'' (q # qs)) v))"
    by (simp add: glob_plain_append glob_star)
  with 3 show ?case by auto
qed (simp_all add: glob_plain)

lemma glob_Split: "glob p s \<longleftrightarrow> glob_parts (Split CHR ''*'' p) s"
proof -
  have "Split CHR ''*'' p \<noteq> []" by (cases p) (auto split: list.splits)
  moreover have "\<forall>q \<in> set (Split CHR ''*'' p). CHR ''*'' \<notin> set q"
    using Split_elem_no_sep by fast
  ultimately show ?thesis using glob_parts_Join Join_Split by metis
qed

section \<open>Facts: matching\<close>

lemma mid_None:
  "foldl (\<lambda>rest part. Option.bind rest (\<lambda>r. map_option (\<lambda>i. drop (i + length part) r) (Index r part)))
     None parts = None"
  by (induction parts) simp_all

lemma labelGlob_mid_Nil [simp]: "labelGlob_mid [] s"
  by (simp add: labelGlob_mid_def)

lemma labelGlob_mid_Cons:
  "labelGlob_mid (m # ms) s \<longleftrightarrow>
     (case Index s m of None \<Rightarrow> False | Some i \<Rightarrow> labelGlob_mid ms (drop (i + length m) s))"
  by (simp add: labelGlob_mid_def mid_None split: option.split)

text \<open>The parts occur one after the other, without overlap.\<close>

fun in_order :: "string list \<Rightarrow> string \<Rightarrow> bool" where
  "in_order [] s \<longleftrightarrow> True"
| "in_order (m # ms) s \<longleftrightarrow> (\<exists>a b. s = a @ m @ b \<and> in_order ms b)"

lemma in_order_prepend: "in_order ms s \<Longrightarrow> in_order ms (a @ s)"
  by (cases ms) (auto, metis append.assoc)

text \<open>Taking each part at its first occurrence is as good as any other choice.\<close>

lemma labelGlob_mid_iff: "labelGlob_mid ms s \<longleftrightarrow> in_order ms s"
proof (induction ms arbitrary: s)
  case (Cons m ms)
  show ?case
  proof
    assume "labelGlob_mid (m # ms) s"
    then obtain i where i: "Index s m = Some i" "labelGlob_mid ms (drop (i + length m) s)"
      by (auto simp: labelGlob_mid_Cons split: option.splits)
    from Index_SomeD [OF i(1)] obtain t where "drop i s = m @ t" by (auto simp: HasPrefix_iff)
    then have "s = take i s @ m @ t" "drop (i + length m) s = t"
      by (metis append_take_drop_id, metis add.commute append_eq_conv_conj drop_drop)
    then show "in_order (m # ms) s" using i(2) Cons by auto
  next
    assume "in_order (m # ms) s"
    then obtain a b where ab: "s = a @ m @ b" "in_order ms b" by auto
    obtain i where i: "i \<le> length a" "Index s m = Some i" using Index_append [of a m b] ab(1) by auto
    have "drop (i + length m) s = drop (i + length m) (a @ m) @ b" using ab(1) i(1) by simp
    then have "in_order ms (drop (i + length m) s)" using ab(2) in_order_prepend by simp
    then show "labelGlob_mid (m # ms) s" using i(2) Cons by (simp add: labelGlob_mid_Cons)
  qed
qed simp

lemma glob_parts_in_order:
  "glob_parts (ms @ [z]) t \<Longrightarrow> in_order ms t \<and> HasSuffix t z"
proof (induction ms arbitrary: t)
  case (Cons m ms)
  obtain u v where uv: "t = m @ u @ v" "glob_parts (ms @ [z]) v"
    using Cons.prems by (cases ms) auto
  from Cons.IH [OF uv(2)] have "in_order ms (u @ v)" "HasSuffix v z"
    by (simp_all add: in_order_prepend)
  with uv(1) show ?case by (auto simp: HasSuffix_iff intro: exI [of _ "[]"])
qed (simp add: HasSuffix_iff)

lemma Split_star_parts:
  assumes "CHR ''*'' \<in> set p"
  obtains a ms z where "Split CHR ''*'' p = a # ms @ [z]"
proof -
  obtain u v where "p = u @ CHR ''*'' # v" using assms by (meson split_list)
  then have "Split CHR ''*'' p = Split CHR ''*'' u @ Split CHR ''*'' v" by (simp add: Split_append)
  moreover have "Split CHR ''*'' u \<noteq> []" "Split CHR ''*'' v \<noteq> []"
    by (metis Join_Split Split.simps(1) list.distinct(1) neq_Nil_conv Join.simps(1))+
  ultimately show thesis using that
    by (metis append_butlast_last_id append_Cons append.assoc neq_Nil_conv)
qed

lemma labelGlob_parts:
  "CHR ''*'' \<in> set p \<Longrightarrow> Split CHR ''*'' p = a # ms @ [z] \<Longrightarrow>
     labelGlob p l \<longleftrightarrow> HasPrefix l a \<and> HasSuffix l z \<and> in_order ms (drop (length a) l)"
  by (simp add: labelGlob_def labelGlob_mid_iff Let_def)

text \<open>Nothing that matches by the documented meaning is refused.\<close>

lemma glob_labelGlob: "glob p l \<Longrightarrow> labelGlob p l"
proof (cases "CHR ''*'' \<in> set p")
  case False
  assume "glob p l"
  with False show ?thesis by (simp add: glob_plain labelGlob_def)
next
  case True
  assume g: "glob p l"
  obtain a ms z where parts: "Split CHR ''*'' p = a # ms @ [z]" using Split_star_parts [OF True] .
  then obtain u t where ut: "l = a @ u @ t" "glob_parts (ms @ [z]) t"
    using g by (cases ms) (auto simp: glob_Split)
  then show ?thesis
    using glob_parts_in_order [OF ut(2)]
    by (auto simp: labelGlob_parts [OF True parts] HasPrefix_iff HasSuffix_iff in_order_prepend)
qed

text \<open>With a single star the converse holds too, unless the two ends overlap in the label.\<close>

lemma labelGlob_single_star:
  assumes "CHR ''*'' \<notin> set a \<union> set z" "length a + length z \<le> length l"
  shows "labelGlob (a @ CHR ''*'' # z) l \<longleftrightarrow> glob (a @ CHR ''*'' # z) l"
proof
  have parts: "Split CHR ''*'' (a @ CHR ''*'' # z) = a # [] @ [z]"
    using assms(1) by (simp add: Split_append)
  assume "labelGlob (a @ CHR ''*'' # z) l"
  then have "HasPrefix l a" "HasSuffix l z" by (simp_all add: labelGlob_parts [OF _ parts])
  then obtain t u where l: "l = a @ t" "l = u @ z" unfolding HasPrefix_iff HasSuffix_iff by blast
  then have "length z \<le> length t" using assms(2) by simp
  then obtain w where "t = w @ z" using l by (metis append_eq_append_conv_if length_append
        le_add1 suffix_def suffix_length_suffix suffixI)
  with l(1) show "glob (a @ CHR ''*'' # z) l" using assms(1)
    by (auto simp: glob_plain_append glob_star glob_plain)
qed (rule glob_labelGlob)

lemma labelGlob_star [simp]: "labelGlob ''*'' l"
  using labelGlob_single_star [of "[]" "[]" l] by (simp add: glob_star)

lemma labelGlob_plain: "CHR ''*'' \<notin> set p \<Longrightarrow> labelGlob p l \<longleftrightarrow> p = l"
  by (simp add: labelGlob_def)

lemma wildcardHostMatch_list_all2:
  "wildcardHostMatch pattern host \<longleftrightarrow> list_all2 labelGlob (Split CHR ''.'' pattern) (Split CHR ''.'' host)"
  by (auto simp: wildcardHostMatch_def Let_def list_all2_iff list_all_iff)

section \<open>Facts: entries\<close>

lemma entry_key_eq [simp]: "entry_key h p = entry_key h' p' \<longleftrightarrow> h = h' \<and> p = p'"
proof
  assume eq: "entry_key h p = entry_key h' p'"
  have no: "CHR '':'' \<notin> set (Itoa q)" for q using Itoa_no_sep by auto
  have "length h = length h'"
    using arg_cong [OF eq, of "\<lambda>s. LastIndexByte s CHR '':''"]
    by (simp add: entry_key_def LastIndexByte_append [OF no])
  with eq show "h = h' \<and> p = p'" by (simp add: entry_key_def Itoa_inj)
qed simp

lemma entry_key_suffix: "HasSuffix (entry_key h p) ('':'' @ Itoa port) \<longleftrightarrow> p = port"
proof
  assume "HasSuffix (entry_key h p) ('':'' @ Itoa port)"
  then obtain t where "entry_key h p = entry_key t port" by (auto simp: HasSuffix_iff entry_key_def)
  then show "p = port" by simp
qed (auto simp: HasSuffix_iff entry_key_def)

lemma entry_key_trim: "TrimSuffix (entry_key h port) ('':'' @ Itoa port) = h"
  using entry_key_suffix [of h port port] by (simp add: TrimSuffix_def) (simp add: entry_key_def)

lemma entry_key_star: "Contains (entry_key h p) ''*'' \<longleftrightarrow> CHR ''*'' \<in> set h"
  using Itoa_no_sep [of p] by (auto simp: Contains_star entry_key_def)

lemma IsAllowed_entries:
  assumes "eg_allowlist s = map (\<lambda>(h, p). entry_key h p) es"
  shows "IsAllowed host port s \<longleftrightarrow>
       (\<exists>h. (h, port) \<in> set es \<and> (h = host \<or> CHR ''*'' \<in> set h \<and> wildcardHostMatch h host))"
proof -
  let ?suf = "'':'' @ Itoa port"
  have exact: "entry_key host port \<in> set (eg_allowlist s) \<longleftrightarrow> (host, port) \<in> set es"
    unfolding assms by (auto simp: image_iff intro!: bexI)
  have "list_ex (\<lambda>e. Contains e ''*'' \<and> HasSuffix e ?suf \<and> wildcardHostMatch (TrimSuffix e ?suf) host)
      (eg_allowlist s)
    \<longleftrightarrow> (\<exists>x \<in> set es. CHR ''*'' \<in> set (fst x) \<and> snd x = port
         \<and> wildcardHostMatch (TrimSuffix (entry_key (fst x) (snd x)) ?suf) host)"
    unfolding assms list_ex_iff set_map bex_simps(7) case_prod_beta entry_key_star entry_key_suffix ..
  also have "\<dots> \<longleftrightarrow> (\<exists>h. (h, port) \<in> set es \<and> CHR ''*'' \<in> set h \<and> wildcardHostMatch h host)"
    using entry_key_trim by (auto simp del: append_Cons append_Nil intro!: bexI)
  finally show ?thesis unfolding IsAllowed_def Let_def exact by blast
qed

lemma bedrock_wildcard:
  "wildcardHostMatch ''bedrock-runtime.*.amazonaws.com'' host \<longleftrightarrow>
     (\<exists>region. CHR ''.'' \<notin> set region \<and> host = ''bedrock-runtime.'' @ region @ ''.amazonaws.com'')"
proof -
  have "Split CHR ''.'' host = [''bedrock-runtime'', region, ''amazonaws'', ''com''] \<longleftrightarrow>
      CHR ''.'' \<notin> set region \<and> host = ''bedrock-runtime.'' @ region @ ''.amazonaws.com''" for region
  proof
    assume s: "Split CHR ''.'' host = [''bedrock-runtime'', region, ''amazonaws'', ''com'']"
    from s show "CHR ''.'' \<notin> set region \<and> host = ''bedrock-runtime.'' @ region @ ''.amazonaws.com''"
      using Join_Split [of "CHR ''.''" host] Split_elem_no_sep [of region "CHR ''.''" host] by auto
  next
    assume h: "CHR ''.'' \<notin> set region \<and> host = ''bedrock-runtime.'' @ region @ ''.amazonaws.com''"
    then have "host = Join ''.'' [''bedrock-runtime'', region, ''amazonaws'', ''com'']" by simp
    moreover have "Split CHR ''.'' (Join ''.'' [''bedrock-runtime'', region, ''amazonaws'', ''com''])
        = [''bedrock-runtime'', region, ''amazonaws'', ''com'']"
      using h by (intro Split_Join) auto
    ultimately show "Split CHR ''.'' host = [''bedrock-runtime'', region, ''amazonaws'', ''com'']"
      by (simp only:)
  qed
  then show ?thesis by (auto simp: wildcardHostMatch_list_all2 list_all2_Cons1 labelGlob_plain)
qed

section \<open>The policy interface\<close>

text \<open>
  What the CONNECT proxy and the approval registry rely on: granting a destination allows it,
  revokes nothing, and writing the connection log changes no verdict.
\<close>

locale egress_policy =
  fixes allowed :: "string \<Rightarrow> int \<Rightarrow> 's \<Rightarrow> bool"
    and grant :: "string \<Rightarrow> int \<Rightarrow> 's \<Rightarrow> 's"
    and record_attempt :: "string \<Rightarrow> int \<Rightarrow> bool \<Rightarrow> 's \<Rightarrow> 's"
  assumes allowed_grant: "allowed h p (grant h p s)"
    and grant_mono: "allowed h' p' s \<Longrightarrow> allowed h' p' (grant h p s)"
    and allowed_record: "allowed h' p' (record_attempt h p v s) = allowed h' p' s"
begin

lemma grants_mono: "allowed h p s \<Longrightarrow> allowed h p (fold (\<lambda>(h, p). grant h p) ds s)"
  by (induction ds arbitrary: s) (auto simp: grant_mono)

lemma allowed_grants: "(h, p) \<in> set ds \<Longrightarrow> allowed h p (fold (\<lambda>(h, p). grant h p) ds s)"
  by (induction ds arbitrary: s) (auto simp: allowed_grant intro: grants_mono)

end

lemma AddToAllowlist_allowlist:
  "set (eg_allowlist (snd (AddToAllowlist fl marshal host port s)))
     = insert (entry_key host port) (set (eg_allowlist s))"
  by (auto simp: AddToAllowlist_def SetAllowlist_def load_entries_def GetAllowlist_def Let_def)

lemma IsAllowed_mono:
  "set (eg_allowlist s) \<subseteq> set (eg_allowlist s') \<Longrightarrow> IsAllowed host port s \<Longrightarrow> IsAllowed host port s'"
  by (auto simp: IsAllowed_def Let_def list_ex_iff)

lemma IsAllowed_cong:
  "set (eg_allowlist s) = set (eg_allowlist s') \<Longrightarrow> IsAllowed host port s = IsAllowed host port s'"
  using IsAllowed_mono by blast

lemma LogEntry_allowlist [simp]: "eg_allowlist (snd (LogEntry fl now d p v s)) = eg_allowlist s"
  by (simp add: LogEntry_def)

interpretation eg: egress_policy IsAllowed "\<lambda>h p s. snd (AddToAllowlist fl marshal h p s)"
  "\<lambda>h p v s. snd (LogEntry fl now h p v s)" for fl marshal now
proof unfold_locales
  show "IsAllowed h p (snd (AddToAllowlist fl marshal h p s))" for h p s
    by (simp add: IsAllowed_def Let_def AddToAllowlist_allowlist)
  show "IsAllowed h' p' (snd (AddToAllowlist fl marshal h p s))" if "IsAllowed h' p' s" for h' p' h p s
    using that by (rule IsAllowed_mono [rotated]) (auto simp: AddToAllowlist_allowlist)
  show "IsAllowed h' p' (snd (LogEntry fl now h p v s)) = IsAllowed h' p' s" for h' p' h p v s
    by (rule IsAllowed_cong) simp
qed

section \<open>AddToAllowlist as a thread\<close>

text \<open>
  The lock is released between marking the entry, taking the snapshot, saving it and installing
  it. \<open>add_step\<close> runs one such section of a call for the entry \<open>e\<close>.
\<close>

datatype add_pc = AddMark | AddSnapshot | AddSave "string list" | AddInstall "string list" | AddDone

fun add_step :: "marshal \<Rightarrow> string \<Rightarrow> add_pc \<times> egress_store \<Rightarrow> add_pc \<times> egress_store" where
  "add_step marshal e (AddMark, s) =
     (if e \<in> set (eg_allowlist s) then (AddDone, s)
      else (AddSnapshot, s\<lparr>eg_allowlist := eg_allowlist s @ [e]\<rparr>))"
| "add_step marshal e (AddSnapshot, s) = (AddSave (GetAllowlist s), s)"
| "add_step marshal e (AddSave cur, s) =
     (AddInstall cur, s\<lparr>eg_settings := (eg_settings s)(settingKey \<mapsto> marshal cur)\<rparr>)"
| "add_step marshal e (AddInstall cur, s) = (AddDone, load_entries cur s)"
| "add_step marshal e (AddDone, s) = (AddDone, s)"

definition no_egress_faults :: egress_faults where
  "no_egress_faults = (\<lambda>_. False)"

lemma add_alone:
  "((add_step marshal (entry_key h p)) ^^ 4) (AddMark, s)
     = (AddDone, snd (AddToAllowlist no_egress_faults marshal h p s))"
  by (simp add: numeral_eq_Suc AddToAllowlist_def SetAllowlist_def Let_def GetAllowlist_def
      load_entries_def no_egress_faults_def)

text \<open>Two calls under a schedule: \<open>True\<close> runs the next section of the first one.\<close>

fun two_adds :: "marshal \<Rightarrow> string \<Rightarrow> string \<Rightarrow> bool list \<Rightarrow> add_pc \<times> add_pc \<times> egress_store
    \<Rightarrow> add_pc \<times> add_pc \<times> egress_store" where
  "two_adds marshal e1 e2 [] st = st"
| "two_adds marshal e1 e2 (b # bs) (pc1, pc2, s) =
     two_adds marshal e1 e2 bs
       (if b then (case add_step marshal e1 (pc1, s) of (pc, s') \<Rightarrow> (pc, pc2, s'))
        else (case add_step marshal e2 (pc2, s) of (pc, s') \<Rightarrow> (pc1, pc, s')))"

section \<open>Properties\<close>


definition one_wildcard :: egress_store where
  "one_wildcard = \<lparr>eg_log = [], eg_next_id = 1, eg_settings = Map.empty,
     eg_allowlist = [entry_key ''*.example.org'' 443]\<rparr>"


text \<open>
  Out of the box the agent reaches five named hosts and the regional Bedrock endpoints on port
  443 and nothing else; the region is a single label, so a longer host that merely starts or ends
  alike is refused.
\<close>

theorem default_allowlist_exact:
  "IsAllowed host port (egress_NewStore fl unmarshal lg nxt Map.empty) \<longleftrightarrow>
     port = 443 \<and> (host \<in> {''api.anthropic.com'', ''api.openai.com'', ''proxy.golang.org'',
                             ''sum.golang.org'', ''registry.npmjs.org''}
        \<or> (\<exists>region. CHR ''.'' \<notin> set region \<and> host = ''bedrock-runtime.'' @ region @ ''.amazonaws.com''))"
proof -
  let ?hosts = "[''api.anthropic.com'', ''api.openai.com'', ''proxy.golang.org'', ''sum.golang.org'',
      ''registry.npmjs.org'', ''bedrock-runtime.*.amazonaws.com'']"
  have "eg_allowlist (egress_NewStore fl unmarshal lg nxt Map.empty)
      = map (\<lambda>(h, p). entry_key h p) (map (\<lambda>h. (h, 443)) ?hosts)"
    by (simp add: egress_NewStore_def reloadAllowlist_def load_entries_def Let_def) code_simp
  note iff = IsAllowed_entries [OF this]
  note w = bedrock_wildcard
  have port: "(\<exists>h. (h, port) \<in> set (map (\<lambda>h. (h, 443)) hs) \<and> Q h) \<longleftrightarrow> port = 443 \<and> (\<exists>h \<in> set hs. Q h)"
    for hs :: "string list" and Q by auto
  have stars: "filter (\<lambda>h. CHR ''*'' \<in> set h) ?hosts = [''bedrock-runtime.*.amazonaws.com'']" by simp
  have bex: "(\<exists>h \<in> set hs. h = host \<or> CHR ''*'' \<in> set h \<and> m h) \<longleftrightarrow>
      host \<in> set hs \<or> (\<exists>h \<in> set (filter (\<lambda>h. CHR ''*'' \<in> set h) hs). m h)"
    for hs :: "string list" and m by auto
  have star: "host = ''bedrock-runtime.*.amazonaws.com'' \<Longrightarrow>
      wildcardHostMatch ''bedrock-runtime.*.amazonaws.com'' host"
    unfolding w by (rule exI [of _ "''*''"]) simp
  have "host \<in> set hs \<longleftrightarrow> host \<in> set (butlast hs) \<or> host = last hs" if "hs \<noteq> []" for hs
    using that by (induction hs) auto
  note split = this [of ?hosts, OF list.distinct(2)]
  have last: "last ?hosts = ''bedrock-runtime.*.amazonaws.com''" by simp
  have "IsAllowed host port (egress_NewStore fl unmarshal lg nxt Map.empty) \<longleftrightarrow>
      port = 443 \<and> (host \<in> set ?hosts \<or> wildcardHostMatch ''bedrock-runtime.*.amazonaws.com'' host)"
    unfolding iff port bex stars by simp
  also have "\<dots> \<longleftrightarrow> port = 443 \<and> (host \<in> set (butlast ?hosts)
      \<or> wildcardHostMatch ''bedrock-runtime.*.amazonaws.com'' host)"
    unfolding split last using star by blast
  finally show ?thesis unfolding w by simp
qed

text \<open>
  Label matching against the documented meaning of the star. Whatever matches is accepted,
  and for a label with one star the answer is exact whenever the label is long enough to hold
  both fixed ends.
\<close>

theorem labelGlob_correct:
  "(glob p l \<longrightarrow> labelGlob p l)
   \<and> (\<forall>a z. p = a @ CHR ''*'' # z \<and> CHR ''*'' \<notin> set a \<union> set z \<and> length a + length z \<le> length l
        \<longrightarrow> (labelGlob p l \<longleftrightarrow> glob p l))"
  using glob_labelGlob labelGlob_single_star by blast

theorem labelGlob_correct_witness:
  "labelGlob ''api-*-eu'' ''api-7-eu'' \<and> \<not> labelGlob ''api-*-eu'' ''api-7-us''"
proof -
  have g: "glob ''api-*-eu'' ''api-7-eu''" "\<not> glob ''api-*-eu'' ''api-7-us''" by code_simp+
  have "\<exists>a z. ''api-*-eu'' = a @ CHR ''*'' # z \<and> CHR ''*'' \<notin> set a \<union> set z
      \<and> length a + length z \<le> length ''api-7-us''"
    by (intro exI [of _ "''api-''"] exI [of _ "''-eu''"]) simp
  with g show ?thesis
    using labelGlob_correct [of "''api-*-eu''" "''api-7-eu''"]
      labelGlob_correct [of "''api-*-eu''" "''api-7-us''"] by blast
qed

text \<open>
  The fixed ends of a pattern may overlap in the label, and a middle part may overlap the last
  one, so labels are accepted that the documented meaning refuses.
\<close>

theorem labelGlob_overlap:
  "labelGlob ''ab*ba'' ''aba'' \<and> \<not> glob ''ab*ba'' ''aba''
   \<and> labelGlob ''a*b*b'' ''axb'' \<and> \<not> glob ''a*b*b'' ''axb''"
  by code_simp

definition lines_marshal :: marshal where
  "lines_marshal es = ''['' @ Join [CHR 0x0A] es"

text \<open>
  One grant after the other never loses an entry, but two concurrent grants can: there is a
  schedule of the locked sections of two successful \<open>AddToAllowlist\<close> calls after which the second
  destination is missing from the map in memory and from the saved setting.
\<close>

theorem AddToAllowlist_lost_update:
  assumes "e1 \<noteq> e2" "e1 \<notin> set (eg_allowlist s)" "e2 \<notin> set (eg_allowlist s)"
    and "distinct (eg_allowlist s)"
  shows "(\<forall>ds h p. (h, p) \<in> set ds \<longrightarrow>
            IsAllowed h p (fold (\<lambda>(h, p) s. snd (AddToAllowlist fl marshal h p s)) ds s))
       \<and> (\<exists>sched s'. two_adds marshal e1 e2 sched (AddMark, AddMark, s) = (AddDone, AddDone, s')
            \<and> e2 \<notin> set (eg_allowlist s')
            \<and> eg_settings s' settingKey = Some (marshal (eg_allowlist s @ [e1])))"
proof (intro conjI allI impI)
  fix ds :: "(string \<times> int) list" and h p
  assume "(h, p) \<in> set ds"
  then show "IsAllowed h p (fold (\<lambda>(h, p) s. snd (AddToAllowlist fl marshal h p s)) ds s)"
    by (rule eg.allowed_grants)
next
  let ?sched = "[True, True, False, False, False, False, True, True]"
  have "\<exists>s'. two_adds marshal e1 e2 ?sched (AddMark, AddMark, s) = (AddDone, AddDone, s')
      \<and> e2 \<notin> set (eg_allowlist s')
      \<and> eg_settings s' settingKey = Some (marshal (eg_allowlist s @ [e1]))"
    using assms by (simp add: GetAllowlist_def load_entries_def)
  then show "\<exists>sched s'. two_adds marshal e1 e2 sched (AddMark, AddMark, s) = (AddDone, AddDone, s')
      \<and> e2 \<notin> set (eg_allowlist s')
      \<and> eg_settings s' settingKey = Some (marshal (eg_allowlist s @ [e1]))" by blast
qed

theorem AddToAllowlist_lost_update_witness:
  "\<exists>sched s'. two_adds lines_marshal ''a:1'' ''b:2'' sched (AddMark, AddMark, one_wildcard)
       = (AddDone, AddDone, s') \<and> ''b:2'' \<notin> set (eg_allowlist s')"
proof -
  have "''a:1'' \<notin> set (eg_allowlist one_wildcard)" "''b:2'' \<notin> set (eg_allowlist one_wildcard)"
    "distinct (eg_allowlist one_wildcard)" by code_simp+
  then show ?thesis
    using AddToAllowlist_lost_update [of "''a:1''" "''b:2''" one_wildcard no_egress_faults lines_marshal]
    by auto
qed

end
