(* ===== verification/Egress_Pending.thy ===== *)
theory Egress_Pending
  imports Egress_Store Go_Http
begin

text \<open>
  Approval of blocked destinations (\<^verbatim>\<open>internal/egress/pending.go\<close> and the agent-facing handler of
  \<^verbatim>\<open>internal/egress/listener.go\<close>). A request carries a channel of capacity one on which exactly one
  verdict is to be delivered. The operations are functions on the registry state; sending on a
  full or closed channel, or closing a closed one, is \<open>None\<close> (it would block or panic). The
  registry lock covers only parts of \<open>Resolve\<close>, so concurrent behaviour is a step relation over
  the locked and unlocked sections of resolvers and waiting handlers.
\<close>

section \<open>State\<close>

record pending_request =
  pr_ID :: string
  pr_Host :: string
  pr_Port :: int
  pr_Reason :: string
  pr_CreatedAt :: instant
  pr_done :: nat

record pchan =
  ch_buf :: "bool list"
  ch_closed :: bool

text \<open>
  Channels are numbered in the order of their creation. Two fields only record history and
  influence no operation: \<open>pd_added\<close>, the requests in the order of their channels, and \<open>pd_sent\<close>,
  every value ever sent.
\<close>

record pending_state =
  pd_requests :: "string \<rightharpoonup> pending_request"
  pd_chans :: "pchan list"
  pd_store :: egress_store
  pd_added :: "pending_request list"
  pd_sent :: "(nat \<times> bool) list"

definition pendingTimeout :: duration where
  "pendingTimeout = 60 * second"

definition NewPendingRegistry :: "egress_store \<Rightarrow> pending_state" where
  "NewPendingRegistry store =
     \<lparr>pd_requests = Map.empty, pd_chans = [], pd_store = store, pd_added = [], pd_sent = []\<rparr>"

section \<open>Channels\<close>

definition chan_send :: "nat \<Rightarrow> bool \<Rightarrow> pending_state \<Rightarrow> pending_state option" where
  "chan_send c v st =
     (let ch = pd_chans st ! c in
      if ch_closed ch \<or> length (ch_buf ch) \<ge> 1 then None
      else Some (st\<lparr>pd_chans := (pd_chans st)[c := ch\<lparr>ch_buf := ch_buf ch @ [v]\<rparr>],
                    pd_sent := pd_sent st @ [(c, v)]\<rparr>))"

definition chan_close :: "nat \<Rightarrow> pending_state \<Rightarrow> pending_state option" where
  "chan_close c st =
     (let ch = pd_chans st ! c in
      if ch_closed ch then None
      else Some (st\<lparr>pd_chans := (pd_chans st)[c := ch\<lparr>ch_closed := True\<rparr>]\<rparr>))"

text \<open>The non-blocking send of the clean-up: a full buffer is skipped.\<close>

definition chan_try_send :: "nat \<Rightarrow> bool \<Rightarrow> pending_state \<Rightarrow> pending_state option" where
  "chan_try_send c v st =
     (if ch_closed (pd_chans st ! c) then None
      else if length (ch_buf (pd_chans st ! c)) \<ge> 1 then Some st
      else chan_send c v st)"

section \<open>Operations\<close>

definition randomID :: "byte list \<Rightarrow> string" where
  "randomID b = hex_EncodeToString b"

definition pend_Add ::
  "byte list \<Rightarrow> instant \<Rightarrow> string \<Rightarrow> int \<Rightarrow> string \<Rightarrow> pending_state \<Rightarrow> pending_request \<times> pending_state" where
  "pend_Add rnd now host port reason st =
     (let req = \<lparr>pr_ID = randomID rnd, pr_Host = host, pr_Port = port, pr_Reason = reason,
                 pr_CreatedAt = now, pr_done = length (pd_chans st)\<rparr>
      in (req, st\<lparr>pd_requests := (pd_requests st)(randomID rnd \<mapsto> req),
                  pd_chans := pd_chans st @ [\<lparr>ch_buf = [], ch_closed = False\<rparr>],
                  pd_added := pd_added st @ [req]\<rparr>))"

text \<open>The locked section of \<open>Resolve\<close>.\<close>

definition pend_take :: "string \<Rightarrow> pending_state \<Rightarrow> (pending_request \<times> pending_state) option" where
  "pend_take rid st =
     map_option (\<lambda>req. (req, st\<lparr>pd_requests := (pd_requests st)(rid := None)\<rparr>)) (pd_requests st rid)"

definition pend_grant ::
  "egress_faults \<Rightarrow> marshal \<Rightarrow> pending_request \<Rightarrow> pending_state \<Rightarrow> pending_state" where
  "pend_grant fl marshal req st =
     st\<lparr>pd_store := snd (AddToAllowlist fl marshal (pr_Host req) (pr_Port req) (pd_store st))\<rparr>"

text \<open>\<open>Resolve\<close>, run without interference: whether the request was found, and the state.\<close>

definition pend_Resolve ::
  "egress_faults \<Rightarrow> marshal \<Rightarrow> string \<Rightarrow> bool \<Rightarrow> pending_state \<Rightarrow> (bool \<times> pending_state) option" where
  "pend_Resolve fl marshal rid approved st =
     (case pend_take rid st of
        None \<Rightarrow> Some (False, st)
      | Some (req, st1) \<Rightarrow>
          let st2 = (if approved then pend_grant fl marshal req st1 else st1) in
          Option.bind (chan_send (pr_done req) approved st2) (\<lambda>st3.
            map_option (\<lambda>st4. (True, st4)) (chan_close (pr_done req) st3)))"

definition pend_expired :: "instant \<Rightarrow> pending_request \<Rightarrow> bool" where
  "pend_expired now req \<longleftrightarrow> pr_CreatedAt req < now - pendingTimeout"

text \<open>
  The clean-up visits the entries of the map in some order \<open>ids\<close>; the whole loop runs under the
  lock.
\<close>

fun pend_cleanup :: "instant \<Rightarrow> string list \<Rightarrow> pending_state \<Rightarrow> pending_state option" where
  "pend_cleanup now [] st = Some st"
| "pend_cleanup now (rid # ids) st =
     (case pd_requests st rid of
        None \<Rightarrow> pend_cleanup now ids st
      | Some req \<Rightarrow>
          if pend_expired now req then
            Option.bind (chan_try_send (pr_done req) False st) (\<lambda>st1.
            Option.bind (chan_close (pr_done req) st1) (\<lambda>st2.
              pend_cleanup now ids (st2\<lparr>pd_requests := (pd_requests st2)(rid := None)\<rparr>)))
          else pend_cleanup now ids st)"

definition pend_List ::
  "instant \<Rightarrow> string list \<Rightarrow> pending_state \<Rightarrow> (pending_request list \<times> pending_state) option" where
  "pend_List now ids st =
     map_option (\<lambda>st'. (concat (map (\<lambda>i. case pd_requests st' i of Some r \<Rightarrow> [r] | None \<Rightarrow> []) ids), st'))
       (pend_cleanup now ids st)"

section \<open>The agent-facing handler\<close>

text \<open>The decoded body, \<open>None\<close> if it is not JSON; the guard before a request is registered.\<close>

definition egress_request_guard ::
  "(string \<times> int \<times> string) option \<Rightarrow> (string \<times> int, string \<times> int \<times> string) result" where
  "egress_request_guard body =
     (case body of
        None \<Rightarrow> Err (''invalid JSON'', 400)
      | Some (host, port, reason) \<Rightarrow>
          if host = [] \<or> port = 0 then Err (''host and port are required'', 400)
          else Ok (host, port, reason))"

definition egress_reply :: "bool \<Rightarrow> bool \<Rightarrow> http_response \<Rightarrow> http_response" where
  "egress_reply allowed timeout w =
     write_body (set_header w ''Content-Type'' ''application/json'')
       (JsonBody (JObj [(''allowed'', JBool allowed), (''timeout'', JBool timeout)]))"

section \<open>Concurrent behaviour\<close>

text \<open>
  A resolver that has taken a request still has to grant, send and close. A handler waits for its
  channel or the timer; on the timer it resolves the request itself, as resolver number \<open>k\<close>, and then answers.
\<close>

datatype resolver = RGrant pending_request | RSend pending_request bool | RClose pending_request | RDone

datatype waiter =
    Waiting string nat
  | TimedOut string
  | TimerResolving nat
  | Answered bool bool

record pending_sys =
  ps_reg :: pending_state
  ps_resolvers :: "resolver list"
  ps_waiters :: "waiter list"

definition after_take :: "pending_request \<Rightarrow> bool \<Rightarrow> resolver" where
  "after_take req approved = (if approved then RGrant req else RSend req False)"

inductive resolver_step ::
  "egress_faults \<Rightarrow> marshal \<Rightarrow> resolver \<Rightarrow> pending_state \<Rightarrow> resolver \<Rightarrow> pending_state \<Rightarrow> bool"
  for fl marshal where
  grant: "resolver_step fl marshal (RGrant req) st (RSend req True) (pend_grant fl marshal req st)"
| send: "chan_send (pr_done req) v st = Some st' \<Longrightarrow>
     resolver_step fl marshal (RSend req v) st (RClose req) st'"
| close: "chan_close (pr_done req) st = Some st' \<Longrightarrow>
     resolver_step fl marshal (RClose req) st RDone st'"

inductive pend_step :: "egress_faults \<Rightarrow> marshal \<Rightarrow> pending_sys \<Rightarrow> pending_sys \<Rightarrow> bool"
  for fl marshal where
  add: "pd_requests (ps_reg s) (randomID rnd) = None \<Longrightarrow>
        pend_Add rnd now host port reason (ps_reg s) = (req, st') \<Longrightarrow>
        pend_step fl marshal s
          (s\<lparr>ps_reg := st', ps_waiters := ps_waiters s @ [Waiting (pr_ID req) (pr_done req)]\<rparr>)"
| resolve: "pend_take rid (ps_reg s) = Some (req, st') \<Longrightarrow>
        pend_step fl marshal s
          (s\<lparr>ps_reg := st', ps_resolvers := ps_resolvers s @ [after_take req approved]\<rparr>)"
| resolver: "i < length (ps_resolvers s) \<Longrightarrow>
        resolver_step fl marshal (ps_resolvers s ! i) (ps_reg s) r' st' \<Longrightarrow>
        pend_step fl marshal s (s\<lparr>ps_reg := st', ps_resolvers := (ps_resolvers s)[i := r']\<rparr>)"
| cleanup: "pend_cleanup now ids (ps_reg s) = Some st' \<Longrightarrow>
        pend_step fl marshal s (s\<lparr>ps_reg := st'\<rparr>)"
| recv: "i < length (ps_waiters s) \<Longrightarrow> ps_waiters s ! i = Waiting rid c \<Longrightarrow>
        ch_buf (pd_chans (ps_reg s) ! c) = v # rest \<Longrightarrow>
        pend_step fl marshal s
          (s\<lparr>ps_reg := (ps_reg s)\<lparr>pd_chans := (pd_chans (ps_reg s))[c :=
                           (pd_chans (ps_reg s) ! c)\<lparr>ch_buf := rest\<rparr>]\<rparr>,
             ps_waiters := (ps_waiters s)[i := Answered v False]\<rparr>)"
| recv_closed: "i < length (ps_waiters s) \<Longrightarrow> ps_waiters s ! i = Waiting rid c \<Longrightarrow>
        ch_buf (pd_chans (ps_reg s) ! c) = [] \<Longrightarrow> ch_closed (pd_chans (ps_reg s) ! c) \<Longrightarrow>
        pend_step fl marshal s (s\<lparr>ps_waiters := (ps_waiters s)[i := Answered False False]\<rparr>)"
| timer: "i < length (ps_waiters s) \<Longrightarrow> ps_waiters s ! i = Waiting rid c \<Longrightarrow>
        pend_step fl marshal s (s\<lparr>ps_waiters := (ps_waiters s)[i := TimedOut rid]\<rparr>)"
| timer_take: "i < length (ps_waiters s) \<Longrightarrow> ps_waiters s ! i = TimedOut rid \<Longrightarrow>
        pend_take rid (ps_reg s) = Some (req, st') \<Longrightarrow>
        pend_step fl marshal s
          (s\<lparr>ps_reg := st', ps_resolvers := ps_resolvers s @ [after_take req False],
             ps_waiters := (ps_waiters s)[i := TimerResolving (length (ps_resolvers s))]\<rparr>)"
| timer_gone: "i < length (ps_waiters s) \<Longrightarrow> ps_waiters s ! i = TimedOut rid \<Longrightarrow>
        pend_take rid (ps_reg s) = None \<Longrightarrow>
        pend_step fl marshal s (s\<lparr>ps_waiters := (ps_waiters s)[i := Answered False True]\<rparr>)"
| timer_done: "i < length (ps_waiters s) \<Longrightarrow> ps_waiters s ! i = TimerResolving k \<Longrightarrow>
        ps_resolvers s ! k = RDone \<Longrightarrow>
        pend_step fl marshal s (s\<lparr>ps_waiters := (ps_waiters s)[i := Answered False True]\<rparr>)"

definition pend_init :: "egress_store \<Rightarrow> pending_sys" where
  "pend_init store = \<lparr>ps_reg = NewPendingRegistry store, ps_resolvers = [], ps_waiters = []\<rparr>"

inductive pend_reachable :: "egress_faults \<Rightarrow> marshal \<Rightarrow> egress_store \<Rightarrow> pending_sys \<Rightarrow> bool"
  for fl marshal store where
  init: "pend_reachable fl marshal store (pend_init store)"
| step: "pend_reachable fl marshal store s \<Longrightarrow> pend_step fl marshal s s' \<Longrightarrow>
         pend_reachable fl marshal store s'"

section \<open>Invariant\<close>

text \<open>The channel a resolver still has to work on.\<close>

fun res_chan :: "resolver \<Rightarrow> nat option" where
  "res_chan (RGrant req) = Some (pr_done req)"
| "res_chan (RSend req v) = Some (pr_done req)"
| "res_chan (RClose req) = Some (pr_done req)"
| "res_chan RDone = None"

definition chan_open :: "pending_state \<Rightarrow> nat \<Rightarrow> bool" where
  "chan_open st c \<longleftrightarrow> c < length (pd_chans st) \<and> \<not> ch_closed (pd_chans st ! c)"

definition sent_chans :: "pending_state \<Rightarrow> nat list" where
  "sent_chans st = map fst (pd_sent st)"

text \<open>No verdict has been sent for the request yet, and its channel is open.\<close>

definition undecided :: "pending_state \<Rightarrow> pending_request \<Rightarrow> bool" where
  "undecided st req \<longleftrightarrow> chan_open st (pr_done req) \<and> pr_done req \<notin> set (sent_chans st)
     \<and> pd_added st ! pr_done req = req"

definition granted :: "pending_state \<Rightarrow> pending_request \<Rightarrow> bool" where
  "granted st req \<longleftrightarrow> IsAllowed (pr_Host req) (pr_Port req) (pd_store st)"

fun res_ok :: "pending_state \<Rightarrow> resolver \<Rightarrow> bool" where
  "res_ok st (RGrant req) \<longleftrightarrow> undecided st req"
| "res_ok st (RSend req v) \<longleftrightarrow> undecided st req \<and> (v \<longrightarrow> granted st req)"
| "res_ok st (RClose req) \<longleftrightarrow> chan_open st (pr_done req)"
| "res_ok st RDone \<longleftrightarrow> True"

definition hist_ok :: "pending_state \<Rightarrow> bool" where
  "hist_ok st \<longleftrightarrow> distinct (sent_chans st)
     \<and> (\<forall>c \<in> set (sent_chans st). c < length (pd_chans st))
     \<and> length (pd_added st) = length (pd_chans st)
     \<and> (\<forall>c < length (pd_chans st). c \<notin> set (sent_chans st) \<longrightarrow> ch_buf (pd_chans st ! c) = [])
     \<and> (\<forall>c. (c, True) \<in> set (pd_sent st) \<longrightarrow> granted st (pd_added st ! c))"

definition reg_ok :: "pending_state \<Rightarrow> bool" where
  "reg_ok st \<longleftrightarrow> hist_ok st
     \<and> (\<forall>rid req. pd_requests st rid = Some req \<longrightarrow> pr_ID req = rid \<and> undecided st req)
     \<and> (\<forall>rid req rid' req'. pd_requests st rid = Some req \<longrightarrow> pd_requests st rid' = Some req' \<longrightarrow>
          pr_done req = pr_done req' \<longrightarrow> rid = rid')"

definition own_ok :: "pending_state \<Rightarrow> resolver list \<Rightarrow> bool" where
  "own_ok st rs \<longleftrightarrow> (\<forall>r \<in> set rs. res_ok st r)
     \<and> (\<forall>i < length rs. \<forall>j < length rs. i \<noteq> j \<longrightarrow> res_chan (rs ! i) \<noteq> None \<longrightarrow>
          res_chan (rs ! i) \<noteq> res_chan (rs ! j))
     \<and> (\<forall>r \<in> set rs. \<forall>rid req. pd_requests st rid = Some req \<longrightarrow> res_chan r \<noteq> Some (pr_done req))"

definition pend_inv :: "pending_sys \<Rightarrow> bool" where
  "pend_inv s \<longleftrightarrow> reg_ok (ps_reg s) \<and> own_ok (ps_reg s) (ps_resolvers s)"

lemma sent_chans_update [simp]:
  "sent_chans (st\<lparr>pd_chans := cs\<rparr>) = sent_chans st"
  "sent_chans (st\<lparr>pd_requests := m\<rparr>) = sent_chans st"
  "sent_chans (st\<lparr>pd_store := es\<rparr>) = sent_chans st"
  "sent_chans (st\<lparr>pd_added := ad\<rparr>) = sent_chans st"
  "sent_chans (st\<lparr>pd_sent := l @ [(c, v)]\<rparr>) = map fst l @ [c]"
  by (simp_all add: sent_chans_def)

lemma sent_chans_fold: "map fst (pd_sent st) = sent_chans st"
  by (simp add: sent_chans_def)

lemmas pend_defs = undecided_def granted_def chan_open_def hist_ok_def reg_ok_def own_ok_def

text \<open>An undecided channel is empty, so sending on it neither blocks nor panics.\<close>

lemma undecided_send:
  assumes "hist_ok st" "undecided st req"
  shows "chan_send (pr_done req) v st =
    Some (st\<lparr>pd_chans := (pd_chans st)[pr_done req := (pd_chans st ! pr_done req)\<lparr>ch_buf := [v]\<rparr>],
             pd_sent := pd_sent st @ [(pr_done req, v)]\<rparr>)"
  using assms by (auto simp: chan_send_def Let_def pend_defs)

lemma open_close:
  "chan_open st c \<Longrightarrow> chan_close c st =
     Some (st\<lparr>pd_chans := (pd_chans st)[c := (pd_chans st ! c)\<lparr>ch_closed := True\<rparr>]\<rparr>)"
  by (simp add: chan_close_def chan_open_def Let_def)

lemma hist_ok_send:
  assumes "hist_ok st" "undecided st req" "v \<Longrightarrow> granted st req" "chan_send (pr_done req) v st = Some st'"
  shows "hist_ok st'"
  using assms undecided_send [OF assms(1,2), of v]
  by (auto simp: hist_ok_def undecided_def chan_open_def granted_def nth_update_if sent_chans_fold)

lemma hist_ok_close:
  "hist_ok st \<Longrightarrow> chan_close c st = Some st' \<Longrightarrow> hist_ok st'"
  by (auto simp: hist_ok_def chan_close_def Let_def granted_def nth_update_if split: if_splits)

text \<open>Sending to and closing a channel touches no request with another channel.\<close>

lemma undecided_send_other:
  "chan_send c v st = Some st' \<Longrightarrow> pr_done req \<noteq> c \<Longrightarrow> undecided st' req = undecided st req"
  by (auto simp: chan_send_def Let_def undecided_def chan_open_def sent_chans_fold split: if_splits)

lemma undecided_close_other:
  "chan_close c st = Some st' \<Longrightarrow> pr_done req \<noteq> c \<Longrightarrow> undecided st' req = undecided st req"
  by (auto simp: chan_close_def Let_def undecided_def chan_open_def split: if_splits)

lemma res_ok_send_other:
  "chan_send c v st = Some st' \<Longrightarrow> res_chan r \<noteq> Some c \<Longrightarrow> res_ok st' r = res_ok st r"
  by (cases r) (auto simp: undecided_send_other, auto simp: chan_send_def Let_def chan_open_def granted_def split: if_splits)

lemma res_ok_close_other:
  "chan_close c st = Some st' \<Longrightarrow> res_chan r \<noteq> Some c \<Longrightarrow> res_ok st' r = res_ok st r"
  by (cases r) (auto simp: undecided_close_other, auto simp: chan_close_def Let_def chan_open_def granted_def split: if_splits)

lemma chan_ops_requests:
  "chan_send c v st = Some st' \<Longrightarrow> pd_requests st' = pd_requests st"
  "chan_close c st = Some st' \<Longrightarrow> pd_requests st' = pd_requests st"
  by (auto simp: chan_send_def chan_close_def Let_def split: if_splits)

lemma chan_open_send: "chan_send c v st = Some st' \<Longrightarrow> chan_open st' = chan_open st"
  by (auto simp: chan_send_def Let_def chan_open_def nth_update_if fun_eq_iff split: if_splits)

lemma granted_ops:
  "chan_send c v st = Some st' \<Longrightarrow> granted st' req = granted st req"
  "chan_close c st = Some st' \<Longrightarrow> granted st' req = granted st req"
  by (auto simp: granted_def chan_send_def chan_close_def Let_def split: if_splits)

text \<open>Adding a request with a new identifier.\<close>

lemma undecided_add:
  "hist_ok st \<Longrightarrow> pend_Add rnd now host port reason st = (req, st') \<Longrightarrow>
     undecided st' req \<and> (\<forall>req'. undecided st req' \<longrightarrow> undecided st' req' \<and> pr_done req' \<noteq> pr_done req)"
  by (auto simp: pend_Add_def Let_def undecided_def chan_open_def hist_ok_def nth_append)

lemma hist_ok_add:
  "hist_ok st \<Longrightarrow> pend_Add rnd now host port reason st = (req, st') \<Longrightarrow> hist_ok st'"
proof -
  assume st: "hist_ok st" and "pend_Add rnd now host port reason st = (req, st')"
  moreover have "c < length (pd_added st)" if "(c, True) \<in> set (pd_sent st)" for c
    using st that by (force simp: hist_ok_def sent_chans_def)
  ultimately show ?thesis
    by (auto simp: pend_Add_def Let_def hist_ok_def granted_def nth_append less_Suc_eq)
qed

lemma add_inv:
  assumes "reg_ok st" "own_ok st rs" "pd_requests st (randomID rnd) = None"
    "pend_Add rnd now host port reason st = (req, st')"
  shows "reg_ok st' \<and> own_ok st' rs"
proof -
  have h: "hist_ok st" "hist_ok st'" using assms(1,4) hist_ok_add by (auto simp: reg_ok_def)
  note u = undecided_add [OF h(1) assms(4)]
  have req: "pd_requests st' = (pd_requests st)(pr_ID req \<mapsto> req)" "pr_ID req = randomID rnd"
    "pr_done req = length (pd_chans st)" "granted st' = granted st"
    "\<And>c. chan_open st c \<Longrightarrow> chan_open st' c"
    using assms(4) by (auto simp: pend_Add_def Let_def granted_def chan_open_def nth_append fun_eq_iff)
  have ro: "res_ok st r \<Longrightarrow> res_ok st' r \<and> res_chan r \<noteq> Some (pr_done req)" for r
    using u req by (cases r) (auto simp: chan_open_def)
  have "reg_ok st'"
    using assms(1,3) h(2) u req(1,2) unfolding reg_ok_def by (auto split: if_splits) blast+
  moreover have "own_ok st' rs"
    using assms(2) ro req(1) unfolding own_ok_def by auto
  ultimately show ?thesis ..
qed

text \<open>Taking a request out of the map hands its channel to the resolver.\<close>

lemma take_inv:
  assumes "reg_ok st" "own_ok st rs" "pend_take rid st = Some (req, st')"
  shows "reg_ok st' \<and> own_ok st' (rs @ [after_take req approved])"
proof -
  have req: "pd_requests st rid = Some req" and st': "st' = st\<lparr>pd_requests := (pd_requests st)(rid := None)\<rparr>"
    using assms(3) by (auto simp: pend_take_def)
  have same1: "undecided st' = undecided st" "hist_ok st' = hist_ok st" "granted st' = granted st"
    "chan_open st' = chan_open st"
    unfolding st' by (auto simp: undecided_def hist_ok_def granted_def chan_open_def fun_eq_iff)
  then have "res_ok st' r = res_ok st r" for r by (cases r) auto
  note same = same1 this
  have u: "undecided st req" using assms(1) req by (auto simp: reg_ok_def)
  have reg: "reg_ok st'" using assms(1) unfolding reg_ok_def same by (auto simp: st')
  have at: "res_ok st (after_take req approved)" "res_chan (after_take req approved) = Some (pr_done req)"
    using u by (auto simp: after_take_def)
  have new: "\<forall>r \<in> set rs. res_chan r \<noteq> Some (pr_done req)" using assms(2) req by (auto simp: own_ok_def)
  have other: "pr_done req' \<noteq> pr_done req" if "pd_requests st' rid' = Some req'" for rid' req'
    using assms(1) req that unfolding reg_ok_def st' by (auto split: if_splits)
  have "\<forall>r \<in> set (rs @ [after_take req approved]). res_ok st' r"
    using assms(2) at same by (auto simp: own_ok_def)
  moreover have "res_chan ((rs @ [after_take req approved]) ! i) \<noteq> res_chan ((rs @ [after_take req approved]) ! j)"
    if "i < length (rs @ [after_take req approved])" "j < length (rs @ [after_take req approved])" "i \<noteq> j"
      "res_chan ((rs @ [after_take req approved]) ! i) \<noteq> None" for i j
  proof (cases "i < length rs \<and> j < length rs")
    case True
    then show ?thesis using assms(2) that by (auto simp: own_ok_def nth_append)
  next
    case False
    with that consider "i = length rs" "j < length rs" | "j = length rs" "i < length rs" by fastforce
    then show ?thesis
      by cases (simp_all add: nth_append at(2) new [rule_format, OF nth_mem]
          new [rule_format, OF nth_mem, symmetric])
  qed
  moreover have "res_chan r \<noteq> Some (pr_done req')"
    if "r \<in> set (rs @ [after_take req approved])" "pd_requests st' rid' = Some req'" for r rid' req'
  proof -
    have "pd_requests st rid' = Some req'" using that(2) by (auto simp: st' split: if_splits)
    then show ?thesis using that(1) other [OF that(2)] at(2) assms(2) by (auto simp: own_ok_def)
  qed
  ultimately show ?thesis using reg unfolding own_ok_def by blast
qed

text \<open>
  A resolver's section keeps the registry when it keeps what the others rely on and does not
  take over another channel.
\<close>

lemma resolver_frame:
  assumes "reg_ok st" "own_ok st rs" "i < length rs" "hist_ok st'" "pd_requests st' = pd_requests st"
    and und: "\<And>req. undecided st req \<Longrightarrow> res_chan (rs ! i) \<noteq> Some (pr_done req) \<Longrightarrow> undecided st' req"
    and res: "\<And>r. res_ok st r \<Longrightarrow> res_chan r = None \<or> res_chan r \<noteq> res_chan (rs ! i) \<Longrightarrow> res_ok st' r"
    and own': "res_ok st' r'" and ch: "res_chan r' = res_chan (rs ! i) \<or> res_chan r' = None"
  shows "reg_ok st' \<and> own_ok st' (rs[i := r'])"
proof
  have own: "res_chan (rs ! i) \<noteq> Some (pr_done req)" if "pd_requests st rid = Some req" for rid req
    using assms(2,3) that by (auto simp: own_ok_def)
  show "reg_ok st'" using assms(1,4,5) und own unfolding reg_ok_def by auto
  have "res_ok st' (rs ! j)" if "j < length rs" "j \<noteq> i" for j
    using assms(2,3) that res unfolding own_ok_def by (metis nth_mem)
  then have "\<forall>r \<in> set (rs[i := r']). res_ok st' r"
    using own' by (auto simp: in_set_conv_nth nth_update_if)
  moreover have pw: "\<not> (res_chan (rs ! j) = Some y \<and> res_chan (rs ! k) = Some y)"
    if "j < length rs" "k < length rs" "j \<noteq> k" for j k y
    using assms(2) that unfolding own_ok_def by (metis option.distinct(1))
  have "res_chan (rs[i := r'] ! j) \<noteq> res_chan (rs[i := r'] ! k)"
    if "j < length rs" "k < length rs" "j \<noteq> k" "res_chan (rs[i := r'] ! j) \<noteq> None" for j k
    using pw [of j k] that assms(3) ch by (auto simp: nth_update_if split: if_splits) blast
  then have "\<forall>j < length rs. \<forall>k < length rs. j \<noteq> k \<longrightarrow> res_chan (rs[i := r'] ! j) \<noteq> None \<longrightarrow>
      res_chan (rs[i := r'] ! j) \<noteq> res_chan (rs[i := r'] ! k)" by blast
  moreover have "\<forall>r \<in> set (rs[i := r']). \<forall>rid req. pd_requests st' rid = Some req \<longrightarrow>
      res_chan r \<noteq> Some (pr_done req)"
    using assms(2,5) ch own by (auto simp: own_ok_def dest!: set_update_subset_insert [THEN subsetD])
  ultimately show "own_ok st' (rs[i := r'])" unfolding own_ok_def by simp
qed

text \<open>One section of a resolver.\<close>

lemma resolver_inv:
  assumes "reg_ok st" "own_ok st rs" "i < length rs" "resolver_step fl marshal (rs ! i) st r' st'"
  shows "reg_ok st' \<and> own_ok st' (rs[i := r'])"
proof -
  have ok: "res_ok st (rs ! i)" and hist: "hist_ok st" using assms(1-3) by (auto simp: own_ok_def reg_ok_def)
  note frame = resolver_frame [OF assms(1-3)]
  from assms(4) show ?thesis
  proof (cases rule: resolver_step.cases)
    case (grant req)
    note 1 = grant
    have g: "granted st' req" "\<And>req'. granted st req' \<Longrightarrow> granted st' req'"
      unfolding 1 granted_def pend_grant_def
      by (simp_all add: eg.allowed_grant eg.grant_mono)
    have same: "undecided st' = undecided st" "chan_open st' = chan_open st"
      unfolding 1 pend_grant_def by (auto simp: undecided_def chan_open_def fun_eq_iff)
    have "hist_ok st'" using hist g(2) unfolding hist_ok_def 1 pend_grant_def by simp
    moreover have "res_ok st r \<Longrightarrow> res_ok st' r" for r using g(2) same by (cases r) auto
    ultimately show ?thesis using ok g(1) same 1
      by (intro frame) (auto simp: pend_grant_def)
  next
    case (send req v)
    note 2 = send
    have u: "undecided st req" "v \<longrightarrow> granted st req" using ok 2(1) by auto
    show ?thesis
    proof (rule frame)
      show "hist_ok st'" using hist_ok_send [OF hist u(1) _ 2(3)] u(2) by blast
      show "res_ok st' r'" using u(1) chan_open_send [OF 2(3)] 2(2) by (simp add: undecided_def)
    qed (use 2 undecided_send_other [OF 2(3)] res_ok_send_other [OF 2(3)] chan_ops_requests(1) [OF 2(3)]
        in auto)
  next
    case (close req)
    note 3 = close
    show ?thesis
    proof (rule frame)
      show "hist_ok st'" by (rule hist_ok_close [OF hist 3(3)])
    qed (use 3 undecided_close_other [OF 3(3)] res_ok_close_other [OF 3(3)] chan_ops_requests(2) [OF 3(3)]
        in auto)
  qed
qed

lemma own_ok_front: "own_ok st (rs @ [r]) \<Longrightarrow> own_ok st rs"
proof -
  assume own: "own_ok st (rs @ [r])"
  have "res_chan (rs ! i) \<noteq> res_chan (rs ! j)"
    if "i < length rs" "j < length rs" "i \<noteq> j" "res_chan (rs ! i) \<noteq> None" for i j
    using own that unfolding own_ok_def by (metis length_append less_SucI length_append_singleton nth_append_left)
  then show ?thesis using own unfolding own_ok_def by auto
qed

text \<open>The clean-up loop runs to its end and keeps the invariant.\<close>

lemma cleanup_one:
  assumes "reg_ok st" "own_ok st rs" "pd_requests st rid = Some req"
  shows "\<exists>st1 st2. chan_try_send (pr_done req) False st = Some st1 \<and> chan_close (pr_done req) st1 = Some st2
     \<and> reg_ok (st2\<lparr>pd_requests := (pd_requests st2)(rid := None)\<rparr>)
     \<and> own_ok (st2\<lparr>pd_requests := (pd_requests st2)(rid := None)\<rparr>) rs"
proof -
  let ?c = "pr_done req" and ?rs = "rs @ [RSend req False]" and ?n = "length rs"
  obtain t where t: "pend_take rid st = Some (req, t)" "t = st\<lparr>pd_requests := (pd_requests st)(rid := None)\<rparr>"
    using assms(3) by (simp add: pend_take_def)
  have inv: "reg_ok t" "own_ok t ?rs"
    using take_inv [OF assms(1,2) t(1), of False] by (simp_all add: after_take_def)
  have u: "hist_ok t" "undecided t req" using inv by (auto simp: reg_ok_def own_ok_def)
  obtain t1 where s1: "chan_send ?c False t = Some t1" using undecided_send [OF u] by blast
  have "resolver_step ok_fl marsh (?rs ! ?n) t (RClose req) t1" for ok_fl marsh
    using s1 by (simp add: resolver_step.send)
  from resolver_inv [OF inv _ this] have inv1: "reg_ok t1" "own_ok t1 (rs @ [RClose req])" by simp_all
  have "chan_open t1 ?c" using inv1(2) by (auto simp: own_ok_def)
  then obtain t2 where s2: "chan_close ?c t1 = Some t2" using open_close by blast
  have "resolver_step ok_fl marsh ((rs @ [RClose req]) ! ?n) t1 RDone t2" for ok_fl marsh
    using s2 by (simp add: resolver_step.close)
  from resolver_inv [OF inv1 _ this] have inv2: "reg_ok t2" "own_ok t2 (rs @ [RDone])" by simp_all
  then have own: "own_ok t2 rs" using own_ok_front by blast
  have swap: "chan_send ?c False st = Some (t1\<lparr>pd_requests := pd_requests st\<rparr>)"
    "chan_close ?c (t1\<lparr>pd_requests := pd_requests st\<rparr>) = Some (t2\<lparr>pd_requests := pd_requests st\<rparr>)"
    using s1 s2 unfolding t(2) by (auto simp: chan_send_def chan_close_def Let_def split: if_splits)
  have "pd_requests t2 = (pd_requests st)(rid := None)"
    using chan_ops_requests(1) [OF s1] chan_ops_requests(2) [OF s2] t(2) by simp
  then have "(t2\<lparr>pd_requests := pd_requests st\<rparr>)\<lparr>pd_requests := (pd_requests st)(rid := None)\<rparr> = t2" by simp
  then show ?thesis using swap inv2(1) own
    by (auto simp: chan_try_send_def chan_send_def Let_def split: if_splits)
qed

lemma cleanup_inv:
  "reg_ok st \<Longrightarrow> own_ok st rs \<Longrightarrow>
     \<exists>st'. pend_cleanup now ids st = Some st' \<and> reg_ok st' \<and> own_ok st' rs"
proof (induction now ids st rule: pend_cleanup.induct)
  case (2 now rid ids st)
  show ?case
  proof (cases "pd_requests st rid")
    case None
    then show ?thesis using 2 by simp
  next
    case (Some req)
    then show ?thesis using 2 cleanup_one [OF 2(4,5) Some] by (cases "pend_expired now req") fastforce+
  qed
qed simp

lemma recv_inv:
  assumes "reg_ok st" "own_ok st rs" "ch_buf (pd_chans st ! c) = v # rest"
  shows "reg_ok (st\<lparr>pd_chans := (pd_chans st)[c := (pd_chans st ! c)\<lparr>ch_buf := rest\<rparr>]\<rparr>)
     \<and> own_ok (st\<lparr>pd_chans := (pd_chans st)[c := (pd_chans st ! c)\<lparr>ch_buf := rest\<rparr>]\<rparr>) rs"
proof -
  let ?st = "st\<lparr>pd_chans := (pd_chans st)[c := (pd_chans st ! c)\<lparr>ch_buf := rest\<rparr>]\<rparr>"
  have same: "chan_open ?st = chan_open st" "undecided ?st = undecided st" "granted ?st = granted st"
    by (auto simp: chan_open_def undecided_def granted_def nth_update_if fun_eq_iff)
  have "res_ok ?st r = res_ok st r" for r using same by (cases r) auto
  moreover have "hist_ok ?st" using assms(1,3)
    by (auto simp: reg_ok_def hist_ok_def same nth_update_if)
  ultimately show ?thesis using assms(1,2) by (simp add: reg_ok_def own_ok_def same)
qed

lemma pend_inv_init: "pend_inv (pend_init store)"
  by (simp add: pend_inv_def pend_init_def NewPendingRegistry_def pend_defs sent_chans_def)

lemma pend_inv_step: "pend_step fl marshal s s' \<Longrightarrow> pend_inv s \<Longrightarrow> pend_inv s'"
proof (induction rule: pend_step.induct)
  case (add s rnd now host port reason req st')
  then show ?case using add_inv [of "ps_reg s" "ps_resolvers s"] by (simp add: pend_inv_def)
next
  case (resolve rid s req st' approved)
  then show ?case using take_inv [of "ps_reg s" "ps_resolvers s"] by (simp add: pend_inv_def)
next
  case (resolver i s r' st')
  then show ?case using resolver_inv [of "ps_reg s" "ps_resolvers s"] by (simp add: pend_inv_def)
next
  case (cleanup now ids s st')
  then show ?case using cleanup_inv [of "ps_reg s" "ps_resolvers s" now ids] by (auto simp: pend_inv_def)
next
  case (recv i s rid c v rest)
  then show ?case using recv_inv [of "ps_reg s" "ps_resolvers s"] by (simp add: pend_inv_def)
next
  case (timer_take i s rid req st')
  then show ?case using take_inv [of "ps_reg s" "ps_resolvers s"] by (simp add: pend_inv_def)
qed (simp_all add: pend_inv_def)

lemma pend_reachable_inv: "pend_reachable fl marshal store s \<Longrightarrow> pend_inv s"
  by (induction rule: pend_reachable.induct) (auto intro: pend_inv_init pend_inv_step)

lemma resolver_progress:
  assumes "reg_ok st" "res_ok st r" "r \<noteq> RDone"
  shows "\<exists>r' st'. resolver_step fl marshal r st r' st'"
proof (cases r)
  case (RGrant req)
  then show ?thesis by (blast intro: resolver_step.grant)
next
  case (RSend req v)
  then have "undecided st req" "hist_ok st" using assms by (auto simp: reg_ok_def)
  then obtain st' where "chan_send (pr_done req) v st = Some st'" using undecided_send by blast
  then show ?thesis unfolding RSend by (blast intro: resolver_step.send)
next
  case (RClose req)
  then obtain st' where "chan_close (pr_done req) st = Some st'" using assms(2) open_close by fastforce
  then show ?thesis unfolding RClose by (blast intro: resolver_step.close)
qed (use assms in simp)

text \<open>A run in which the timer fires while the user's approval is being carried out.\<close>

lemma late_approval_run:
  "\<exists>s. pend_reachable fl marshal store s \<and> ps_waiters s = [Answered False True]
     \<and> pd_sent (ps_reg s) = [(0, True)] \<and> IsAllowed host port (pd_store (ps_reg s))"
proof -
  let ?req = "\<lparr>pr_ID = randomID [], pr_Host = host, pr_Port = port, pr_Reason = [], pr_CreatedAt = 0, pr_done = 0\<rparr>"
  let ?s0 = "pend_init store"
  let ?r1 = "snd (pend_Add [] 0 host port [] (NewPendingRegistry store))"
  let ?s1 = "?s0\<lparr>ps_reg := ?r1, ps_waiters := [Waiting (randomID []) 0]\<rparr>"
  let ?s2 = "?s1\<lparr>ps_waiters := [TimedOut (randomID [])]\<rparr>"
  let ?r3 = "?r1\<lparr>pd_requests := Map.empty\<rparr>"
  let ?s3 = "?s2\<lparr>ps_reg := ?r3, ps_resolvers := [RGrant ?req]\<rparr>"
  let ?r4 = "pend_grant fl marshal ?req ?r3"
  let ?s4 = "?s3\<lparr>ps_reg := ?r4, ps_resolvers := [RSend ?req True]\<rparr>"
  let ?r5 = "?r4\<lparr>pd_chans := [\<lparr>ch_buf = [True], ch_closed = False\<rparr>], pd_sent := [(0, True)]\<rparr>"
  let ?s5 = "?s4\<lparr>ps_reg := ?r5, ps_resolvers := [RClose ?req]\<rparr>"
  let ?s6 = "?s5\<lparr>ps_waiters := [Answered False True]\<rparr>"
  note defs = pend_init_def NewPendingRegistry_def pend_Add_def Let_def
  have "pend_step fl marshal ?s0 ?s1"
    using pend_step.add [of ?s0 "[]" 0 host port "[]" ?req ?r1 fl marshal] by (simp add: defs)
  moreover have "pend_step fl marshal ?s1 ?s2"
    using pend_step.timer [of 0 ?s1 "randomID []" 0 fl marshal] by simp
  moreover have "pend_step fl marshal ?s2 ?s3"
    using pend_step.resolve [of "randomID []" ?s2 ?req ?r3 fl marshal True]
    by (simp add: defs pend_take_def after_take_def)
  moreover have "pend_step fl marshal ?s3 ?s4"
    using pend_step.resolver [of 0 ?s3 fl marshal "RSend ?req True" ?r4]
      resolver_step.grant [of fl marshal ?req ?r3] by simp
  moreover have "chan_send 0 True ?r4 = Some ?r5"
    by (simp add: defs chan_send_def pend_grant_def)
  then have "pend_step fl marshal ?s4 ?s5"
    using pend_step.resolver [of 0 ?s4 fl marshal "RClose ?req" ?r5]
      resolver_step.send [of ?req True ?r4 ?r5 fl marshal] by simp
  moreover have "pend_step fl marshal ?s5 ?s6"
    using pend_step.timer_gone [of 0 ?s5 "randomID []" fl marshal]
    by (simp add: defs pend_take_def pend_grant_def)
  ultimately have "pend_reachable fl marshal store ?s6"
    by (meson pend_reachable.init pend_reachable.step)
  moreover have "IsAllowed host port (pd_store ?r5)"
    by (simp add: pend_grant_def eg.allowed_grant)
  ultimately show ?thesis by (intro exI [of _ ?s6]) simp
qed

section \<open>Properties\<close>



text \<open>
  The timer can overtake an approval: for every destination there is a run in which the user's
  approval is granted and delivered, yet the agent is answered \<open>allowed: false, timeout: true\<close>.
\<close>

theorem timeout_can_hide_approval:
  "\<exists>s. pend_reachable fl marshal store s \<and> ps_waiters s = [Answered False True]
     \<and> pd_sent (ps_reg s) = [(0, True)] \<and> IsAllowed host port (pd_store (ps_reg s))"
  by (rule late_approval_run)

text \<open>
  Without interference, resolving a registered request finds it, delivers exactly the given
  verdict, closes the channel, forgets the request and, if approved, allows the destination;
  resolving an unknown one changes nothing.
\<close>

theorem pend_Resolve_correct:
  assumes "reg_ok st" "own_ok st []"
  shows "case pd_requests st rid of
      None \<Rightarrow> pend_Resolve fl marshal rid approved st = Some (False, st)
    | Some req \<Rightarrow> \<exists>st'. pend_Resolve fl marshal rid approved st = Some (True, st')
        \<and> pd_chans st' ! pr_done req = \<lparr>ch_buf = [approved], ch_closed = True\<rparr>
        \<and> pd_requests st' = (pd_requests st)(rid := None)
        \<and> (approved \<longrightarrow> IsAllowed (pr_Host req) (pr_Port req) (pd_store st'))"
proof (cases "pd_requests st rid")
  case None
  then show ?thesis by (simp add: pend_Resolve_def pend_take_def)
next
  case (Some req)
  have u: "undecided st req" "ch_buf (pd_chans st ! pr_done req) = []"
    using assms(1) Some by (auto simp: pend_defs)
  then show ?thesis using Some eg.allowed_grant
    by (auto simp: pend_Resolve_def pend_take_def pend_grant_def chan_send_def chan_close_def
        undecided_def chan_open_def Let_def)
qed

definition one_pending :: pending_state where
  "one_pending = snd (pend_Add [1] 0 ''x.org'' 80 [] (NewPendingRegistry one_wildcard))"

theorem pend_Resolve_correct_witness:
  "\<exists>st'. pend_Resolve no_egress_faults lines_marshal ''01'' True one_pending = Some (True, st')
     \<and> IsAllowed ''x.org'' 80 (pd_store st')"
proof -
  have id: "randomID [1] = ''01''" by code_simp
  obtain req where "pend_Add [1] 0 ''x.org'' 80 [] (NewPendingRegistry one_wildcard) = (req, one_pending)"
    unfolding one_pending_def by (metis prod.collapse)
  moreover have "reg_ok (NewPendingRegistry one_wildcard)" "own_ok (NewPendingRegistry one_wildcard) []"
    using pend_inv_init [of one_wildcard] by (simp_all add: pend_inv_def pend_init_def)
  ultimately have inv: "reg_ok one_pending \<and> own_ok one_pending []"
    by (intro add_inv) (simp_all add: NewPendingRegistry_def)
  have "\<exists>r. pd_requests one_pending ''01'' = Some r \<and> pr_Host r = ''x.org'' \<and> pr_Port r = 80"
    by (simp add: one_pending_def pend_Add_def Let_def id)
  then show ?thesis using inv
      pend_Resolve_correct [where st = one_pending and rid = "''01''" and approved = True
        and fl = no_egress_faults and marshal = lines_marshal] by auto
qed

end
