(* ===== verification/Egress_Liveness.thy ===== *)
theory Egress_Liveness
  imports Egress_Pending Fair_Runs
begin

text \<open>
  Progress of the approval protocol of \<^verbatim>\<open>internal/egress/pending.go\<close> and \<^verbatim>\<open>listener.go\<close>: infinite runs
  of the step relation in which the scheduler is fair to every goroutine. A handler that waits and a
  resolver that has taken a request each have a rank that no step raises; fairness makes it fall.
\<close>

section \<open>Ranks\<close>

fun waiter_rank :: "waiter \<Rightarrow> nat" where
  "waiter_rank (Waiting rid c) = 3"
| "waiter_rank (TimedOut rid) = 2"
| "waiter_rank (TimerResolving k) = 1"
| "waiter_rank (Answered a t) = 0"

fun resolver_rank :: "resolver \<Rightarrow> nat" where
  "resolver_rank (RGrant req) = 3"
| "resolver_rank (RSend req v) = 2"
| "resolver_rank (RClose req) = 1"
| "resolver_rank RDone = 0"

lemma waiter_rank_0: "waiter_rank x = 0 \<longleftrightarrow> (\<exists>a t. x = Answered a t)"
  by (cases x) simp_all

lemma resolver_rank_0: "resolver_rank r = 0 \<longleftrightarrow> r = RDone"
  by (cases r) simp_all

lemma resolver_step_rank: "resolver_step fl marshal r st r' st' \<Longrightarrow> resolver_rank r' < resolver_rank r"
  by (induction rule: resolver_step.induct) simp_all

text \<open>One step moves at most one goroutine, and each only downwards.\<close>

lemma pend_step_waiter:
  assumes "pend_step fl marshal s s'" "i < length (ps_waiters s)"
  shows "i < length (ps_waiters s')"
    "ps_waiters s' ! i = ps_waiters s ! i \<or> waiter_rank (ps_waiters s' ! i) < waiter_rank (ps_waiters s ! i)"
  using assms by (induction rule: pend_step.induct) (auto simp: nth_append nth_list_update)

lemma pend_step_resolver:
  assumes "pend_step fl marshal s s'" "k < length (ps_resolvers s)"
  shows "k < length (ps_resolvers s')"
    "ps_resolvers s' ! k = ps_resolvers s ! k \<or> resolver_rank (ps_resolvers s' ! k) < resolver_rank (ps_resolvers s ! k)"
  using assms by (induction rule: pend_step.induct)
    (auto simp: nth_append nth_list_update dest: resolver_step_rank)

text \<open>A handler that resolves its own request knows an existing resolver.\<close>

definition timers_ok :: "pending_sys \<Rightarrow> bool" where
  "timers_ok s \<longleftrightarrow> (\<forall>k. TimerResolving k \<in> set (ps_waiters s) \<longrightarrow> k < length (ps_resolvers s))"

lemma timers_ok_step: "pend_step fl marshal s s' \<Longrightarrow> timers_ok s \<Longrightarrow> timers_ok s'"
  by (induction rule: pend_step.induct)
    (auto simp: timers_ok_def less_Suc_eq dest!: set_update_subset_insert [THEN subsetD])

lemma timers_ok_init: "timers_ok (pend_init store)"
  by (simp add: timers_ok_def pend_init_def)

lemma timers_ok_reachable: "pend_reachable fl marshal store s \<Longrightarrow> timers_ok s"
  by (induction rule: pend_reachable.induct) (auto simp: timers_ok_init intro: timers_ok_step)

interpretation waiters: ranked_goroutines "pend_step fl marshal" ps_waiters waiter_rank
  by unfold_locales (fact pend_step_waiter)+

interpretation resolvers: ranked_goroutines "pend_step fl marshal" ps_resolvers resolver_rank
  by unfold_locales (fact pend_step_resolver)+

section \<open>What can move\<close>

lemma resolver_can_move:
  assumes "pend_reachable fl marshal store s" "k < length (ps_resolvers s)" "ps_resolvers s ! k \<noteq> RDone"
  shows "can_move (pend_step fl marshal) ps_resolvers k s"
proof -
  have inv: "reg_ok (ps_reg s)" "own_ok (ps_reg s) (ps_resolvers s)"
    using pend_reachable_inv [OF assms(1)] by (simp_all add: pend_inv_def)
  then have "res_ok (ps_reg s) (ps_resolvers s ! k)" using assms(2) by (simp add: own_ok_def)
  then obtain r' st' where r: "resolver_step fl marshal (ps_resolvers s ! k) (ps_reg s) r' st'"
    using resolver_progress [OF inv(1) _ assms(3)] by blast
  then have "r' \<noteq> ps_resolvers s ! k" using resolver_step_rank by fastforce
  with pend_step.resolver [OF assms(2) r] assms(2) show ?thesis
    unfolding can_move_def by (intro conjI exI) auto
qed

lemma waiter_can_move:
  assumes "i < length (ps_waiters s)" "waiter_rank (ps_waiters s ! i) \<noteq> 0"
    "\<And>k. ps_waiters s ! i = TimerResolving k \<Longrightarrow> ps_resolvers s ! k = RDone"
  shows "can_move (pend_step fl marshal) ps_waiters i s"
proof -
  have "\<exists>s'. pend_step fl marshal s s' \<and> ps_waiters s' ! i \<noteq> ps_waiters s ! i"
  proof (cases "ps_waiters s ! i")
    case (Waiting rid c)
    from pend_step.timer [OF assms(1) this] show ?thesis using assms(1) Waiting by (intro exI conjI) auto
  next
    case (TimedOut rid)
    show ?thesis
    proof (cases "pend_take rid (ps_reg s)")
      case None
      from pend_step.timer_gone [OF assms(1) TimedOut this] show ?thesis using assms(1) TimedOut by (intro exI conjI) auto
    next
      case (Some p)
      obtain req st' where "p = (req, st')" by (cases p)
      from pend_step.timer_take [OF assms(1) TimedOut Some [unfolded this]] show ?thesis
        using assms(1) TimedOut by (intro exI conjI) auto
    qed
  next
    case (TimerResolving k)
    from pend_step.timer_done [OF assms(1) TimerResolving assms(3) [OF TimerResolving]] show ?thesis
      using assms(1) TimerResolving by (intro exI conjI) auto
  qed (use assms(2) in simp)
  then show ?thesis using assms(1) by (simp add: can_move_def)
qed

section \<open>Properties\<close>

lemma run_reachable:
  "run_of (pend_step fl marshal) run \<Longrightarrow> pend_reachable fl marshal store (run 0) \<Longrightarrow> pend_reachable fl marshal store (run n)"
  using run_of_invariant [of "pend_step fl marshal" run "pend_reachable fl marshal store" n] pend_reachable.step by blast

lemma resolver_finishes:
  assumes "pend_reachable fl marshal store (run 0)" "run_of (pend_step fl marshal) run"
    "fair_to (pend_step fl marshal) ps_resolvers run" "j < length (ps_resolvers (run n))"
  shows "\<exists>m\<ge>n. \<forall>k\<ge>m. ps_resolvers (run k) ! j = RDone"
proof -
  have "\<exists>m'\<ge>m. \<forall>k\<ge>m'. can_move (pend_step fl marshal) ps_resolvers j (run k)"
    if "n \<le> m" "0 < resolver_rank (ps_resolvers (run m) ! j)"
      "\<And>k. m \<le> k \<Longrightarrow> ps_resolvers (run k) ! j = ps_resolvers (run m) ! j" for m
  proof (intro exI [of _ m] conjI allI impI)
    fix k assume k: "m \<le> k"
    then have "j < length (ps_resolvers (run k))" using resolvers.run_stays [OF assms(2,4)] that(1) by simp
    moreover have "ps_resolvers (run k) ! j \<noteq> RDone" using that(2) that(3) [OF k] by auto
    ultimately show "can_move (pend_step fl marshal) ps_resolvers j (run k)"
      using resolver_can_move [OF run_reachable [OF assms(2,1)]] by blast
  qed simp
  from resolvers.run_finishes [OF assms(2-4) this] obtain m where
    m: "n \<le> m" "resolver_rank (ps_resolvers (run m) ! j) = 0" "\<forall>k\<ge>m. ps_resolvers (run k) ! j = ps_resolvers (run m) ! j"
    by blast
  have "ps_resolvers (run k) ! j = RDone" if "m \<le> k" for k
    using m(2) m(3) [rule_format, OF that] by (simp only: resolver_rank_0)
  then show ?thesis using m(1) by blast
qed

text \<open>
  C15: Every agent gets an answer. In every run in which the goroutines are scheduled fairly, whatever the
  users and the clean-up do or omit, each handler that has registered a request answers in the end
  and each resolver that has taken one carries it out to the end.
\<close>

theorem every_request_answered:
  assumes "pend_reachable fl marshal store (run 0)" "run_of (pend_step fl marshal) run"
    "fair_to (pend_step fl marshal) ps_waiters run" "fair_to (pend_step fl marshal) ps_resolvers run"
  shows "(\<forall>i < length (ps_waiters (run n)). \<exists>m\<ge>n. \<exists>allowed timeout. \<forall>k\<ge>m. ps_waiters (run k) ! i = Answered allowed timeout)
     \<and> (\<forall>j < length (ps_resolvers (run n)). \<exists>m\<ge>n. \<forall>k\<ge>m. ps_resolvers (run k) ! j = RDone)"
proof (intro conjI allI impI resolver_finishes [OF assms(1,2,4)])
  fix i assume i: "i < length (ps_waiters (run n))"
  have "\<exists>m'\<ge>m. \<forall>k\<ge>m'. can_move (pend_step fl marshal) ps_waiters i (run k)"
    if m: "n \<le> m" "0 < waiter_rank (ps_waiters (run m) ! i)"
      "\<And>k. m \<le> k \<Longrightarrow> ps_waiters (run k) ! i = ps_waiters (run m) ! i" for m
  proof -
    have len: "i < length (ps_waiters (run k))" if "m \<le> k" for k
      using waiters.run_stays [OF assms(2) i] m(1) that by simp
    obtain m' where m': "m \<le> m'" "\<And>k j. m' \<le> k \<Longrightarrow> ps_waiters (run m) ! i = TimerResolving j \<Longrightarrow> ps_resolvers (run k) ! j = RDone"
    proof (cases "\<exists>j. ps_waiters (run m) ! i = TimerResolving j")
      case True
      then obtain j where j: "ps_waiters (run m) ! i = TimerResolving j" ..
      have "TimerResolving j \<in> set (ps_waiters (run m))" using len [of m] j by (metis nth_mem order_refl)
      then have "j < length (ps_resolvers (run m))"
        using timers_ok_reachable [OF run_reachable [OF assms(2,1)]] by (simp add: timers_ok_def)
      from resolver_finishes [OF assms(1,2,4) this] obtain m' where
        "m \<le> m'" "\<forall>k\<ge>m'. ps_resolvers (run k) ! j = RDone" by blast
      then show ?thesis using j by (intro that [of m']) simp_all
    qed (use that in auto)
    have "can_move (pend_step fl marshal) ps_waiters i (run k)" if "m' \<le> k" for k
    proof (rule waiter_can_move)
      have same: "ps_waiters (run k) ! i = ps_waiters (run m) ! i"
        by (rule m(3)) (use m'(1) that in simp)
      show "i < length (ps_waiters (run k))" using len m'(1) that by simp
      show "waiter_rank (ps_waiters (run k) ! i) \<noteq> 0" using m(2) same by simp
      show "ps_resolvers (run k) ! j = RDone" if "ps_waiters (run k) ! i = TimerResolving j" for j
        using m'(2) [OF \<open>m' \<le> k\<close>] that same by simp
    qed
    then show ?thesis using m'(1) by blast
  qed
  from waiters.run_finishes [OF assms(2,3) i this] obtain m where
    m: "n \<le> m" "waiter_rank (ps_waiters (run m) ! i) = 0" "\<forall>k\<ge>m. ps_waiters (run k) ! i = ps_waiters (run m) ! i"
    by blast
  obtain allowed timeout where a: "ps_waiters (run m) ! i = Answered allowed timeout" using m(2) waiter_rank_0 by blast
  have "ps_waiters (run k) ! i = Answered allowed timeout" if "m \<le> k" for k
    using m(3) [rule_format, OF that] by (simp only: a)
  with m(1) show "\<exists>m\<ge>n. \<exists>allowed timeout. \<forall>k\<ge>m. ps_waiters (run k) ! i = Answered allowed timeout" by blast
qed

text \<open>A run: a request nobody looks at, and the clean-up.\<close>

definition waiting_sys :: pending_sys where
  "waiting_sys = \<lparr>ps_reg = one_pending, ps_resolvers = [], ps_waiters = [Waiting (randomID [1]) 0]\<rparr>"

definition timed_run :: "nat \<Rightarrow> pending_sys" where
  "timed_run n =
     (let gone = one_pending\<lparr>pd_requests := Map.empty, pd_chans := [\<lparr>ch_buf = [False], ch_closed = True\<rparr>], pd_sent := [(0, False)]\<rparr> in
      if n = 0 then waiting_sys
      else if n = 1 then waiting_sys\<lparr>ps_reg := gone\<rparr>
      else waiting_sys\<lparr>ps_reg := gone\<lparr>pd_chans := [\<lparr>ch_buf = [], ch_closed = True\<rparr>]\<rparr>, ps_waiters := [Answered False False]\<rparr>)"

lemma timed_run_step:
  "run_of (pend_step fl marshal) timed_run"
  "pend_reachable fl marshal one_wildcard (timed_run 0)"
proof -
  note defs = timed_run_def waiting_sys_def one_pending_def pend_Add_def NewPendingRegistry_def Let_def
  have "pend_step fl marshal (pend_init one_wildcard) waiting_sys"
    using pend_step.add [of "pend_init one_wildcard" "[1]" 0 "''x.org''" 80 "[]" _ _ fl marshal]
    by (simp add: defs pend_init_def)
  then show "pend_reachable fl marshal one_wildcard (timed_run 0)"
    using pend_reachable.step [OF pend_reachable.init] by (simp add: timed_run_def Let_def)
  have "pend_cleanup (pendingTimeout + 1) [randomID [1]] (ps_reg (timed_run 0)) = Some (ps_reg (timed_run 1))"
    by (simp add: defs pend_expired_def chan_try_send_def chan_send_def chan_close_def)
  from pend_step.cleanup [OF this] have 0: "pend_step fl marshal (timed_run 0) (timed_run 1)"
    by (simp add: timed_run_def Let_def)
  have 1: "pend_step fl marshal (timed_run 1) (timed_run 2)"
    using pend_step.recv [of 0 "timed_run 1" "randomID [1]" 0 False "[]" fl marshal]
    by (simp add: defs)
  show "run_of (pend_step fl marshal) timed_run"
    unfolding run_of_def
  proof
    fix n :: nat
    consider "n = 0" | "n = 1" | "2 \<le> n" by linarith
    then show "timed_run (Suc n) = timed_run n \<or> pend_step fl marshal (timed_run n) (timed_run (Suc n))"
      using 0 1 by cases (auto simp: numeral_2_eq_2, simp add: timed_run_def Let_def)
  qed
qed

lemma timed_run_fair:
  "fair_to (pend_step fl marshal) ps_waiters timed_run" "fair_to (pend_step fl marshal) ps_resolvers timed_run"
proof -
  have final: "ps_waiters (timed_run m) = [Answered False False]" "ps_resolvers (timed_run m) = []" if "2 \<le> m" for m
    using that by (auto simp: timed_run_def waiting_sys_def Let_def)
  show "fair_to (pend_step fl marshal) ps_waiters timed_run"
    using final pend_step_waiter(2) by (intro fair_to_final [of 2]) (fastforce simp: can_move_def)
  show "fair_to (pend_step fl marshal) ps_resolvers timed_run"
    using final by (intro fair_to_final [of 2]) (simp add: can_move_def)
qed

theorem every_request_answered_witness:
  "\<exists>m. \<exists>allowed timeout. \<forall>k\<ge>m. ps_waiters (timed_run k) ! 0 = Answered allowed timeout"
proof -
  have "0 < length (ps_waiters (timed_run 0))" by (simp add: timed_run_def waiting_sys_def Let_def)
  then show ?thesis
    using every_request_answered [OF timed_run_step(2,1) [of no_egress_faults lines_marshal] timed_run_fair, of 0] by blast
qed

end
