(* ===== verification/Auth_Store.thy ===== *)
theory Auth_Store
  imports Go_Strings
begin

text \<open>
  Password, session and settings persistence (\<^verbatim>\<open>internal/auth/store.go\<close>, with the \<open>settings\<close>
  and \<open>sessions\<close> tables of \<^verbatim>\<open>internal/db/migrations\<close>). Both tables have a text primary key,
  so they are maps. The driver may fail on any statement (argument \<open>fl\<close>). bcrypt is a package
  outside the repository: hashing (\<open>bc_gen\<close>) and comparison (\<open>bc_cmp\<close>) are arguments, and so
  are the SHA-256 digest (\<open>sha\<close>), the random bytes drawn, and the clock readings.
\<close>

section \<open>State\<close>

definition sessionDuration :: duration where
  "sessionDuration = 30 * 24 * hour"

definition bcryptCost :: int where
  "bcryptCost = 12"

definition minPasswordLen :: nat where
  "minPasswordLen = 12"

record auth_store =
  as_settings :: "string \<rightharpoonup> string"
  as_sessions :: "string \<rightharpoonup> instant"
  as_bcryptCost :: int

datatype auth_stmt =
    AsSelectPassword | AsUpsertPassword | AsInsertSession | AsSelectSession | AsUpdateSession
  | AsDeleteSession | AsDeleteAll | AsCleanExpired | AsSelectSetting | AsUpsertSetting
  | AsDeleteSetting

type_synonym auth_faults = "auth_stmt \<Rightarrow> bool"

datatype auth_error = PasswordTooShort | HashPassword | AuthDB | AuthNoRows | AuthRandom

definition auth_NewStore :: "(string \<rightharpoonup> string) \<Rightarrow> (string \<rightharpoonup> instant) \<Rightarrow> auth_store" where
  "auth_NewStore settings sessions =
     \<lparr>as_settings = settings, as_sessions = sessions, as_bcryptCost = bcryptCost\<rparr>"

definition SetBcryptCost :: "int \<Rightarrow> auth_store \<Rightarrow> auth_store" where
  "SetBcryptCost cost s = s\<lparr>as_bcryptCost := cost\<rparr>"

section \<open>Passwords\<close>

definition IsPasswordSet :: "auth_faults \<Rightarrow> auth_store \<Rightarrow> (auth_error, bool) result" where
  "IsPasswordSet fl s =
     (if fl AsSelectPassword then Err AuthDB
      else Ok (as_settings s ''password_hash'' \<noteq> None))"

definition SetPassword ::
  "auth_faults \<Rightarrow> (string \<Rightarrow> int \<Rightarrow> string option) \<Rightarrow> string \<Rightarrow> auth_store
     \<Rightarrow> auth_error option \<times> auth_store" where
  "SetPassword fl bc_gen password s =
     (if length password < minPasswordLen then (Some PasswordTooShort, s)
      else (case bc_gen password (as_bcryptCost s) of
              None \<Rightarrow> (Some HashPassword, s)
            | Some h \<Rightarrow>
                if fl AsUpsertPassword then (Some AuthDB, s)
                else (None, s\<lparr>as_settings := (as_settings s)(''password_hash'' \<mapsto> h)\<rparr>)))"

definition CheckPassword ::
  "auth_faults \<Rightarrow> (string \<Rightarrow> string \<Rightarrow> bool) \<Rightarrow> string \<Rightarrow> auth_store \<Rightarrow> (auth_error, bool) result" where
  "CheckPassword fl bc_cmp password s =
     (if fl AsSelectPassword then Err AuthDB
      else (case as_settings s ''password_hash'' of
              None \<Rightarrow> Err AuthNoRows
            | Some h \<Rightarrow> Ok (bc_cmp h password)))"

text \<open>
  \<open>rnd n\<close> is what \<^verbatim>\<open>rand.Read\<close> filled a buffer of \<open>n\<close> bytes with, \<open>None\<close> if it failed.
\<close>

type_synonym random = "nat \<Rightarrow> byte list option"

definition GeneratePassword :: "random \<Rightarrow> (auth_error, string) result" where
  "GeneratePassword rnd =
     (case rnd 16 of None \<Rightarrow> Err AuthRandom | Some b \<Rightarrow> Ok (hex_EncodeToString b))"

section \<open>Sessions\<close>

definition hashToken :: "(string \<Rightarrow> byte list) \<Rightarrow> string \<Rightarrow> string" where
  "hashToken sha token = hex_EncodeToString (sha token)"

definition auth_CreateSession ::
  "auth_faults \<Rightarrow> (string \<Rightarrow> byte list) \<Rightarrow> random \<Rightarrow> instant \<Rightarrow> auth_store
     \<Rightarrow> (auth_error, string) result \<times> auth_store" where
  "auth_CreateSession fl sha rnd now s =
     (case rnd 32 of
        None \<Rightarrow> (Err AuthRandom, s)
      | Some b \<Rightarrow>
          let token = hex_EncodeToString b; tokenHash = hashToken sha token in
          if fl AsInsertSession \<or> as_sessions s tokenHash \<noteq> None then (Err AuthDB, s)
          else (Ok token, s\<lparr>as_sessions := (as_sessions s)(tokenHash \<mapsto> now + sessionDuration)\<rparr>))"

text \<open>
  \<open>ValidSession\<close> reads the clock twice: \<open>now\<close> for the check and \<open>now2\<close> for the new expiry. The
  result of the UPDATE is ignored.
\<close>

definition ValidSession ::
  "auth_faults \<Rightarrow> (string \<Rightarrow> byte list) \<Rightarrow> instant \<Rightarrow> instant \<Rightarrow> string \<Rightarrow> auth_store
     \<Rightarrow> bool \<times> auth_store" where
  "ValidSession fl sha now now2 token s =
     (let tokenHash = hashToken sha token in
      if fl AsSelectSession then (False, s)
      else (case as_sessions s tokenHash of
              None \<Rightarrow> (False, s)
            | Some expires \<Rightarrow>
                if \<not> now < expires then (False, s)
                else (True, if fl AsUpdateSession then s
                            else s\<lparr>as_sessions := (as_sessions s)(tokenHash \<mapsto> now2 + sessionDuration)\<rparr>)))"

definition DeleteSession ::
  "auth_faults \<Rightarrow> (string \<Rightarrow> byte list) \<Rightarrow> string \<Rightarrow> auth_store \<Rightarrow> auth_store" where
  "DeleteSession fl sha token s =
     (if fl AsDeleteSession then s
      else s\<lparr>as_sessions := (as_sessions s)(hashToken sha token := None)\<rparr>)"

definition DeleteAllSessions :: "auth_faults \<Rightarrow> auth_store \<Rightarrow> auth_store" where
  "DeleteAllSessions fl s = (if fl AsDeleteAll then s else s\<lparr>as_sessions := Map.empty\<rparr>)"

definition CleanExpiredSessions :: "auth_faults \<Rightarrow> instant \<Rightarrow> auth_store \<Rightarrow> auth_store" where
  "CleanExpiredSessions fl now s =
     (if fl AsCleanExpired then s
      else s\<lparr>as_sessions := (\<lambda>h. case as_sessions s h of
                 None \<Rightarrow> None
               | Some e \<Rightarrow> if e < now then None else Some e)\<rparr>)"

section \<open>Settings\<close>

definition GetSetting :: "auth_faults \<Rightarrow> string \<Rightarrow> auth_store \<Rightarrow> (auth_error, string) result" where
  "GetSetting fl key s =
     (if fl AsSelectSetting then Err AuthDB
      else (case as_settings s key of None \<Rightarrow> Ok [] | Some v \<Rightarrow> Ok v))"

definition SetSetting ::
  "auth_faults \<Rightarrow> string \<Rightarrow> string \<Rightarrow> auth_store \<Rightarrow> auth_error option \<times> auth_store" where
  "SetSetting fl key val s =
     (if fl AsUpsertSetting then (Some AuthDB, s)
      else (None, s\<lparr>as_settings := (as_settings s)(key \<mapsto> val)\<rparr>))"

definition DeleteSetting ::
  "auth_faults \<Rightarrow> string \<Rightarrow> auth_store \<Rightarrow> auth_error option \<times> auth_store" where
  "DeleteSetting fl key s =
     (if fl AsDeleteSetting then (Some AuthDB, s)
      else (None, s\<lparr>as_settings := (as_settings s)(key := None)\<rparr>))"

section \<open>The session interface\<close>

text \<open>
  What happens to sessions, as a sequence of events: a login that drew the bytes \<open>b\<close>, a checked
  request, a logout, the revocation of everything, and the periodic clean-up.
\<close>

datatype session_event =
    EvLogin instant "byte list"
  | EvUse instant instant string
  | EvLogout string
  | EvRevokeAll
  | EvClean instant

text \<open>
  The promise: a token is remembered with its last activity and is good for \<open>ttl\<close> after that.
  Cleaning up is not part of it.
\<close>

fun session_spec :: "duration \<Rightarrow> session_event \<Rightarrow> (string \<rightharpoonup> instant) \<Rightarrow> (string \<rightharpoonup> instant)" where
  "session_spec ttl (EvLogin now b) a = a(hex_EncodeToString b \<mapsto> now)"
| "session_spec ttl (EvUse now now2 t) a =
     (case a t of
        None \<Rightarrow> a
      | Some x \<Rightarrow> if now < x + ttl then a(t \<mapsto> now2) else a)"
| "session_spec ttl (EvLogout t) a = a(t := None)"
| "session_spec ttl EvRevokeAll a = Map.empty"
| "session_spec ttl (EvClean now) a = a"

text \<open>The same events on a store with the given operations.\<close>

fun session_step ::
  "(instant \<Rightarrow> byte list \<Rightarrow> 's \<Rightarrow> 's) \<Rightarrow> (instant \<Rightarrow> instant \<Rightarrow> string \<Rightarrow> 's \<Rightarrow> bool \<times> 's)
     \<Rightarrow> (string \<Rightarrow> 's \<Rightarrow> 's) \<Rightarrow> ('s \<Rightarrow> 's) \<Rightarrow> (instant \<Rightarrow> 's \<Rightarrow> 's) \<Rightarrow> session_event \<Rightarrow> 's \<Rightarrow> 's" where
  "session_step add check revoke revoke_all clean (EvLogin now b) s = add now b s"
| "session_step add check revoke revoke_all clean (EvUse now now2 t) s = snd (check now now2 t s)"
| "session_step add check revoke revoke_all clean (EvLogout t) s = revoke t s"
| "session_step add check revoke revoke_all clean EvRevokeAll s = revoke_all s"
| "session_step add check revoke revoke_all clean (EvClean now) s = clean now s"

fun ev_tokens :: "session_event \<Rightarrow> string list" where
  "ev_tokens (EvLogin now b) = [hex_EncodeToString b]"
| "ev_tokens (EvUse now now2 t) = [t]"
| "ev_tokens (EvLogout t) = [t]"
| "ev_tokens _ = []"

fun ev_logins :: "session_event \<Rightarrow> string list" where
  "ev_logins (EvLogin now b) = [hex_EncodeToString b]"
| "ev_logins _ = []"

text \<open>The clock does not run backwards along the sequence, which starts at \<open>t0\<close> and ends at \<open>t1\<close>.\<close>

fun ev_clock :: "instant \<Rightarrow> session_event list \<Rightarrow> instant \<Rightarrow> bool" where
  "ev_clock t0 [] t1 \<longleftrightarrow> t0 \<le> t1"
| "ev_clock t0 (EvLogin now b # es) t1 \<longleftrightarrow> t0 \<le> now \<and> ev_clock now es t1"
| "ev_clock t0 (EvUse now now2 t # es) t1 \<longleftrightarrow> t0 \<le> now \<and> now \<le> now2 \<and> ev_clock now2 es t1"
| "ev_clock t0 (EvClean now # es) t1 \<longleftrightarrow> t0 \<le> now \<and> ev_clock now es t1"
| "ev_clock t0 (EvLogout t # es) t1 \<longleftrightarrow> ev_clock t0 es t1"
| "ev_clock t0 (EvRevokeAll # es) t1 \<longleftrightarrow> ev_clock t0 es t1"

locale session_store =
  fixes key :: "string \<Rightarrow> 'k"
    and expiry :: "'s \<Rightarrow> 'k \<Rightarrow> instant option"
    and ttl :: duration
    and add :: "instant \<Rightarrow> byte list \<Rightarrow> 's \<Rightarrow> 's"
    and check :: "instant \<Rightarrow> instant \<Rightarrow> string \<Rightarrow> 's \<Rightarrow> bool \<times> 's"
    and revoke :: "string \<Rightarrow> 's \<Rightarrow> 's"
    and revoke_all :: "'s \<Rightarrow> 's"
    and clean :: "instant \<Rightarrow> 's \<Rightarrow> 's"
  assumes expiry_add: "expiry s (key (hex_EncodeToString b)) = None \<Longrightarrow> expiry (add now b s) k =
          (if k = key (hex_EncodeToString b) then Some (now + ttl) else expiry s k)"
    and check_iff: "fst (check now now2 t s) \<longleftrightarrow> (\<exists>e. expiry s (key t) = Some e \<and> now < e)"
    and expiry_check: "expiry (snd (check now now2 t s)) k =
          (if fst (check now now2 t s) \<and> k = key t then Some (now2 + ttl) else expiry s k)"
    and expiry_revoke: "expiry (revoke t s) k = (if k = key t then None else expiry s k)"
    and expiry_revoke_all: "expiry (revoke_all s) k = None"
    and expiry_clean: "expiry (clean now s) k =
          (case expiry s k of Some e \<Rightarrow> if e < now then None else Some e | None \<Rightarrow> None)"
begin

lemma revoked_invalid: "\<not> fst (check now n2 t (revoke t s))"
  by (simp add: check_iff expiry_revoke)

lemma only_new_after_revoke_all:
  "fst (check now n2 u (add now' b (revoke_all s))) \<longleftrightarrow>
     key u = key (hex_EncodeToString b) \<and> now < now' + ttl"
  by (auto simp: check_iff expiry_add expiry_revoke_all)

text \<open>
  The simulation: a stored expiry is the last activity plus \<open>ttl\<close>, and a token that is not
  stored is either unknown or already expired.
\<close>

definition session_sim :: "string set \<Rightarrow> instant \<Rightarrow> 's \<Rightarrow> (string \<rightharpoonup> instant) \<Rightarrow> bool" where
  "session_sim T now s a \<longleftrightarrow>
     (\<forall>t\<in>T. case expiry s (key t) of
              Some e \<Rightarrow> \<exists>x. a t = Some x \<and> e = x + ttl
            | None \<Rightarrow> \<forall>x. a t = Some x \<longrightarrow> x + ttl < now)"

lemma session_sim_later: "session_sim T now s a \<Longrightarrow> now \<le> now' \<Longrightarrow> session_sim T now' s a"
  unfolding session_sim_def by (fastforce split: option.splits)

lemma session_sim_check:
  "session_sim T now0 s a \<Longrightarrow> t \<in> T \<Longrightarrow> now0 \<le> now \<Longrightarrow>
     fst (check now n2 t s) \<longleftrightarrow> (\<exists>x. a t = Some x \<and> now < x + ttl)"
  unfolding session_sim_def check_iff by (fastforce split: option.splits)

lemma session_sim_add:
  assumes "session_sim T now s a" "inj_on key T" "hex_EncodeToString b \<in> T"
    "expiry s (key (hex_EncodeToString b)) = None"
  shows "session_sim T now (add now b s) (a(hex_EncodeToString b \<mapsto> now))"
  using assms unfolding session_sim_def
  by (auto simp: expiry_add dest: inj_onD split: option.splits)

lemma session_sim_use:
  assumes sim: "session_sim T now s a" and inj: "inj_on key T" and t: "t \<in> T" and le: "now \<le> now2"
  shows "session_sim T now2 (snd (check now now2 t s)) (session_spec ttl (EvUse now now2 t) a)"
proof (cases "fst (check now now2 t s)")
  case True
  then obtain x where "a t = Some x" "now < x + ttl" using session_sim_check [OF sim t] by auto
  then have eq: "session_spec ttl (EvUse now now2 t) a = a(t \<mapsto> now2)" by simp
  have "key u = key t \<longleftrightarrow> u = t" if "u \<in> T" for u using inj t that by (meson inj_onD)
  then show ?thesis using session_sim_later [OF sim le] True unfolding eq session_sim_def
    by (fastforce simp: expiry_check split: option.splits)
next
  case False
  then have "session_spec ttl (EvUse now now2 t) a = a"
    using session_sim_check [OF sim t, of now now2] by (auto split: option.splits)
  then show ?thesis using session_sim_later [OF sim le] False
    by (simp add: session_sim_def expiry_check)
qed

lemma session_sim_revoke:
  "session_sim T now s a \<Longrightarrow> inj_on key T \<Longrightarrow> t \<in> T \<Longrightarrow> session_sim T now (revoke t s) (a(t := None))"
  unfolding session_sim_def by (auto simp: expiry_revoke dest: inj_onD split: option.splits)

lemma session_sim_revoke_all: "session_sim T now (revoke_all s) Map.empty"
  by (simp add: session_sim_def expiry_revoke_all)

lemma session_sim_clean: "session_sim T now s a \<Longrightarrow> session_sim T now (clean now s) a"
  unfolding session_sim_def by (fastforce simp: expiry_clean split: option.splits)

text \<open>Only the tokens of past logins are stored.\<close>

lemma step_stored:
  assumes "expiry (session_step add check revoke revoke_all clean e s) k \<noteq> None"
    "\<forall>t \<in> set (ev_logins e). expiry s (key t) = None"
  shows "expiry s k \<noteq> None \<or> k \<in> key ` set (ev_logins e)"
  using assms
  by (cases e) (auto simp: expiry_add expiry_check check_iff expiry_revoke expiry_revoke_all
      expiry_clean split: if_splits option.splits)

lemma ev_logins_tokens: "set (ev_logins e) \<subseteq> set (ev_tokens e)"
  by (cases e) auto

lemma step_fresh:
  assumes "inj_on key T" "\<forall>f \<in> set (e # es). set (ev_tokens f) \<subseteq> T" "distinct (concat (map ev_logins (e # es)))"
    "\<forall>t \<in> set (concat (map ev_logins (e # es))). expiry s (key t) = None" "t \<in> set (concat (map ev_logins es))"
  shows "expiry (session_step add check revoke revoke_all clean e s) (key t) = None"
proof (rule ccontr)
  assume "expiry (session_step add check revoke revoke_all clean e s) (key t) \<noteq> None"
  then have "expiry s (key t) \<noteq> None \<or> key t \<in> key ` set (ev_logins e)"
    using assms(4) by (intro step_stored) auto
  then obtain u where u: "u \<in> set (ev_logins e)" "key u = key t" using assms(4,5) by auto
  then have "u \<in> T" using assms(2) ev_logins_tokens [of e] by auto
  moreover have "t \<in> T" using assms(2,5) ev_logins_tokens by fastforce
  ultimately have "u = t" using assms(1) u(2) by (auto dest: inj_onD)
  then show False using assms(3,5) u(1) by auto
qed

lemma session_sim_run:
  assumes "session_sim T t0 s a" "inj_on key T" "ev_clock t0 es t1"
    "\<forall>e \<in> set es. set (ev_tokens e) \<subseteq> T" "distinct (concat (map ev_logins es))"
    "\<forall>t \<in> set (concat (map ev_logins es)). expiry s (key t) = None"
  shows "session_sim T t1 (fold (session_step add check revoke revoke_all clean) es s)
           (fold (session_spec ttl) es a)"
  using assms
proof (induction es arbitrary: s a t0)
  case Nil
  then show ?case by (auto intro: session_sim_later)
next
  case (Cons e es)
  let ?s = "session_step add check revoke revoke_all clean e s"
  have fresh: "expiry ?s (key t) = None" if "t \<in> set (concat (map ev_logins es))" for t
    using step_fresh [OF Cons.prems(2,4-6) that] .
  have rest: "distinct (concat (map ev_logins es))" "\<forall>f \<in> set es. set (ev_tokens f) \<subseteq> T"
    using Cons.prems(4,5) by auto
  note IH = Cons.IH [OF _ Cons.prems(2) _ rest(2,1)]
  have toks: "set (ev_tokens e) \<subseteq> T" using Cons.prems(4) by simp
  have new: "\<forall>t \<in> set (ev_logins e). expiry s (key t) = None" using Cons.prems(6) by simp
  show ?case
  proof (cases e)
    case (EvLogin now b)
    then show ?thesis using Cons.prems(1-3) toks new fresh
      by (auto intro!: IH [of now] session_sim_add elim: session_sim_later)
  next
    case (EvUse now now2 t)
    then show ?thesis using Cons.prems(1-3) toks fresh
      by (auto intro!: IH [of now2] session_sim_use simp del: session_spec.simps
            elim: session_sim_later)
  next
    case (EvClean now)
    then show ?thesis using Cons.prems(1-3) fresh
      by (auto intro!: IH [of now] session_sim_clean elim: session_sim_later)
  qed (use Cons.prems(1-3) toks fresh in
      \<open>auto intro!: IH [of t0] session_sim_revoke session_sim_revoke_all\<close>)
qed

theorem run_refines_spec:
  assumes "\<And>k. expiry s k = None" "inj_on key T" "t \<in> T" "\<forall>e \<in> set es. set (ev_tokens e) \<subseteq> T"
    "distinct (concat (map ev_logins es))" "ev_clock t0 es now"
  shows "fst (check now now2 t (fold (session_step add check revoke revoke_all clean) es s)) \<longleftrightarrow>
           (\<exists>x. fold (session_spec ttl) es Map.empty t = Some x \<and> now < x + ttl)"
proof -
  have "session_sim T t0 s Map.empty" using assms(1) by (simp add: session_sim_def)
  from session_sim_run [OF this assms(2,6,4,5)] assms(1) show ?thesis
    by (intro session_sim_check [OF _ assms(3)]) auto
qed

end

section \<open>The store implements the session interface\<close>

definition ok_faults :: auth_faults where
  "ok_faults = (\<lambda>_. False)"

text \<open>A login that drew the bytes \<open>b\<close>.\<close>

definition auth_login :: "(string \<Rightarrow> byte list) \<Rightarrow> instant \<Rightarrow> byte list \<Rightarrow> auth_store \<Rightarrow> auth_store" where
  "auth_login sha now b s = snd (auth_CreateSession ok_faults sha (\<lambda>_. Some b) now s)"

definition auth_event :: "(string \<Rightarrow> byte list) \<Rightarrow> session_event \<Rightarrow> auth_store \<Rightarrow> auth_store" where
  "auth_event sha = session_step (auth_login sha) (ValidSession ok_faults sha)
     (DeleteSession ok_faults sha) (DeleteAllSessions ok_faults) (CleanExpiredSessions ok_faults)"

interpretation sess: session_store "hashToken sha" as_sessions sessionDuration
  "auth_login sha" "ValidSession ok_faults sha" "DeleteSession ok_faults sha"
  "DeleteAllSessions ok_faults" "CleanExpiredSessions ok_faults" for sha
  by unfold_locales
    (auto simp: auth_login_def auth_CreateSession_def ValidSession_def DeleteSession_def
      DeleteAllSessions_def CleanExpiredSessions_def ok_faults_def Let_def split: option.splits)

section \<open>Facts\<close>

lemma CreateSession_Ok:
  "auth_CreateSession fl sha rnd now s = (Ok token, s') \<longleftrightarrow>
     (\<exists>b. rnd 32 = Some b \<and> token = hex_EncodeToString b \<and> \<not> fl AsInsertSession
        \<and> as_sessions s (hashToken sha token) = None
        \<and> s' = s\<lparr>as_sessions := (as_sessions s)(hashToken sha token \<mapsto> now + sessionDuration)\<rparr>)"
  by (auto simp: auth_CreateSession_def Let_def split: option.splits if_splits)

lemma SetPassword_sessions [simp]: "as_sessions (snd (SetPassword fl g p s)) = as_sessions s"
  by (auto simp: SetPassword_def split: option.splits)

lemma SetPassword_OkD:
  "SetPassword fl g p s = (None, s') \<Longrightarrow>
     \<exists>h. g p (as_bcryptCost s) = Some h \<and> minPasswordLen \<le> length p
       \<and> s' = s\<lparr>as_settings := (as_settings s)(''password_hash'' \<mapsto> h)\<rparr>"
  by (auto simp: SetPassword_def split: if_splits option.splits)

lemma ValidSession_settings [simp]: "as_settings (snd (ValidSession fl sha n1 n2 t s)) = as_settings s"
  by (auto simp: ValidSession_def Let_def split: option.splits)

section \<open>Properties\<close>

text \<open>
  C8: The sessions table implements the sliding window. After any sequence of logins, checked
  requests, logouts, revocations and clean-ups on a clock that does not run backwards, a token is
  accepted exactly when it was logged in, has not been revoked since and was last used less than
  30 days ago; removing expired rows never changes an answer. Hypotheses: the digest does not
  collide on the tokens involved and the random source gives each login its own token.
\<close>

theorem sessions_refine_spec:
  assumes "inj_on (hashToken sha) T" "t \<in> T" "\<forall>e \<in> set es. set (ev_tokens e) \<subseteq> T"
    and "distinct (concat (map ev_logins es))" "ev_clock t0 es now"
  shows "fst (ValidSession ok_faults sha now now2 t
                (fold (auth_event sha) es (auth_NewStore settings Map.empty))) \<longleftrightarrow>
           (\<exists>x. fold (session_spec sessionDuration) es Map.empty t = Some x
              \<and> now < x + sessionDuration)"
  unfolding auth_event_def
  by (rule sess.run_refines_spec [OF _ assms]) (simp add: auth_NewStore_def)

text \<open>A login, a use after 20 days, a clean-up after 40 days, and the same token on day 45.\<close>

definition day_events :: "session_event list" where
  "day_events = [EvLogin 0 [7], EvUse (480 * hour) (480 * hour) ''07'', EvClean (960 * hour)]"

definition char_bytes :: "string \<Rightarrow> byte list" where
  "char_bytes = map (\<lambda>c. of_nat (of_char c))"

theorem sessions_refine_spec_witness:
  "fst (ValidSession ok_faults char_bytes (1080 * hour) (1080 * hour) ''07''
      (fold (auth_event char_bytes) day_events (auth_NewStore Map.empty Map.empty)))"
proof -
  have "inj_on (hashToken char_bytes) {''07''}" "''07'' \<in> {''07''}"
    "\<forall>e \<in> set day_events. set (ev_tokens e) \<subseteq> {''07''}" by (simp, simp) code_simp
  moreover have "distinct (concat (map ev_logins day_events))" "ev_clock 0 day_events (1080 * hour)"
    by code_simp+
  moreover have "fold (session_spec sessionDuration) day_events Map.empty ''07'' = Some (480 * hour)
      \<and> 1080 * hour < 480 * hour + sessionDuration" by code_simp
  ultimately show ?thesis using sessions_refine_spec by blast
qed

end
