(* ===== verification/Auth.thy ===== *)
theory Auth
  imports Auth_Store Go_Http
begin

text \<open>
  The authentication middleware and the session cookie (\<^verbatim>\<open>internal/auth/auth.go\<close>). The store is
  part of the server state; \<open>get\<close> and \<open>put\<close> locate it there. One request sees one set of outside
  values (\<open>auth_env\<close>): the clock, the digest, bcrypt, the random source and the driver faults.
\<close>

section \<open>Configuration\<close>

record cookie_config =
  cc_Domain :: string
  cc_Secure :: bool

text \<open>\<open>New\<close>: the cookie is secure unless the caller overrides it.\<close>

definition auth_New :: cookie_config where
  "auth_New = \<lparr>cc_Domain = [], cc_Secure = True\<rparr>"

definition AuthRequiredHeader :: string where
  "AuthRequiredHeader = ''X-Appx-Auth''"

record auth_env =
  ae_now :: instant
  ae_now2 :: instant
  ae_sha :: "string \<Rightarrow> byte list"
  ae_bc_gen :: "string \<Rightarrow> int \<Rightarrow> string option"
  ae_bc_cmp :: "string \<Rightarrow> string \<Rightarrow> bool"
  ae_rnd :: random
  ae_faults :: auth_faults

section \<open>Middleware\<close>

definition reject_unauthenticated :: "http_response \<Rightarrow> http_response" where
  "reject_unauthenticated w =
     http_Error (set_header w AuthRequiredHeader ''required'') ''unauthorized'' 401"

definition auth_Middleware ::
  "('s \<Rightarrow> auth_store) \<Rightarrow> (auth_store \<Rightarrow> 's \<Rightarrow> 's) \<Rightarrow> auth_env \<Rightarrow> 's handler \<Rightarrow> 's handler" where
  "auth_Middleware get put env next r ws =
     (case ws of (w, s) \<Rightarrow>
        case request_Cookie r ''appx_session'' of
          None \<Rightarrow> (reject_unauthenticated w, s)
        | Some token \<Rightarrow>
            (case ValidSession (ae_faults env) (ae_sha env) (ae_now env) (ae_now2 env) token (get s) of
               (ok, st) \<Rightarrow>
                 if \<not> ok then (reject_unauthenticated w, put st s)
                 else next r (w, put st s)))"

definition SetSessionCookie :: "cookie_config \<Rightarrow> string \<Rightarrow> http_response \<Rightarrow> http_response" where
  "SetSessionCookie cfg token w =
     SetCookie w \<lparr>ck_Name = ''appx_session'', ck_Value = token, ck_Path = ''/'', ck_Domain = cc_Domain cfg,
       ck_HttpOnly = True, ck_SameSiteLax = True, ck_Secure = cc_Secure cfg,
       ck_MaxAge = sessionDuration div second\<rparr>"

section \<open>Facts\<close>

text \<open>Whether the request carries a session that the store accepts.\<close>

definition authenticated :: "auth_env \<Rightarrow> http_request \<Rightarrow> auth_store \<Rightarrow> bool" where
  "authenticated env r st =
     (case request_Cookie r ''appx_session'' of
        None \<Rightarrow> False
      | Some token \<Rightarrow> fst (ValidSession (ae_faults env) (ae_sha env) (ae_now env) (ae_now2 env) token st))"

lemma ValidSession_failed: "ValidSession fl sha n1 n2 t st = (False, st') \<Longrightarrow> st' = st"
  by (auto simp: ValidSession_def Let_def split: option.splits if_splits)

lemma rs_status_reject [simp]: "rs_Sent w = None \<Longrightarrow> rs_status (reject_unauthenticated w) = 401"
  by (simp add: reject_unauthenticated_def http_defs)

lemma sent_header_reject [simp]:
  "rs_Sent w = None \<Longrightarrow> sent_header (reject_unauthenticated w) AuthRequiredHeader = Some ''required''"
  by (simp add: reject_unauthenticated_def http_defs map_of_header_Set AuthRequiredHeader_def)

text \<open>
  The interface of the middleware: a rejected request reaches nothing behind it and changes
  nothing; an accepted one reaches the handler, with the session extended.
\<close>

locale state_lens =
  fixes get :: "'s \<Rightarrow> 'a" and put :: "'a \<Rightarrow> 's \<Rightarrow> 's"
  assumes put_get: "put (get s) s = s"
    and get_put: "get (put a s) = a"
begin

lemma put_get_eq: "a = get s \<Longrightarrow> put a s = s"
  by (simp add: put_get)

end

locale auth_lens = state_lens get put for get :: "'s \<Rightarrow> auth_store" and put :: "auth_store \<Rightarrow> 's \<Rightarrow> 's"
begin

lemma middleware_rejects:
  "\<not> authenticated env r (get s) \<Longrightarrow>
     auth_Middleware get put env next r (w, s) = (reject_unauthenticated w, s)"
proof (cases "request_Cookie r ''appx_session''")
  case None
  then show ?thesis by (simp add: auth_Middleware_def)
next
  case (Some token)
  assume "\<not> authenticated env r (get s)"
  then obtain st where st: "ValidSession (ae_faults env) (ae_sha env) (ae_now env) (ae_now2 env) token (get s)
      = (False, st)"
    using Some by (cases "ValidSession (ae_faults env) (ae_sha env) (ae_now env) (ae_now2 env) token (get s)")
      (auto simp: authenticated_def)
  have "st = get s" using ValidSession_failed [OF st] .
  then show ?thesis using Some st by (simp add: auth_Middleware_def put_get)
qed

lemma middleware_accepts:
  "authenticated env r (get s) \<Longrightarrow>
     auth_Middleware get put env next r (w, s) =
       next r (w, put (snd (ValidSession (ae_faults env) (ae_sha env) (ae_now env) (ae_now2 env)
                 (the (request_Cookie r ''appx_session'')) (get s))) s)"
  by (auto simp: authenticated_def auth_Middleware_def split: option.splits prod.splits)

end

end
