(* ===== verification/Rate_Limiter.thy ===== *)
theory Rate_Limiter
  imports Go_Net Go_Http
begin

text \<open>
  The login rate limiter and the client address it keys on (\<^verbatim>\<open>internal/server/ratelimit.go\<close>).
  The limiter is a record with its map of attempt times; the clock reading of each call is an
  argument. A run interleaves requests and clean-ups in any order on a clock that does not run
  backwards; the specification keeps the whole log of accepted requests and never prunes.
\<close>

unbundle bit_operations_syntax

section \<open>The limiter\<close>

record rate_limiter =
  rl_attempts :: "string \<rightharpoonup> instant list"
  rl_window :: duration
  rl_max :: int

definition newRateLimiter :: "duration \<Rightarrow> int \<Rightarrow> rate_limiter" where
  "newRateLimiter window mx = \<lparr>rl_attempts = Map.empty, rl_window = window, rl_max = mx\<rparr>"

definition rl_times :: "rate_limiter \<Rightarrow> string \<Rightarrow> instant list" where
  "rl_times rl ip = (case rl_attempts rl ip of Some ts \<Rightarrow> ts | None \<Rightarrow> [])"

definition rl_cleanup :: "instant \<Rightarrow> rate_limiter \<Rightarrow> rate_limiter" where
  "rl_cleanup now rl =
     (let cutoff = now - rl_window rl in
      rl\<lparr>rl_attempts := (\<lambda>ip. case rl_attempts rl ip of
           None \<Rightarrow> None
         | Some ts \<Rightarrow>
             let valid = filter (\<lambda>t. cutoff < t) ts in
             if length valid = 0 then None else Some valid)\<rparr>)"

definition rl_allow :: "instant \<Rightarrow> string \<Rightarrow> rate_limiter \<Rightarrow> bool \<times> rate_limiter" where
  "rl_allow now ip rl =
     (let cutoff = now - rl_window rl;
          valid = filter (\<lambda>t. cutoff < t) (rl_times rl ip) in
      if int (length valid) \<ge> rl_max rl
      then (False, rl\<lparr>rl_attempts := (rl_attempts rl)(ip \<mapsto> valid)\<rparr>)
      else (True, rl\<lparr>rl_attempts := (rl_attempts rl)(ip \<mapsto> valid @ [now])\<rparr>))"

section \<open>The client address\<close>

definition trustedProxyCIDRs :: "ip_net list" where
  "trustedProxyCIDRs =
     concat (map (\<lambda>c. case ParseCIDR c of Some n \<Rightarrow> [n] | None \<Rightarrow> [])
       [''127.0.0.0/8'', ''::1/128'', ''10.0.0.0/8'', ''172.16.0.0/12'', ''192.168.0.0/16'',
        ''169.254.0.0/16'', ''fe80::/10'', ''fc00::/7''])"

definition isTrustedProxy :: "string \<Rightarrow> bool" where
  "isTrustedProxy s =
     (case ParseIP (TrimSpace s) of
        None \<Rightarrow> False
      | Some parsed \<Rightarrow> list_ex (\<lambda>network. net_Contains network parsed) trustedProxyCIDRs)"

definition parseIP :: "string \<Rightarrow> string" where
  "parseIP raw0 =
     (let raw1 = TrimSpace raw0;
          raw2 = (case IndexByte raw1 CHR '','' of Some i \<Rightarrow> TrimSpace (take i raw1) | None \<Rightarrow> raw1);
          raw3 = (case SplitHostPort raw2 of Some (host, _) \<Rightarrow> host | None \<Rightarrow> raw2)
      in if ParseIP raw3 = None then [] else raw3)"

definition getClientIP :: "http_request \<Rightarrow> string" where
  "getClientIP r =
     (let remoteIP = parseIP (rq_RemoteAddr r);
          xff = parseIP (header_Get (rq_Header r) ''X-Forwarded-For'');
          xri = parseIP (header_Get (rq_Header r) ''X-Real-Ip'') in
      if isTrustedProxy remoteIP \<and> xff \<noteq> [] then xff
      else if isTrustedProxy remoteIP \<and> xri \<noteq> [] then xri
      else if remoteIP \<noteq> [] then remoteIP
      else rq_RemoteAddr r)"

text \<open>The middleware around a handler; \<open>get\<close> and \<open>put\<close> locate the limiter in the server state.\<close>

definition rl_middleware ::
  "('s \<Rightarrow> rate_limiter) \<Rightarrow> (rate_limiter \<Rightarrow> 's \<Rightarrow> 's) \<Rightarrow> instant \<Rightarrow> 's handler \<Rightarrow> 's handler" where
  "rl_middleware get put now next r ws =
     (case ws of (w, s) \<Rightarrow>
        case rl_allow now (getClientIP r) (get s) of (ok, rl) \<Rightarrow>
          if \<not> ok then (http_Error w ''too many requests'' 429, put rl s)
          else next r (w, put rl s))"

section \<open>Runs and the specification\<close>

datatype rl_event = RlAllow instant string | RlCleanup instant

primrec rl_event_time :: "rl_event \<Rightarrow> instant" where
  "rl_event_time (RlAllow now ip) = now"
| "rl_event_time (RlCleanup now) = now"

fun rl_run :: "rl_event list \<Rightarrow> rate_limiter \<Rightarrow> bool list" where
  "rl_run [] rl = []"
| "rl_run (RlAllow now ip # es) rl = (case rl_allow now ip rl of (b, rl') \<Rightarrow> b # rl_run es rl')"
| "rl_run (RlCleanup now # es) rl = rl_run es (rl_cleanup now rl)"

text \<open>The specification decides on the complete log of accepted requests.\<close>

definition log_recent :: "duration \<Rightarrow> instant \<Rightarrow> string \<Rightarrow> (instant \<times> string) list \<Rightarrow> instant list" where
  "log_recent window now ip log =
     filter (\<lambda>t. now - window < t) (map fst (filter (\<lambda>e. snd e = ip) log))"

fun spec_run ::
  "duration \<Rightarrow> int \<Rightarrow> rl_event list \<Rightarrow> (instant \<times> string) list \<Rightarrow> bool list \<times> (instant \<times> string) list" where
  "spec_run window mx [] log = ([], log)"
| "spec_run window mx (RlAllow now ip # es) log =
     (let ok = int (length (log_recent window now ip log)) < mx;
          (bs, log') = spec_run window mx es (if ok then log @ [(now, ip)] else log)
      in (ok # bs, log'))"
| "spec_run window mx (RlCleanup now # es) log = spec_run window mx es log"

abbreviation rl_clock :: "rl_event list \<Rightarrow> bool" where
  "rl_clock es \<equiv> sorted (map rl_event_time es)"

section \<open>Facts: the limiter\<close>

definition rl_sim :: "instant \<Rightarrow> rate_limiter \<Rightarrow> (instant \<times> string) list \<Rightarrow> bool" where
  "rl_sim now0 rl log \<longleftrightarrow>
     (\<forall>now ip. now0 \<le> now \<longrightarrow>
        filter (\<lambda>t. now - rl_window rl < t) (rl_times rl ip) = log_recent (rl_window rl) now ip log)"

lemma rl_params [simp]:
  "rl_window (rl_cleanup now rl) = rl_window rl" "rl_max (rl_cleanup now rl) = rl_max rl"
  "rl_window (snd (rl_allow now ip rl)) = rl_window rl" "rl_max (snd (rl_allow now ip rl)) = rl_max rl"
  by (simp_all add: rl_cleanup_def rl_allow_def Let_def)

lemma rl_sim_allow_iff:
  "rl_sim now rl log \<Longrightarrow>
     fst (rl_allow now ip rl) \<longleftrightarrow> int (length (log_recent (rl_window rl) now ip log)) < rl_max rl"
  by (auto simp: rl_sim_def rl_allow_def Let_def)

lemma rl_times_cleanup: "rl_times (rl_cleanup now rl) ip = filter (\<lambda>t. now - rl_window rl < t) (rl_times rl ip)"
  by (simp add: rl_times_def rl_cleanup_def Let_def split: option.splits)

lemma rl_times_allow:
  "rl_times (snd (rl_allow now ip rl)) ip' =
     (if ip' = ip then filter (\<lambda>t. now - rl_window rl < t) (rl_times rl ip)
        @ (if fst (rl_allow now ip rl) then [now] else [])
      else rl_times rl ip')"
  by (simp add: rl_times_def rl_allow_def Let_def)

lemma filter_later_cutoff:
  "now0 \<le> now \<Longrightarrow>
     filter (\<lambda>t. now - w < t) (filter (\<lambda>t. now0 - w < t) ts) = filter (\<lambda>t. now - w < (t::int)) ts"
  by (induction ts) auto

lemma log_recent_later [simp]:
  "now0 \<le> now \<Longrightarrow> filter ((<) (now - w)) (log_recent w now0 ip log) = log_recent w now ip log"
  unfolding log_recent_def by (rule filter_later_cutoff)

lemma rl_sim_later: "rl_sim now0 rl log \<Longrightarrow> now0 \<le> now \<Longrightarrow> rl_sim now rl log"
  by (simp add: rl_sim_def)

lemma rl_sim_cleanup: "rl_sim now rl log \<Longrightarrow> rl_sim now (rl_cleanup now rl) log"
  by (simp add: rl_sim_def rl_times_cleanup filter_later_cutoff)

lemma log_recent_snoc:
  "log_recent w now ip (log @ [(t, ip')]) =
     log_recent w now ip log @ (if ip' = ip \<and> now - w < t then [t] else [])"
  by (simp add: log_recent_def)

lemma rl_sim_allow:
  "rl_sim now rl log \<Longrightarrow>
     rl_sim now (snd (rl_allow now ip rl)) (if fst (rl_allow now ip rl) then log @ [(now, ip)] else log)"
  by (auto simp: rl_sim_def rl_times_allow filter_later_cutoff log_recent_snoc)

lemma rl_run_spec:
  assumes "rl_sim now0 rl log" "rl_clock es" "\<forall>e \<in> set es. now0 \<le> rl_event_time e"
  shows "rl_run es rl = fst (spec_run (rl_window rl) (rl_max rl) es log)"
  using assms
proof (induction es arbitrary: now0 rl log)
  case Nil
  then show ?case by simp
next
  case (Cons e es)
  let ?t = "rl_event_time e"
  have sim: "rl_sim ?t rl log" using Cons.prems by (auto intro: rl_sim_later)
  have rest: "rl_clock es" "\<forall>e \<in> set es. ?t \<le> rl_event_time e" using Cons.prems(2) by auto
  show ?case
  proof (cases e)
    case (RlCleanup now)
    then show ?thesis using Cons.IH [OF rl_sim_cleanup [OF sim]] rest by simp
  next
    case (RlAllow now ip)
    with sim have sim': "rl_sim now rl log" by simp
    show ?thesis
      using Cons.IH [OF rl_sim_allow [OF sim', of ip]] rest rl_sim_allow_iff [OF sim', of ip] RlAllow
      by (auto simp: Let_def split: prod.splits if_splits)
  qed
qed

text \<open>The log never holds more than \<open>mx\<close> entries of one address in one window.\<close>

definition log_within :: "duration \<Rightarrow> instant \<Rightarrow> string \<Rightarrow> (instant \<times> string) list \<Rightarrow> nat" where
  "log_within window now ip log =
     length (filter (\<lambda>e. snd e = ip \<and> now - window < fst e \<and> fst e \<le> now) log)"

lemma log_within_le_recent:
  "now0 \<le> now \<Longrightarrow> log_within w now ip log \<le> length (log_recent w now0 ip log)"
proof (induction log)
  case (Cons e log)
  then show ?case by (cases e) (auto simp: log_within_def log_recent_def)
qed (simp add: log_within_def)

lemma spec_run_bound:
  assumes "rl_clock es" "\<forall>e \<in> set es. \<forall>x \<in> set log. fst x \<le> rl_event_time e"
    and "\<forall>now ip. int (log_within w now ip log) \<le> mx"
  shows "int (log_within w now ip (snd (spec_run w mx es log))) \<le> mx"
  using assms
proof (induction es arbitrary: log)
  case Nil
  then show ?case by simp
next
  case (Cons e es)
  show ?case
  proof (cases e)
    case (RlCleanup t)
    then show ?thesis using Cons by simp
  next
    case (RlAllow t i)
    let ?ok = "int (length (log_recent w t i log)) < mx"
    let ?log = "if ?ok then log @ [(t, i)] else log"
    have "int (log_within w now ip ?log) \<le> mx" for now ip
    proof (cases "?ok \<and> i = ip \<and> t \<le> now")
      case True
      then have "int (log_within w now ip log) < mx"
        using log_within_le_recent [of t now w i log] by auto
      then show ?thesis using True by (simp add: log_within_def)
    next
      case False
      then show ?thesis using Cons.prems(3) by (auto simp: log_within_def)
    qed
    moreover have "\<forall>e \<in> set es. \<forall>x \<in> set ?log. fst x \<le> rl_event_time e"
      using Cons.prems(1,2) RlAllow by auto
    ultimately show ?thesis
      using Cons.IH [of ?log] Cons.prems(1) RlAllow by (auto simp: Let_def split: prod.splits)
  qed
qed

lemma rl_sim_new: "rl_sim now (newRateLimiter w mx) []"
  by (simp add: rl_sim_def newRateLimiter_def rl_times_def log_recent_def)

section \<open>Facts: addresses\<close>

lemma trusted_nets:
  "trustedProxyCIDRs =
     [\<lparr>net_IP = [127, 0, 0, 0], net_Mask = [255, 0, 0, 0]\<rparr>,
      \<lparr>net_IP = replicate 15 0 @ [1], net_Mask = replicate 16 255\<rparr>,
      \<lparr>net_IP = [10, 0, 0, 0], net_Mask = [255, 0, 0, 0]\<rparr>,
      \<lparr>net_IP = [172, 16, 0, 0], net_Mask = [255, 240, 0, 0]\<rparr>,
      \<lparr>net_IP = [192, 168, 0, 0], net_Mask = [255, 255, 0, 0]\<rparr>,
      \<lparr>net_IP = [169, 254, 0, 0], net_Mask = [255, 255, 0, 0]\<rparr>,
      \<lparr>net_IP = [254, 128] @ replicate 14 0, net_Mask = [255, 192] @ replicate 14 0\<rparr>,
      \<lparr>net_IP = [252] @ replicate 15 0, net_Mask = [254] @ replicate 15 0\<rparr>]"
  by code_simp

lemma byte_and_all [simp]: "b AND 255 = (b :: byte)"
proof -
  have "(255 :: byte) = - 1" by simp
  then show ?thesis by (simp only: and.right_neutral)
qed

lemma length_4_cases: "length b = 4 \<longleftrightarrow> (\<exists>x y z w. b = [x, y, z, w])"
  by (auto simp: numeral_eq_Suc length_Suc_conv)

lemma net_Contains_v4:
  assumes "To4 a = Some [x, y, z, w]"
  shows "net_Contains \<lparr>net_IP = [p, q, r, s], net_Mask = [k, l, m, n]\<rparr> a \<longleftrightarrow>
           p AND k = x AND k \<and> q AND l = y AND l \<and> r AND m = z AND m \<and> s AND n = w AND n"
  and "length bs \<noteq> 4 \<Longrightarrow> \<not> net_Contains \<lparr>net_IP = bs, net_Mask = ms\<rparr> a"
  using assms by (simp_all add: net_Contains_def mask_bytes_def)

text \<open>The trusted blocks are exactly the loopback, private and link-local addresses.\<close>

lemma trusted_v4:
  assumes "To4 a = Some [x, y, z, w]"
  shows "list_ex (\<lambda>n. net_Contains n a) trustedProxyCIDRs \<longleftrightarrow>
           IsLoopback a \<or> IsPrivate a \<or> IsLinkLocalUnicast a"
proof -
  have "list_ex (\<lambda>n. net_Contains n a) trustedProxyCIDRs \<longleftrightarrow>
      x = 127 \<or> x = 10 \<or> x = 172 \<and> y AND 240 = 16 \<or> x = 192 \<and> y = 168 \<or> x = 169 \<and> y = 254"
    unfolding trusted_nets by (auto simp add: net_Contains_v4 [OF assms])
  then show ?thesis
    using assms by (auto simp: IsLoopback_def IsPrivate_def IsLinkLocalUnicast_def)
qed

lemma map2_and_zeros: "length xs = n \<Longrightarrow> map2 (AND) xs (replicate n (0 :: byte)) = replicate n 0"
  by (induction xs arbitrary: n) auto

lemma map2_and_ones: "length xs = n \<Longrightarrow> map2 (AND) xs (replicate n (255 :: byte)) = xs"
  by (induction xs arbitrary: n) auto

lemma net_Contains_v6:
  assumes "To4 a = None" "length a = 16" "length m = k" "k \<le> 16" "length b = k"
  shows "net_Contains \<lparr>net_IP = b @ replicate (16 - k) 0, net_Mask = m @ replicate (16 - k) 0\<rparr> a \<longleftrightarrow>
           map2 (AND) b m = map2 (AND) (take k a) m"
    and "length bs \<noteq> 16 \<Longrightarrow> \<not> net_Contains \<lparr>net_IP = bs, net_Mask = ms\<rparr> a"
proof -
  have "map2 (AND) a (m @ replicate (16 - k) 0) = map2 (AND) (take k a) m @ replicate (16 - k) 0"
    using assms by (subst append_take_drop_id [of k a, symmetric], subst zip_append)
      (simp_all add: map2_and_zeros)
  then show "net_Contains \<lparr>net_IP = b @ replicate (16 - k) 0, net_Mask = m @ replicate (16 - k) 0\<rparr> a \<longleftrightarrow>
           map2 (AND) b m = map2 (AND) (take k a) m"
    using assms by (simp add: net_Contains_def mask_bytes_def map2_and_zeros)
qed (use assms in \<open>simp add: net_Contains_def\<close>)

lemma trusted_v6:
  assumes "To4 a = None" "length a = 16"
  shows "list_ex (\<lambda>n. net_Contains n a) trustedProxyCIDRs \<longleftrightarrow>
           IsLoopback a \<or> IsPrivate a \<or> IsLinkLocalUnicast a"
proof -
  obtain x y zs where a: "a = x # y # zs"
    using assms(2) by (cases a; cases "tl a") auto
  note v6 = net_Contains_v6 [OF assms]
  have lo: "net_Contains \<lparr>net_IP = replicate 15 0 @ [1], net_Mask = replicate 16 255\<rparr> a \<longleftrightarrow>
      a = replicate 15 0 @ [1]"
    using v6(1) [of "replicate 16 255" 16 "replicate 15 0 @ [1]"] assms(2)
      map2_and_ones [of "replicate 15 0 @ [1]" 16] map2_and_ones [of a 16] by auto
  have ll: "net_Contains \<lparr>net_IP = [254, 128] @ replicate 14 0, net_Mask = [255, 192] @ replicate 14 0\<rparr> a
      \<longleftrightarrow> x = 254 \<and> y AND 192 = 128"
    using v6(1) [of "[255, 192]" 2 "[254, 128]"] a by (simp only:) auto
  have pr: "net_Contains \<lparr>net_IP = [252] @ replicate 15 0, net_Mask = [254] @ replicate 15 0\<rparr> a
      \<longleftrightarrow> x AND 254 = 252"
    using v6(1) [of "[254]" 1 "[252]"] a by (simp only:) auto
  have no: "\<not> net_Contains \<lparr>net_IP = [p, q, r, s], net_Mask = ms\<rparr> a" for p q r s ms
    by (rule v6(2) [of "[]" 0 "[]"]) simp_all
  show ?thesis
    unfolding trusted_nets list_ex_Cons_iff list_ex_Nil_iff lo ll pr
    using assms a no by (simp add: IsLoopback_def IsPrivate_def IsLinkLocalUnicast_def) blast
qed

lemma trusted_iff:
  "length a = 16 \<Longrightarrow> list_ex (\<lambda>n. net_Contains n a) trustedProxyCIDRs \<longleftrightarrow>
     IsLoopback a \<or> IsPrivate a \<or> IsLinkLocalUnicast a"
proof (cases "To4 a")
  case (Some b)
  assume "length a = 16"
  with Some have "length b = 4" by (auto simp: To4_def split: if_splits)
  then obtain x y z w where "b = [x, y, z, w]" by (auto simp: length_4_cases)
  with Some show ?thesis using trusted_v4 by simp
qed (simp add: trusted_v6)

lemma parseIP_parses: "parseIP raw \<noteq> [] \<Longrightarrow> ParseIP (parseIP raw) \<noteq> None"
  by (auto simp: parseIP_def Let_def split: if_splits)

text \<open>The requests of a run that were let through, with their times.\<close>

definition accepted :: "rl_event list \<Rightarrow> bool list \<Rightarrow> (instant \<times> string) list" where
  "accepted es bs =
     concat (map2 (\<lambda>e b. case e of RlAllow now ip \<Rightarrow> if b then [(now, ip)] else [] | RlCleanup _ \<Rightarrow> [])
       (filter (\<lambda>e. case e of RlAllow _ _ \<Rightarrow> True | RlCleanup _ \<Rightarrow> False) es) bs)"

lemma accepted_spec: "log @ accepted es (fst (spec_run w mx es log)) = snd (spec_run w mx es log)"
  by (induction w mx es log rule: spec_run.induct)
    (auto simp: accepted_def Let_def split: prod.splits)

lemma rl_run_eq_spec:
  assumes "rl_clock es"
  shows "rl_run es (newRateLimiter window mx) = fst (spec_run window mx es [])"
proof (cases es)
  case (Cons e es')
  then have "\<forall>x \<in> set es. rl_event_time e \<le> rl_event_time x" using assms by simp
  from rl_run_spec [OF rl_sim_new assms this] show ?thesis
    by (simp add: newRateLimiter_def)
qed simp

text \<open>A textual address consists of hexadecimal digits, dots and colons only.\<close>

definition ip_char :: "char \<Rightarrow> bool" where
  "ip_char c \<longleftrightarrow> hex_val c \<noteq> None \<or> c = CHR ''.'' \<or> c = CHR '':''"

lemma is_digit_ip_char: "is_digit c \<Longrightarrow> ip_char c"
  by (simp add: ip_char_def hex_val_def is_digit_def Let_def) (metis of_nat_le_iff of_nat_numeral of_nat_of_char)

lemma those_SomeD: "those xs = Some ys \<Longrightarrow> \<forall>x \<in> set xs. x \<noteq> None"
  by (induction xs arbitrary: ys) (auto split: option.splits)

lemma set_Join: "set (Join sep xs) \<subseteq> set sep \<union> (\<Union>f \<in> set xs. set f)"
  by (induction sep xs rule: Join.induct) auto

lemma parseIPv4Fields_chars: "parseIPv4Fields s = Some v \<Longrightarrow> \<forall>c \<in> set s. ip_char c"
proof -
  assume s: "parseIPv4Fields s = Some v"
  have "\<forall>c \<in> set f. ip_char c" if "f \<in> set (Split CHR ''.'' s)" for f
  proof -
    have "v4_field f \<noteq> None"
      using s that by (auto simp: parseIPv4Fields_def Let_def dest!: those_SomeD split: if_splits)
    then show ?thesis
      by (auto simp: v4_field_def list_all_iff intro: is_digit_ip_char split: if_splits)
  qed
  moreover have "set s \<subseteq> {CHR ''.''} \<union> (\<Union>f \<in> set (Split CHR ''.'' s). set f)"
    using set_Join [of "[CHR ''.'']" "Split CHR ''.'' s"] by (simp add: Join_Split)
  moreover have "ip_char CHR ''.''" by (simp add: ip_char_def)
  ultimately show ?thesis by blast
qed

lemma hex_run_chars: "hex_run s n v = (off, acc) \<Longrightarrow> n \<le> off \<and> (\<forall>c \<in> set (take (off - n) s). ip_char c)"
proof (induction s n v rule: hex_run.induct)
  case (2 c s n v)
  show ?case
  proof (cases "hex_val c")
    case (Some x)
    with 2 have "Suc n \<le> off" "\<forall>c \<in> set (take (off - Suc n) s). ip_char c" by auto
    moreover from this(1) obtain d where "off - n = Suc d" "off - Suc n = d"
      by (metis Suc_diff_Suc Suc_le_eq)
    ultimately show ?thesis using Some by (auto simp: ip_char_def)
  qed (use 2 in simp)
qed simp

lemma v6_loop_colon:
  assumes "hex_run s 0 0 = (off, acc)" "0 < off" "\<not> 4 < off"
    "drop off s = CHR '':'' # d # zs"
  shows "v6_loop (Suc k) bs el s =
     (let bs' = bs @ [of_int (acc div 256), of_int (acc mod 256)] in
      if d = CHR '':'' then
        (if el \<noteq> None then None
         else if zs = [] then Some (bs', Some (length bs'), [])
         else v6_loop k bs' (Some (length bs')) zs)
      else v6_loop k bs' el (d # zs))"
  using assms by (simp add: Let_def)

lemma v6_loop_chars:
  "v6_loop k bs el s = Some (bs', el', s') \<Longrightarrow> \<forall>c \<in> set s. ip_char c \<or> c \<in> set s'"
proof (induction k arbitrary: bs el s)
  case (Suc k)
  obtain off acc where run: "hex_run s 0 0 = (off, acc)" by fastforce
  then have hd: "\<forall>c \<in> set (take off s). ip_char c" using hex_run_chars by fastforce
  have colon: "ip_char CHR '':''" by (simp add: ip_char_def)
  have split: "\<forall>c \<in> set s. c \<in> set (take off s) \<or> c \<in> set (drop off s)"
    by (metis Un_iff append_take_drop_id set_append)
  have off: "0 < off" "\<not> 4 < off" using Suc.prems run by (auto simp: Let_def split: if_splits)
  show ?case
  proof (cases "HasPrefix (drop off s) ''.''")
    case True
    then have "parseIPv4Fields s \<noteq> None" using Suc.prems run off
      by (auto simp: Let_def split: if_splits)
    then show ?thesis by (auto dest: parseIPv4Fields_chars)
  next
    case no_dot: False
    show ?thesis
    proof (cases "drop off s")
      case Nil
      then show ?thesis using hd split by auto
    next
      case (Cons c more)
      then have c: "c = CHR '':''" "more \<noteq> []" using Suc.prems run no_dot off
        by (auto simp: Let_def split: if_splits)
      then obtain d more' where more: "more = d # more'" by (cases more) auto
      note eq = v6_loop_colon [OF run off Cons [unfolded c(1) more], of k bs el, unfolded Let_def]
      have "\<forall>x \<in> set more. ip_char x \<or> x \<in> set s'"
      proof (cases "d = CHR '':'' \<and> more' = []")
        case True
        then show ?thesis using more colon by simp
      next
        case False
        obtain bs1 el1 where
          "v6_loop k bs1 el1 (if d = CHR '':'' then more' else more) = Some (bs', el', s')"
          using Suc.prems [unfolded eq, folded more] False
          by (cases "d = CHR '':''"; cases "el = None") simp_all
        from Suc.IH [OF this] show ?thesis using more colon by (auto split: if_splits)
      qed
      then show ?thesis using hd split Cons c colon by auto
    qed
  qed
qed simp

lemma ParseIP_chars: "ParseIP s = Some a \<Longrightarrow> s \<noteq> [] \<and> (\<forall>c \<in> set s. ip_char c)"
proof -
  assume s: "ParseIP s = Some a"
  have "\<forall>c \<in> set s. ip_char c" if v6: "parseIPv6 s = Some a"
  proof (cases "s = ''::''")
    case True
    then show ?thesis by (simp add: ip_char_def)
  next
    case False
    obtain k bs el rest where fin: "v6_finish (k, el, rest) = Some a"
      and loop: "(if HasPrefix s ''::'' then v6_loop 8 [] (Some 0) (drop 2 s) else v6_loop 8 [] None s)
        = Some (k, el, rest)"
      using v6 False by (auto simp: parseIPv6_def bind_eq_Some_conv split: if_splits)
    from fin have "rest = []" by (auto simp: v6_finish_def split: if_splits)
    moreover have "HasPrefix s ''::'' \<Longrightarrow> set s \<subseteq> {CHR '':''} \<union> set (drop 2 s)"
      by (cases s; cases "tl s") (auto simp: HasPrefix_def)
    moreover have "ip_char CHR '':''" by (simp add: ip_char_def)
    moreover have "\<forall>c \<in> set (if HasPrefix s ''::'' then drop 2 s else s). ip_char c"
      using loop \<open>rest = []\<close> by (auto dest!: v6_loop_chars split: if_splits)
    ultimately show ?thesis by (cases "HasPrefix s ''::''") auto
  qed
  then show ?thesis using s
    by (auto simp: ParseIP_def parseIPv4_def dest: parseIPv4Fields_chars split: option.splits if_splits)
qed

lemma ip_char_not:
  "ip_char c \<Longrightarrow> \<not> is_space c \<and> c \<noteq> CHR '','' \<and> c \<noteq> CHR ''['' \<and> c \<noteq> CHR '']''"
  by (auto simp: ip_char_def hex_val_def is_space_def Let_def split: if_splits)

text \<open>What \<open>parseIP\<close> makes of the peer address of a TCP connection.\<close>

lemma parseIP_peer:
  assumes "ParseIP host = Some a" "list_all is_digit port"
  shows "parseIP (JoinHostPort host port) = host"
proof -
  have host: "\<forall>c \<in> set host. ip_char c" and port: "\<forall>c \<in> set port. is_digit c"
    using ParseIP_chars [OF assms(1)] assms(2) by (simp_all add: list_all_iff)
  have p: "CHR '':'' \<notin> set port" "\<forall>c \<in> set port. ip_char c"
    using port by (auto simp: is_digit_def intro: is_digit_ip_char)
  have chars: "\<forall>c \<in> set (JoinHostPort host port). \<not> is_space c \<and> c \<noteq> CHR '',''"
  proof
    fix c assume "c \<in> set (JoinHostPort host port)"
    then have "ip_char c \<or> c = CHR ''['' \<or> c = CHR '']''"
      using host p(2) by (auto simp: JoinHostPort_def ip_char_def split: if_splits)
    then show "\<not> is_space c \<and> c \<noteq> CHR '',''"
      by (elim disjE) (simp_all add: ip_char_not, simp_all add: is_space_def)
  qed
  then have "TrimSpace (JoinHostPort host port) = JoinHostPort host port"
    "IndexByte (JoinHostPort host port) CHR '','' = None"
    by (auto intro!: TrimSpace_id)
  moreover have "SplitHostPort (JoinHostPort host port) = Some (host, port)"
    using host p by (intro Split_Join_HostPort) (auto dest: ip_char_not)
  ultimately show ?thesis
    using assms(1) by (simp add: parseIP_def Let_def del: IndexByte_None)
qed

lemma isTrustedProxy_iff:
  "isTrustedProxy s \<longleftrightarrow>
     (\<exists>a. ParseIP (TrimSpace s) = Some a \<and> (IsLoopback a \<or> IsPrivate a \<or> IsLinkLocalUnicast a))"
  using trusted_iff ParseIP_length by (auto simp: isTrustedProxy_def split: option.splits)


section \<open>Properties\<close>

text \<open>
  C22: The limiter decides exactly as if it kept the whole history: along any sequence of requests
  and background clean-ups on a clock that does not run backwards, a request is let through if
  and only if fewer than \<open>max\<close> accepted requests of the same address lie within the window.
  Pruning, overwriting and deleting entries is not observable.
\<close>

theorem rl_run_refines_spec:
  assumes "rl_clock es"
  shows "rl_run es (newRateLimiter window mx) = fst (spec_run window mx es [])"
  using assms by (rule rl_run_eq_spec)

theorem rl_run_refines_spec_witness:
  "rl_run [RlAllow 0 ''a'', RlAllow 1 ''a'', RlAllow 2 ''a'', RlCleanup 9, RlAllow 10 ''a'', RlAllow 10 ''b'']
     (newRateLimiter 10 2) = [True, True, False, True, True]"
proof -
  let ?es = "[RlAllow 0 ''a'', RlAllow 1 ''a'', RlAllow 2 ''a'', RlCleanup 9, RlAllow 10 ''a'', RlAllow 10 ''b'']"
  have "fst (spec_run 10 2 ?es []) = [True, True, False, True, True]" by code_simp
  then show ?thesis using rl_run_refines_spec [of ?es 10 2] by simp
qed

text \<open>
  C34: Brute-force bound. No address gets more than \<open>max\<close> requests through in any time window of
  the configured length, wherever the window lies.
\<close>

theorem rl_window_bound:
  assumes "rl_clock es" "0 \<le> mx"
  shows "int (log_within window now ip (accepted es (rl_run es (newRateLimiter window mx)))) \<le> mx"
proof -
  have "accepted es (rl_run es (newRateLimiter window mx)) = snd (spec_run window mx es [])"
    using accepted_spec [of "[]"] rl_run_eq_spec [OF assms(1)] by simp
  moreover have "int (log_within window now ip (snd (spec_run window mx es []))) \<le> mx"
    using assms by (intro spec_run_bound) (simp_all add: log_within_def)
  ultimately show ?thesis by simp
qed

theorem rl_window_bound_witness:
  "int (log_within 10 9 ''a'' (accepted (map (\<lambda>t. RlAllow t ''a'') [0..9])
      (rl_run (map (\<lambda>t. RlAllow t ''a'') [0..9]) (newRateLimiter 10 5)))) \<le> 5"
  by (rule rl_window_bound) (code_simp, simp)

text \<open>
  C35: Which address a request is charged to. A peer that connects from a public address is
  charged to that address whatever headers it sends; only loopback, private and link-local peers
  can name another client, by X-Forwarded-For first and X-Real-IP second.
\<close>

theorem getClientIP_spoof_resistant:
  assumes "rq_RemoteAddr r = JoinHostPort host port" "ParseIP host = Some a" "list_all is_digit port"
  shows "getClientIP r =
    (if IsLoopback a \<or> IsPrivate a \<or> IsLinkLocalUnicast a
     then (let xff = parseIP (header_Get (rq_Header r) ''X-Forwarded-For'');
               xri = parseIP (header_Get (rq_Header r) ''X-Real-Ip'')
           in if xff \<noteq> [] then xff else if xri \<noteq> [] then xri else host)
     else host)"
proof -
  have "TrimSpace host = host" "host \<noteq> []"
    using ParseIP_chars [OF assms(2)] by (auto intro!: TrimSpace_id dest: ip_char_not)
  with assms show ?thesis
    by (auto simp: getClientIP_def parseIP_peer isTrustedProxy_iff Let_def)
qed

definition spoofed_request :: http_request where
  "spoofed_request = base_request\<lparr>rq_Method := ''POST'', rq_Path := ''/api/login'',
     rq_RemoteAddr := ''8.8.4.4:5123'', rq_Header := [(''X-Forwarded-For'', ''1.1.1.1'')]\<rparr>"

theorem getClientIP_spoof_resistant_witness:
  "getClientIP spoofed_request = ''8.8.4.4''"
proof -
  have a: "ParseIP ''8.8.4.4'' = Some (v4InV6Prefix @ [8, 8, 4, 4])" by code_simp
  have "rq_RemoteAddr spoofed_request = JoinHostPort ''8.8.4.4'' ''5123''" "list_all is_digit ''5123''"
    by code_simp+
  note g = getClientIP_spoof_resistant [OF this(1) a this(2)]
  have "\<not> (IsLoopback (v4InV6Prefix @ [8, 8, 4, 4]) \<or> IsPrivate (v4InV6Prefix @ [8, 8, 4, 4])
      \<or> IsLinkLocalUnicast (v4InV6Prefix @ [8, 8, 4, 4]))" by code_simp
  then show ?thesis using g by simp
qed

end
