(* ===== verification/Project_Model.thy ===== *)
theory Project_Model
  imports Go_Strings
begin

text \<open>
  The project data model (\<^verbatim>\<open>internal/project/project.go\<close>): statuses, port ranges, the
  \<open>Project\<close> and \<open>Deployment\<close> structs, the error values, and \<open>ValidateName\<close>. The facts
  characterise the accepted names and show what the other components rely on: a valid name
  is one DNS label and one path element, and never ends in the reserved suffix.
\<close>

section \<open>Data\<close>

datatype project_status =
  StatusStopped | StatusStarting | StatusRunning | StatusStopping | StatusError

definition PortRangeStart :: int where
  "PortRangeStart = 10000"

definition PortRangeEnd :: int where
  "PortRangeEnd = 10999"

definition PublishedPortRangeEnd :: int where
  "PublishedPortRangeEnd = 10199"

record project =
  p_ID :: string
  p_Name :: string
  p_Status :: project_status
  p_AssignedPort :: int
  p_DevPort :: int
  p_LastError :: string
  p_CreatedAt :: instant
  p_AppRunning :: bool
  p_DevRunning :: bool
  p_ProjectDir :: string

record env_target =
  et_Port :: int
  et_URL :: string

record deployment =
  dep_Dev :: env_target
  dep_Prod :: env_target

text \<open>
  The error values of the package; \<open>ErrDB\<close> stands for the wrapped driver errors (its string
  is the wrapping prefix) and \<open>ErrAgent\<close> for the wrapped agent-server errors of the manager.
\<close>

datatype project_error =
    ErrInvalidName | ErrDuplicateName | ErrNotFound | ErrInvalidState
  | ErrReservedNameSuffix | ErrNoPortAvailable
  | ErrDB string | ErrAgent string string

section \<open>ValidateName\<close>

definition is_lower :: "char \<Rightarrow> bool" where
  "is_lower c \<longleftrightarrow> 97 \<le> (of_char c :: nat) \<and> (of_char c :: nat) \<le> 122"

definition is_alnum_lower :: "char \<Rightarrow> bool" where
  "is_alnum_lower c \<longleftrightarrow> is_lower c \<or> is_digit c"

definition is_slug_char :: "char \<Rightarrow> bool" where
  "is_slug_char c \<longleftrightarrow> is_alnum_lower c \<or> c = CHR ''-''"

text \<open>The regular expression \<^verbatim>\<open>^[a-z][a-z0-9-]{0,61}[a-z0-9]$\<close>.\<close>

definition namePattern :: "string \<Rightarrow> bool" where
  "namePattern s \<longleftrightarrow>
     (case s of
        [] \<Rightarrow> False
      | c # cs \<Rightarrow> is_lower c \<and> cs \<noteq> [] \<and> is_alnum_lower (last cs)
                \<and> list_all is_slug_char (butlast cs) \<and> length (butlast cs) \<le> 61)"

definition ValidateName :: "string \<Rightarrow> project_error option" where
  "ValidateName name =
     (if length name < 2 \<or> \<not> namePattern name then Some ErrInvalidName
      else if HasSuffix name ''-dev'' then Some ErrReservedNameSuffix
      else None)"

abbreviation valid_name :: "string \<Rightarrow> bool" where
  "valid_name name \<equiv> ValidateName name = None"

section \<open>Facts\<close>

lemma is_alnum_slug: "is_alnum_lower c \<Longrightarrow> is_slug_char c"
  by (simp add: is_slug_char_def)

text \<open>The converse reading of the pattern: which strings are accepted.\<close>

lemma namePattern_iff:
  "namePattern s \<longleftrightarrow>
     (\<exists>a mid z. s = a # mid @ [z] \<and> is_lower a \<and> is_alnum_lower z
        \<and> list_all is_slug_char mid \<and> length mid \<le> 61)"
proof
  assume "namePattern s"
  then obtain c cs where s: "s = c # cs" "cs \<noteq> []" "is_lower c" "is_alnum_lower (last cs)"
    "list_all is_slug_char (butlast cs)" "length (butlast cs) \<le> 61"
    by (auto simp: namePattern_def split: list.splits)
  then have "s = c # butlast cs @ [last cs]" by simp
  with s show "\<exists>a mid z. s = a # mid @ [z] \<and> is_lower a \<and> is_alnum_lower z
        \<and> list_all is_slug_char mid \<and> length mid \<le> 61" by blast
qed (auto simp: namePattern_def)

lemma namePattern_slug: "namePattern s \<Longrightarrow> list_all is_slug_char s"
  by (auto simp: namePattern_iff is_slug_char_def is_alnum_lower_def)

lemma valid_name_slug: "valid_name name \<Longrightarrow> list_all is_slug_char name"
  by (auto simp: ValidateName_def namePattern_slug split: if_splits)

lemma valid_name_length: "valid_name name \<Longrightarrow> 2 \<le> length name \<and> length name \<le> 63"
  by (auto simp: ValidateName_def namePattern_def split: if_splits list.splits)

lemma valid_name_neq_Nil [simp]: "valid_name name \<Longrightarrow> name \<noteq> []"
  by (drule valid_name_length) auto

lemma valid_name_no_dev: "valid_name name \<Longrightarrow> \<not> HasSuffix name ''-dev''"
  by (auto simp: ValidateName_def split: if_splits)

lemma not_slug_char:
  "\<not> is_slug_char CHR ''.''" "\<not> is_slug_char CHR ''/''" "\<not> is_slug_char CHR '':''"
  "\<not> is_slug_char CHR 0x5C" "\<not> is_slug_char CHR ''%''" "\<not> is_slug_char CHR ''[''"
  "\<not> is_slug_char CHR '']''"
  by (simp_all add: is_slug_char_def is_alnum_lower_def is_lower_def is_digit_def)

lemma valid_name_no_special:
  assumes "valid_name name"
  shows "CHR ''.'' \<notin> set name" "CHR ''/'' \<notin> set name" "CHR '':'' \<notin> set name"
    "CHR ''['' \<notin> set name" "CHR '']'' \<notin> set name"
  using valid_name_slug [OF assms] not_slug_char by (auto simp: list_all_iff)

lemma valid_name_plain_elem: "valid_name name \<Longrightarrow> plain_elem name"
  using valid_name_no_special(1) [of name] by (auto simp: plain_elem_def)

end
