(* ===== verification/Terminal_Container.thy ===== *)
theory Terminal_Container
  imports Project_Model
begin

text \<open>
  Shells inside the agent's container (\<^verbatim>\<open>internal/terminal/container.go\<close>) and the command to run
  (\<open>CommandSpec\<close> of \<^verbatim>\<open>internal/terminal/local.go\<close>). A Go string is ranged over by code points; a
  byte outside ASCII is part of a code point that is refused, as is the byte itself.
\<close>

section \<open>Commands\<close>

text \<open>\<open>cs_Env\<close> is \<open>None\<close> for a nil slice.\<close>

record command_spec =
  cs_Name :: string
  cs_Args :: "string list"
  cs_Dir :: string
  cs_Env :: "string list option"

definition DefaultContainerShell :: string where
  "DefaultContainerShell = ''/bin/bash''"

record container_shell =
  cn_Bin :: string
  cn_Container :: string
  cn_WorkspaceDir :: string
  cn_Shell :: string

datatype shell_error = NoContainerCLI | NoContainerName | EmptyName | NotSingleSegment | UnexpectedChar

definition validSlug :: "string \<Rightarrow> shell_error option" where
  "validSlug name =
     (if name = [] then Some EmptyName
      else if name = ''.'' \<or> name = ''..'' \<or> ContainsAny name [CHR ''/'', CHR 0x5C] then Some NotSingleSegment
      else if \<not> list_all is_slug_char name then Some UnexpectedChar
      else None)"

definition CommandFor :: "container_shell \<Rightarrow> string \<Rightarrow> (shell_error, command_spec) result" where
  "CommandFor c projectName =
     (if cn_Bin c = [] then Err NoContainerCLI
      else if cn_Container c = [] then Err NoContainerName
      else (case validSlug projectName of
              Some e \<Rightarrow> Err e
            | None \<Rightarrow>
                let workspace = (if cn_WorkspaceDir c = [] then ''/workspace'' else cn_WorkspaceDir c);
                    shell = (if cn_Shell c = [] then DefaultContainerShell else cn_Shell c) in
                Ok \<lparr>cs_Name = cn_Bin c,
                    cs_Args = [''exec'', ''-i'', ''-t'', ''-e'', ''TERM=xterm-256color'',
                               ''-w'', path_Join [workspace, projectName],
                               cn_Container c, shell, ''-l''],
                    cs_Dir = [], cs_Env = None\<rparr>))"

section \<open>Facts\<close>

lemma validSlug_None:
  "validSlug name = None \<longleftrightarrow> name \<noteq> [] \<and> list_all is_slug_char name"
  using not_slug_char
  by (auto simp: validSlug_def ContainsAny_def list_all_iff list_ex_iff split: if_splits)

lemma valid_name_validSlug: "valid_name name \<Longrightarrow> validSlug name = None"
  by (simp add: validSlug_None valid_name_slug)

lemma slug_plain:
  assumes "validSlug name = None"
  shows "plain_elem name" "CHR ''/'' \<notin> set name"
  using assms not_slug_char by (auto simp: validSlug_None plain_elem_def list_all_iff)

section \<open>Properties\<close>

text \<open>
  A project shell stays in the project's directory. Whenever a command is built, the working
  directory handed to the container runtime is the cleaned workspace followed by the project name
  as one more path element, and the argument vector has exactly its ten fixed positions, so the
  name can neither leave the workspace nor become another argument; every name that passes project
  validation is accepted.
\<close>

theorem CommandFor_confined:
  assumes "CommandFor c name = Ok spec"
    and "HasPrefix (if cn_WorkspaceDir c = [] then ''/workspace'' else cn_WorkspaceDir c) ''/''"
  shows "(let ws = path_Clean (if cn_WorkspaceDir c = [] then ''/workspace'' else cn_WorkspaceDir c) in
            length (cs_Args spec) = 10 \<and> cs_Name spec = cn_Bin c \<and> cs_Args spec ! 7 = cn_Container c
          \<and> cs_Args spec ! 6 = (if ws = ''/'' then CHR ''/'' # name else ws @ CHR ''/'' # name)
          \<and> CHR ''/'' \<notin> set name \<and> name \<noteq> ''..'')
     \<and> (\<forall>n. valid_name n \<longrightarrow> is_ok (CommandFor c n))"
proof -
  have slug: "validSlug name = None" and cfg: "cn_Bin c \<noteq> []" "cn_Container c \<noteq> []"
    using assms(1) by (auto simp: CommandFor_def split: if_splits option.splits)
  note plain = slug_plain [OF slug]
  have "is_ok (CommandFor c n)" if "valid_name n" for n
    using valid_name_validSlug [OF that] cfg by (simp add: CommandFor_def Let_def)
  then show ?thesis
    using assms(1) slug cfg plain path_Join_plain [OF assms(2) plain]
    by (auto simp: CommandFor_def Let_def plain_elem_def)
qed

definition demo_shell :: container_shell where
  "demo_shell = \<lparr>cn_Bin = ''docker'', cn_Container = ''builder-outer'', cn_WorkspaceDir = [], cn_Shell = []\<rparr>"

theorem CommandFor_confined_witness:
  "\<exists>spec. CommandFor demo_shell ''shop'' = Ok spec \<and> cs_Args spec ! 6 = ''/workspace/shop''"
proof -
  have "is_ok (CommandFor demo_shell ''shop'')" by code_simp
  then obtain spec where spec: "CommandFor demo_shell ''shop'' = Ok spec"
    by (cases "CommandFor demo_shell ''shop''") auto
  have "HasPrefix (if cn_WorkspaceDir demo_shell = [] then ''/workspace'' else cn_WorkspaceDir demo_shell) ''/''"
    "path_Clean (if cn_WorkspaceDir demo_shell = [] then ''/workspace'' else cn_WorkspaceDir demo_shell) = ''/workspace''"
    by code_simp+
  with CommandFor_confined [OF spec] spec show ?thesis by (auto simp: Let_def)
qed

end
