(* ===== verification/Terminal_Local.thy ===== *)
theory Terminal_Local
  imports Terminal_Manager Terminal_Container
begin

text \<open>
  The local PTY session manager (\<^verbatim>\<open>internal/terminal/local.go\<close>). As in the container manager,
  sessions live in a heap and the registry holds identifiers. The operating system is an argument:
  the environment, the user database and whether starting a PTY works. A session records what
  became of its process: killed, and reaped by \<^verbatim>\<open>cmd.Wait\<close>.
\<close>

section \<open>Shell and environment\<close>

record os_env =
  os_Environ :: "string list"
  os_HOME :: string
  os_SHELL :: string
  os_user :: "(string \<times> string) option"
  os_getent :: "string \<Rightarrow> string option"

definition splitColon :: "string \<Rightarrow> string list" where
  "splitColon s = Split CHR '':'' (TrimRight s [CHR 0x0A])"

definition loginShell :: "os_env \<Rightarrow> string \<times> string" where
  "loginShell os =
     (let home = (case os_user os of
                    Some (_, dir) \<Rightarrow> if dir \<noteq> [] then dir else os_HOME os
                  | None \<Rightarrow> os_HOME os) in
      if os_SHELL os \<noteq> [] then (os_SHELL os, home)
      else (case os_user os of
              None \<Rightarrow> (''/bin/sh'', home)
            | Some (name, _) \<Rightarrow>
                (case os_getent os name of
                   None \<Rightarrow> (''/bin/sh'', home)
                 | Some out \<Rightarrow>
                     let fields = splitColon out in
                     (if 7 \<le> length fields \<and> fields ! 6 \<noteq> [] then fields ! 6 else ''/bin/sh'', home))))"

section \<open>State\<close>

record local_session =
  ls_CreatedAt :: instant
  ls_cmd :: command_spec
  ls_hub :: hub
  ls_ptmx_open :: bool
  ls_killed :: bool
  ls_reaped :: bool
  ls_done :: bool
  ls_closeOnce :: bool
  ls_pump_ended :: bool

record local_manager =
  lm_bufSize :: nat
  lm_sessions :: "string list"
  lm_heap :: "string \<rightharpoonup> local_session"

definition NewLocalManager :: "nat \<Rightarrow> local_manager" where
  "NewLocalManager bufSize = \<lparr>lm_bufSize = bufSize, lm_sessions = [], lm_heap = Map.empty\<rparr>"

section \<open>Operations\<close>

datatype local_error = NoExecutable | PtyStartError

definition CreateCommand ::
  "os_env \<Rightarrow> bool \<Rightarrow> string \<Rightarrow> instant \<Rightarrow> command_spec \<Rightarrow> local_manager
     \<Rightarrow> (local_error, string) result \<times> local_manager" where
  "CreateCommand os ptyOk uuid now spec m =
     (if cs_Name spec = [] then (Err NoExecutable, m)
      else
        let cmd = spec\<lparr>cs_Env := (case cs_Env spec of
                      Some e \<Rightarrow> Some e
                    | None \<Rightarrow> Some (os_Environ os @ [''TERM=xterm-256color'']))\<rparr> in
        if \<not> ptyOk then (Err PtyStartError, m)
        else (Ok uuid,
              m\<lparr>lm_sessions := removeAll uuid (lm_sessions m) @ [uuid],
                lm_heap := (lm_heap m)(uuid \<mapsto>
                  \<lparr>ls_CreatedAt = now, ls_cmd = cmd, ls_hub = new_hub (lm_bufSize m), ls_ptmx_open = True,
                   ls_killed = False, ls_reaped = False, ls_done = False, ls_closeOnce = False,
                   ls_pump_ended = False\<rparr>)\<rparr>))"

definition local_Create ::
  "os_env \<Rightarrow> bool \<Rightarrow> string \<Rightarrow> instant \<Rightarrow> string \<Rightarrow> local_manager
     \<Rightarrow> (local_error, string) result \<times> local_manager" where
  "local_Create os ptyOk uuid now cwd m =
     (case loginShell os of (shell, home) \<Rightarrow>
        CreateCommand os ptyOk uuid now
          \<lparr>cs_Name = shell, cs_Args = [''-l''], cs_Dir = (if cwd = [] then home else cwd),
           cs_Env = Some (os_Environ os @ [''TERM=xterm-256color'', ''HOME='' @ home])\<rparr> m)"

definition lm_GetSession :: "string \<Rightarrow> local_manager \<Rightarrow> local_session option" where
  "lm_GetSession i m = (if i \<in> set (lm_sessions m) then lm_heap m i else None)"

definition lm_upd_hub :: "string \<Rightarrow> hub \<Rightarrow> local_manager \<Rightarrow> local_manager" where
  "lm_upd_hub i h m = m\<lparr>lm_heap := (lm_heap m)(i := map_option (\<lambda>s. s\<lparr>ls_hub := h\<rparr>) (lm_heap m i))\<rparr>"

definition lm_Write :: "bool \<Rightarrow> string \<Rightarrow> byte list \<Rightarrow> local_manager \<Rightarrow> (term_error, byte list) result" where
  "lm_Write writeOk i data m =
     (if lm_GetSession i m = None then Err ErrSessionNotFound
      else if \<not> writeOk then Err ExecWriteError else Ok data)"

definition lm_Resize :: "bool \<Rightarrow> string \<Rightarrow> 16 word \<Rightarrow> 16 word \<Rightarrow> local_manager \<Rightarrow> (term_error, 16 word \<times> 16 word) result" where
  "lm_Resize setsizeOk i cols rows m =
     (if lm_GetSession i m = None then Err ErrSessionNotFound
      else if \<not> setsizeOk then Err ExecResizeError else Ok (cols, rows))"

definition lm_Subscribe :: "string \<Rightarrow> local_manager \<Rightarrow> nat option \<times> local_manager" where
  "lm_Subscribe i m =
     (case lm_GetSession i m of
        None \<Rightarrow> (None, m)
      | Some s \<Rightarrow> (Some (fst (hub_Subscribe (ls_hub s))), lm_upd_hub i (snd (hub_Subscribe (ls_hub s))) m))"

definition lm_Unsubscribe :: "string \<Rightarrow> nat \<Rightarrow> local_manager \<Rightarrow> local_manager" where
  "lm_Unsubscribe i c m =
     (case lm_GetSession i m of None \<Rightarrow> m | Some s \<Rightarrow> lm_upd_hub i (hub_Unsubscribe c (ls_hub s)) m)"

definition lm_ReplayBuffer :: "string \<Rightarrow> local_manager \<Rightarrow> byte list option" where
  "lm_ReplayBuffer i m = map_option (\<lambda>s. rb_Bytes (hb_buf (ls_hub s))) (lm_GetSession i m)"

text \<open>Whether the channel returned by \<open>Done\<close> is closed.\<close>

definition lm_Done :: "string \<Rightarrow> local_manager \<Rightarrow> bool" where
  "lm_Done i m = (case lm_GetSession i m of None \<Rightarrow> True | Some s \<Rightarrow> ls_done s)"

definition lm_Close :: "string \<Rightarrow> local_manager \<Rightarrow> local_manager option" where
  "lm_Close i m =
     (let m1 = m\<lparr>lm_sessions := removeAll i (lm_sessions m)\<rparr> in
      case lm_GetSession i m of
        None \<Rightarrow> Some m1
      | Some s \<Rightarrow>
          if ls_closeOnce s then Some m1
          else if ls_done s then None
          else Some (m1\<lparr>lm_heap := (lm_heap m)(i \<mapsto>
                 s\<lparr>ls_closeOnce := True, ls_ptmx_open := False, ls_killed := True, ls_done := True\<rparr>)\<rparr>))"

text \<open>The pump: a chunk read from the PTY, and its last round once a read fails.\<close>

definition lm_pump_chunk :: "string \<Rightarrow> byte list \<Rightarrow> local_manager \<Rightarrow> local_manager option" where
  "lm_pump_chunk i data m =
     (case lm_heap m i of
        None \<Rightarrow> Some m
      | Some s \<Rightarrow>
          if ls_pump_ended s \<or> data = [] then Some m
          else map_option (\<lambda>h. lm_upd_hub i h m) (hub_output data (ls_hub s)))"

definition lm_pump_end :: "string \<Rightarrow> local_manager \<Rightarrow> local_manager option" where
  "lm_pump_end i m =
     (case lm_heap m i of
        None \<Rightarrow> Some m
      | Some s \<Rightarrow>
          if ls_pump_ended s then Some m
          else
            Option.bind (hub_Close (ls_hub s)) (\<lambda>h.
              let s1 = s\<lparr>ls_hub := h, ls_pump_ended := True\<rparr>;
                  m1 = m\<lparr>lm_sessions := removeAll i (lm_sessions m)\<rparr> in
              if ls_closeOnce s then Some (m1\<lparr>lm_heap := (lm_heap m)(i \<mapsto> s1)\<rparr>)
              else if ls_done s then None
              else Some (m1\<lparr>lm_heap := (lm_heap m)(i \<mapsto>
                     s1\<lparr>ls_closeOnce := True, ls_ptmx_open := False, ls_reaped := True, ls_done := True\<rparr>)\<rparr>)))"

section \<open>Invariant\<close>

definition lsession_ok :: "local_session \<Rightarrow> bool" where
  "lsession_ok s \<longleftrightarrow> hub_ok (ls_hub s) \<and> (ls_closeOnce s \<longleftrightarrow> ls_done s) \<and> (ls_ptmx_open s \<longleftrightarrow> \<not> ls_done s)
     \<and> (ls_pump_ended s \<longrightarrow> ls_done s)"

definition lm_ok :: "local_manager \<Rightarrow> bool" where
  "lm_ok m \<longleftrightarrow> distinct (lm_sessions m) \<and> (\<forall>i \<in> set (lm_sessions m). lm_heap m i \<noteq> None)
     \<and> (\<forall>i s. lm_heap m i = Some s \<longrightarrow> lsession_ok s \<and> (i \<in> set (lm_sessions m) \<longleftrightarrow> \<not> ls_done s))"

lemma lm_ok_new [inv_keep]: "lm_ok (NewLocalManager n)"
  by (simp add: lm_ok_def NewLocalManager_def)

lemma lm_ok_create [inv_keep]:
  "lm_ok m \<Longrightarrow> lm_heap m uuid = None \<Longrightarrow> lm_ok (snd (CreateCommand os ptyOk uuid now spec m))"
  by (auto simp: lm_ok_def CreateCommand_def Let_def lsession_ok_def hub_ok_new distinct_removeAll)

lemma lm_ok_upd_hub [inv_keep]: "lm_ok m \<Longrightarrow> hub_ok h \<Longrightarrow> lm_ok (lm_upd_hub i h m)"
  by (auto simp: lm_ok_def lm_upd_hub_def lsession_ok_def split: if_splits)

lemma lm_hub_ok: "lm_ok m \<Longrightarrow> lm_heap m i = Some s \<Longrightarrow> hub_ok (ls_hub s)"
  by (auto simp: lm_ok_def lsession_ok_def)

lemma lm_Close_ok:
  "lm_ok m \<Longrightarrow> \<exists>m'. lm_Close i m = Some m' \<and> lm_ok m'
     \<and> (\<forall>j. j \<in> set (lm_sessions m') \<longleftrightarrow> j \<in> set (lm_sessions m) \<and> j \<noteq> i)"
  by (auto simp: lm_ok_def lm_Close_def lm_GetSession_def Let_def lsession_ok_def distinct_removeAll
      split: option.splits if_splits)

interpretation lm: session_registry "\<lambda>m i. i \<in> set (lm_sessions m)" lm_Close lm_ok
  using lm_Close_ok by unfold_locales (blast, metis option.inject)

lemma lm_pump_end_ok:
  assumes "lm_ok m"
  shows "\<exists>m'. lm_pump_end i m = Some m' \<and> lm_ok m'"
proof (cases "lm_heap m i")
  case (Some s)
  then obtain h where h: "hub_Close (ls_hub s) = Some h" "hub_ok h"
    using hub_ok_Close [OF lm_hub_ok [OF assms Some]] by blast
  with Some assms show ?thesis
    by (auto simp: lm_pump_end_def lm_ok_def lsession_ok_def Let_def distinct_removeAll)
qed (use assms in \<open>simp add: lm_pump_end_def\<close>)

section \<open>Runs\<close>

datatype lm_event =
    LmCreate os_env bool string instant command_spec
  | LmSubscribe string
  | LmUnsubscribe string nat
  | LmChunk string "byte list"
  | LmPumpEnd string
  | LmRecv string nat
  | LmClose string

fun lm_step :: "lm_event \<Rightarrow> local_manager \<Rightarrow> local_manager option" where
  "lm_step (LmCreate os ptyOk uuid now spec) m = Some (snd (CreateCommand os ptyOk uuid now spec m))"
| "lm_step (LmSubscribe i) m = Some (snd (lm_Subscribe i m))"
| "lm_step (LmUnsubscribe i c) m = Some (lm_Unsubscribe i c m)"
| "lm_step (LmChunk i data) m = lm_pump_chunk i data m"
| "lm_step (LmPumpEnd i) m = lm_pump_end i m"
| "lm_step (LmRecv i c) m =
     Some (case lm_heap m i of None \<Rightarrow> m | Some s \<Rightarrow> lm_upd_hub i (hub_recv c (ls_hub s)) m)"
| "lm_step (LmClose i) m = lm_Close i m"

fun lm_fresh :: "lm_event \<Rightarrow> local_manager \<Rightarrow> bool" where
  "lm_fresh (LmCreate os ptyOk uuid now spec) m \<longleftrightarrow> lm_heap m uuid = None"
| "lm_fresh _ m \<longleftrightarrow> True"

inductive lm_reachable :: "nat \<Rightarrow> local_manager \<Rightarrow> bool" for n where
  new: "lm_reachable n (NewLocalManager n)"
| step: "lm_reachable n m \<Longrightarrow> lm_fresh e m \<Longrightarrow> lm_step e m = Some m' \<Longrightarrow> lm_reachable n m'"

lemma lm_ok_step:
  assumes "lm_ok m" "lm_fresh e m"
  shows "\<exists>m'. lm_step e m = Some m' \<and> lm_ok m'"
proof (cases e)
  case (LmCreate os ptyOk uuid now spec)
  then show ?thesis using assms lm_ok_create by simp
next
  case (LmSubscribe i)
  then show ?thesis using assms lm_hub_ok [OF assms(1)]
    by (auto simp: lm_Subscribe_def lm_GetSession_def intro!: lm_ok_upd_hub hub_ok_Subscribe
        split: option.splits if_splits)
next
  case (LmUnsubscribe i c)
  then show ?thesis using assms lm_hub_ok [OF assms(1)]
    by (auto simp: lm_Unsubscribe_def lm_GetSession_def intro!: lm_ok_upd_hub hub_ok_Unsubscribe
        split: option.splits if_splits)
next
  case (LmChunk i data)
  show ?thesis
  proof (cases "lm_heap m i")
    case (Some s)
    then show ?thesis using LmChunk assms(1) hub_ok_output [OF lm_hub_ok [OF assms(1) Some], of data] lm_ok_upd_hub
      by (auto simp: lm_pump_chunk_def)
  qed (use LmChunk assms in \<open>simp add: lm_pump_chunk_def\<close>)
next
  case (LmPumpEnd i)
  then show ?thesis using lm_pump_end_ok [OF assms(1)] by simp
next
  case (LmRecv i c)
  then show ?thesis using assms lm_hub_ok [OF assms(1)]
    by (auto intro!: lm_ok_upd_hub hub_ok_recv split: option.splits)
next
  case (LmClose i)
  then show ?thesis using lm_Close_ok [OF assms(1), of i] by auto
qed

lemma lm_reachable_ok: "lm_reachable n m \<Longrightarrow> lm_ok m"
proof (induction rule: lm_reachable.induct)
  case new
  show ?case by (rule lm_ok_new)
next
  case (step m e m')
  then show ?case using lm_ok_step [OF step.IH step.hyps(2)] by auto
qed

section \<open>Properties\<close>

text \<open>
  The local manager under every interleaving of creations, subscriptions, output, the ends of
  pumps and closes: no event panics, a session is registered exactly until it is done, its PTY is
  open exactly that long, and when its pump ends every subscriber channel has been closed.
\<close>

theorem lm_lifecycle:
  assumes "lm_reachable n m" "lm_fresh e m" "lm_heap m i = Some s"
  shows "lm_step e m \<noteq> None
     \<and> (i \<in> set (lm_sessions m) \<longleftrightarrow> \<not> ls_done s) \<and> (ls_ptmx_open s \<longleftrightarrow> \<not> ls_done s)
     \<and> (\<exists>m'. lm_pump_end i m = Some m' \<and> lm_Done i m'
          \<and> (\<exists>s'. lm_heap m' i = Some s' \<and> ls_done s'
              \<and> (\<not> ls_pump_ended s \<longrightarrow> (\<forall>c \<in> set (hb_subs (ls_hub s)). sc_closed (hb_chans (ls_hub s') ! c)))))"
proof -
  have ok: "lm_ok m" using assms(1) by (rule lm_reachable_ok)
  have s: "lsession_ok s" "i \<in> set (lm_sessions m) \<longleftrightarrow> \<not> ls_done s" using ok assms(3) by (auto simp: lm_ok_def)
  obtain h where h: "hub_Close (ls_hub s) = Some h"
    "\<forall>c. sc_closed (hb_chans h ! c) \<longleftrightarrow> sc_closed (hb_chans (ls_hub s) ! c) \<or> c \<in> set (hb_subs (ls_hub s))"
    using hub_ok_Close [OF lm_hub_ok [OF ok assms(3)]] by blast
  have "\<exists>m'. lm_pump_end i m = Some m' \<and> lm_Done i m'
      \<and> (\<exists>s'. lm_heap m' i = Some s' \<and> ls_done s'
          \<and> (\<not> ls_pump_ended s \<longrightarrow> (\<forall>c \<in> set (hb_subs (ls_hub s)). sc_closed (hb_chans (ls_hub s') ! c))))"
    using assms(3) s h
    by (cases "ls_pump_ended s"; cases "ls_closeOnce s")
      (auto simp: lm_pump_end_def lm_Done_def lm_GetSession_def lsession_ok_def Let_def)
  moreover have "lm_step e m \<noteq> None" using lm_ok_step [OF ok assms(2)] by auto
  ultimately show ?thesis using s by (simp add: lsession_ok_def)
qed

definition demo_os :: os_env where
  "demo_os = \<lparr>os_Environ = [], os_HOME = ''/root'', os_SHELL = ''/bin/bash'', os_user = None,
     os_getent = (\<lambda>_. None)\<rparr>"

definition demo_spec :: command_spec where
  "demo_spec = \<lparr>cs_Name = ''sh'', cs_Args = [], cs_Dir = [], cs_Env = None\<rparr>"

definition demo_local :: local_manager where
  "demo_local = snd (CreateCommand demo_os True ''t1'' 0 demo_spec (NewLocalManager 8))"

lemma demo_local_reachable: "lm_reachable 8 demo_local"
  using lm_reachable.step [OF lm_reachable.new, of "LmCreate demo_os True ''t1'' 0 demo_spec" 8]
  by (simp add: demo_local_def NewLocalManager_def)

lemma demo_local_session:
  "\<exists>s. lm_heap demo_local ''t1'' = Some s \<and> \<not> ls_done s \<and> \<not> ls_pump_ended s \<and> lm_GetSession ''t1'' demo_local = Some s"
  by (simp add: demo_local_def CreateCommand_def NewLocalManager_def demo_spec_def Let_def lm_GetSession_def)

theorem lm_lifecycle_witness: "\<exists>m'. lm_pump_end ''t1'' demo_local = Some m' \<and> lm_Done ''t1'' m'"
proof -
  obtain s where "lm_heap demo_local ''t1'' = Some s" using demo_local_session by blast
  from lm_lifecycle [OF demo_local_reachable _ this, of "LmClose ''t1''"] show ?thesis by auto
qed

text \<open>
  Reaping the shell process. When the shell exits by itself, the pump waits for it and the
  process is reaped. When the session is closed through \<open>Close\<close>, the process is killed but nothing
  ever waits for it: the pump's part of \<^verbatim>\<open>closeOnce\<close> is skipped, so it stays a zombie.
\<close>

theorem lm_Close_never_reaps:
  assumes "lm_reachable n m" "lm_GetSession i m = Some s"
  shows "(\<exists>m1 s1. lm_pump_end i m = Some m1 \<and> lm_heap m1 i = Some s1 \<and> ls_reaped s1)
     \<and> (\<exists>m1 m2 s2. lm_Close i m = Some m1 \<and> lm_pump_end i m1 = Some m2 \<and> lm_heap m2 i = Some s2
          \<and> ls_killed s2 \<and> ls_pump_ended s2 \<and> ls_reaped s2 = ls_reaped s)"
proof -
  have ok: "lm_ok m" using assms(1) by (rule lm_reachable_ok)
  have s: "i \<in> set (lm_sessions m)" "lm_heap m i = Some s"
    using assms(2) by (auto simp: lm_GetSession_def split: if_splits)
  have live: "\<not> ls_done s" "\<not> ls_closeOnce s" "\<not> ls_pump_ended s"
    using ok s by (auto simp: lm_ok_def lsession_ok_def)
  obtain h where h: "hub_Close (ls_hub s) = Some h"
    using hub_ok_Close [OF lm_hub_ok [OF ok s(2)]] by blast
  show ?thesis using s live h assms(2)
    by (auto simp: lm_pump_end_def lm_Close_def Let_def)
qed

theorem lm_Close_never_reaps_witness:
  "\<exists>m1 m2 s2. lm_Close ''t1'' demo_local = Some m1 \<and> lm_pump_end ''t1'' m1 = Some m2
     \<and> lm_heap m2 ''t1'' = Some s2 \<and> ls_killed s2 \<and> \<not> ls_reaped s2"
proof -
  obtain s where s: "lm_GetSession ''t1'' demo_local = Some s" "\<not> ls_reaped s"
    by (simp add: demo_local_def CreateCommand_def NewLocalManager_def demo_spec_def Let_def lm_GetSession_def)
  from lm_Close_never_reaps [OF demo_local_reachable s(1)] s(2) show ?thesis by auto
qed

end
