(* ===== verification/Project_Health.thy ===== *)
theory Project_Health
  imports Project_Model "HOL-Library.Multiset"
begin

text \<open>
  The health checker (\<^verbatim>\<open>internal/project/health.go\<close>). A port probe is a function of what the
  network does; \<open>Check\<close> seeds one entry per project and lets concurrent probes fold their
  verdicts into it. Two models of \<open>Check\<close>: the map it computes, for every order in which the
  probes may finish, and the thread-level state machine with the semaphore, the mutex and
  the unprotected seeding write of the main goroutine.
\<close>

section \<open>One probe\<close>

text \<open>What the network does during one probe: dial, write, then the outcome of the one-byte read.\<close>

datatype probe_io = DialFails | WriteFails | ReadsByte | ReadTimesOut | ReadFails

definition portServing :: "(int \<Rightarrow> probe_io) \<Rightarrow> int \<Rightarrow> bool" where
  "portServing net port =
     (case net port of
        DialFails \<Rightarrow> False
      | WriteFails \<Rightarrow> False
      | ReadsByte \<Rightarrow> True
      | ReadTimesOut \<Rightarrow> True
      | ReadFails \<Rightarrow> False)"

section \<open>The map computed by Check\<close>

record health =
  h_App :: bool
  h_Dev :: bool

definition health_zero :: health where
  "health_zero = \<lparr>h_App = False, h_Dev = False\<rparr>"

text \<open>The writes to the result map: the seed of a project, and the two probes' folds.\<close>

datatype health_write = Seed string | FoldApp string bool | FoldDev string bool

primrec write_key :: "health_write \<Rightarrow> string" where
  "write_key (Seed i) = i"
| "write_key (FoldApp i b) = i"
| "write_key (FoldDev i b) = i"

definition entry :: "(string \<rightharpoonup> health) \<Rightarrow> string \<Rightarrow> health" where
  "entry m i = (case m i of Some h \<Rightarrow> h | None \<Rightarrow> health_zero)"

primrec health_apply :: "(string \<rightharpoonup> health) \<Rightarrow> health_write \<Rightarrow> (string \<rightharpoonup> health)" where
  "health_apply m (Seed i) = m(i \<mapsto> health_zero)"
| "health_apply m (FoldApp i b) = m(i \<mapsto> (entry m i)\<lparr>h_App := b\<rparr>)"
| "health_apply m (FoldDev i b) = m(i \<mapsto> (entry m i)\<lparr>h_Dev := b\<rparr>)"

definition project_writes :: "(int \<Rightarrow> probe_io) \<Rightarrow> project \<Rightarrow> health_write list" where
  "project_writes net p =
     Seed (p_ID p)
     # (if p_AssignedPort p > 0 then [FoldApp (p_ID p) (portServing net (p_AssignedPort p))] else [])
     @ (if p_DevPort p > 0 then [FoldDev (p_ID p) (portServing net (p_DevPort p))] else [])"

definition check_writes :: "(int \<Rightarrow> probe_io) \<Rightarrow> project list \<Rightarrow> health_write list" where
  "check_writes net ps = concat (map (project_writes net) ps)"

text \<open>The result when every probe finishes before the next project is seeded.\<close>

definition health_Check :: "(int \<Rightarrow> probe_io) \<Rightarrow> project list \<Rightarrow> (string \<rightharpoonup> health)" where
  "health_Check net ps = foldl health_apply Map.empty (check_writes net ps)"

text \<open>
  A schedule of the same writes is possible if every probe's write comes after the seed of
  its project: the goroutine is started after the seed.
\<close>

fun seeds_first :: "string set \<Rightarrow> health_write list \<Rightarrow> bool" where
  "seeds_first S [] = True"
| "seeds_first S (Seed i # ws) = seeds_first (insert i S) ws"
| "seeds_first S (w # ws) = (write_key w \<in> S \<and> seeds_first S ws)"

definition expected_health :: "(int \<Rightarrow> probe_io) \<Rightarrow> project \<Rightarrow> health" where
  "expected_health net p =
     \<lparr>h_App = (p_AssignedPort p > 0 \<and> portServing net (p_AssignedPort p)),
      h_Dev = (p_DevPort p > 0 \<and> portServing net (p_DevPort p))\<rparr>"

section \<open>Threads, semaphore and mutex\<close>

definition maxConcurrentDials :: nat where
  "maxConcurrentDials = 64"

text \<open>
  The main goroutine is before seeding project \<open>i\<close>, in the middle of the map assignment for
  it, or waiting for the probes. A probe has been started, holds the semaphore and probes,
  holds the mutex, is in the middle of its map assignment, or has finished.
\<close>

datatype main_pc = MainAt nat | MainSeeding nat | MainWaiting

datatype probe_pc = Started | Probing | Locked | Writing | Finished

record check_state =
  cs_main :: main_pc
  cs_probes :: "probe_pc list"

definition holds_sem :: "probe_pc \<Rightarrow> bool" where
  "holds_sem pc \<longleftrightarrow> pc \<in> {Probing, Locked, Writing}"

definition holds_mutex :: "probe_pc \<Rightarrow> bool" where
  "holds_mutex pc \<longleftrightarrow> pc \<in> {Locked, Writing}"

definition n_probes :: "project \<Rightarrow> nat" where
  "n_probes p = (if p_AssignedPort p > 0 then 1 else 0) + (if p_DevPort p > 0 then 1 else 0)"

inductive check_step :: "project list \<Rightarrow> check_state \<Rightarrow> check_state \<Rightarrow> bool" for ps where
  seed_begin: "cs_main s = MainAt i \<Longrightarrow> i < length ps \<Longrightarrow>
     check_step ps s (s\<lparr>cs_main := MainSeeding i\<rparr>)"
| seed_end: "cs_main s = MainSeeding i \<Longrightarrow>
     check_step ps s (s\<lparr>cs_main := MainAt (Suc i),
                        cs_probes := cs_probes s @ replicate (n_probes (ps ! i)) Started\<rparr>)"
| main_wait: "cs_main s = MainAt (length ps) \<Longrightarrow> check_step ps s (s\<lparr>cs_main := MainWaiting\<rparr>)"
| acquire: "j < length (cs_probes s) \<Longrightarrow> cs_probes s ! j = Started \<Longrightarrow>
     length (filter holds_sem (cs_probes s)) < maxConcurrentDials \<Longrightarrow>
     check_step ps s (s\<lparr>cs_probes := (cs_probes s)[j := Probing]\<rparr>)"
| lock: "j < length (cs_probes s) \<Longrightarrow> cs_probes s ! j = Probing \<Longrightarrow>
     length (filter holds_mutex (cs_probes s)) = 0 \<Longrightarrow>
     check_step ps s (s\<lparr>cs_probes := (cs_probes s)[j := Locked]\<rparr>)"
| write_begin: "j < length (cs_probes s) \<Longrightarrow> cs_probes s ! j = Locked \<Longrightarrow>
     check_step ps s (s\<lparr>cs_probes := (cs_probes s)[j := Writing]\<rparr>)"
| write_end: "j < length (cs_probes s) \<Longrightarrow> cs_probes s ! j = Writing \<Longrightarrow>
     check_step ps s (s\<lparr>cs_probes := (cs_probes s)[j := Finished]\<rparr>)"

definition check_init :: check_state where
  "check_init = \<lparr>cs_main = MainAt 0, cs_probes = []\<rparr>"

inductive check_reachable :: "project list \<Rightarrow> check_state \<Rightarrow> bool" for ps where
  start: "check_reachable ps check_init"
| step: "check_reachable ps s \<Longrightarrow> check_step ps s t \<Longrightarrow> check_reachable ps t"

text \<open>Two goroutines in a map assignment at the same time.\<close>

definition concurrent_map_writes :: "check_state \<Rightarrow> bool" where
  "concurrent_map_writes s \<longleftrightarrow>
     (\<exists>i. cs_main s = MainSeeding i) \<and> Writing \<in> set (cs_probes s)"

inductive_simps check_step_simps: "check_step ps s t"

section \<open>Facts: the result map\<close>

lemma health_apply_other: "write_key w \<noteq> i \<Longrightarrow> health_apply m w i = m i"
  by (cases w) auto

lemma foldl_health_restrict:
  "foldl health_apply m ws i = foldl health_apply m (filter (\<lambda>w. write_key w = i) ws) i"
proof -
  have "m i = k i \<Longrightarrow> foldl health_apply m ws i = foldl health_apply k (filter (\<lambda>w. write_key w = i) ws) i"
    for k
  proof (induction ws arbitrary: m k)
    case (Cons w ws)
    show ?case
    proof (cases "write_key w = i")
      case True
      with Cons.prems have "health_apply m w i = health_apply k w i"
        by (cases w) (auto simp: entry_def)
      with True Cons.IH show ?thesis by simp
    next
      case False
      with Cons show ?thesis by (simp add: health_apply_other)
    qed
  qed simp
  then show ?thesis by simp
qed

lemma seeds_first_filter:
  "seeds_first S ws \<Longrightarrow> seeds_first (S \<inter> {i}) (filter (\<lambda>w. write_key w = i) ws)"
proof (induction S ws rule: seeds_first.induct)
  case (2 S k ws)
  have "insert i (S \<inter> {i}) = {i}" by auto
  then show ?case using 2 by (cases "k = i") (simp_all add: \<open>insert i (S \<inter> {i}) = {i}\<close>)
qed auto

lemma write_key_project [simp]: "w \<in> set (project_writes net p) \<Longrightarrow> write_key w = p_ID p"
  by (auto simp: project_writes_def split: if_splits)

lemma filter_check_writes:
  assumes "distinct (map p_ID ps)" "p \<in> set ps"
  shows "filter (\<lambda>w. write_key w = p_ID p) (check_writes net ps) = project_writes net p"
  using assms
proof (induction ps)
  case (Cons q ps)
  have none: "filter (\<lambda>w. write_key w = k) (check_writes net ps) = []" if "k \<notin> p_ID ` set ps" for k
    using that by (fastforce simp: check_writes_def filter_empty_conv)
  show ?case
  proof (cases "p = q")
    case True
    then have "filter (\<lambda>w. write_key w = p_ID p) (check_writes net ps) = []"
      using Cons.prems by (intro none) auto
    moreover have "filter (\<lambda>w. write_key w = p_ID p) (project_writes net p) = project_writes net p"
      by (auto simp: filter_id_conv)
    ultimately show ?thesis using True by (simp add: check_writes_def)
  next
    case False
    with Cons.prems have "p \<in> set ps" "p_ID q \<noteq> p_ID p" by auto
    then have "filter (\<lambda>w. write_key w = p_ID p) (project_writes net q) = []"
      by (auto simp: filter_empty_conv)
    with Cons \<open>p \<in> set ps\<close> show ?thesis by (simp add: check_writes_def)
  qed
qed simp

lemma mset_two: "mset ws = {#x, y#} \<Longrightarrow> ws = [x, y] \<or> ws = [y, x]"
proof -
  assume ms: "mset ws = {#x, y#}"
  then have "length ws = 2" by (metis mset.simps mset_eq_length list.size(3,4) One_nat_def Suc_1 add.right_neutral add_Suc_right)
  then obtain u v where "ws = [u, v]" by (auto simp: numeral_2_eq_2 length_Suc_conv)
  with ms show ?thesis by (auto simp: add_eq_conv_ex)
qed

text \<open>The writes of one project in any possible order give the expected verdict.\<close>

lemma one_project_orders:
  assumes perm: "mset ws = mset (project_writes net p)" and sf: "seeds_first {} ws"
  shows "foldl health_apply m ws (p_ID p) = Some (expected_health net p)"
proof -
  obtain w ws' where ws: "ws = w # ws'"
    using perm by (cases ws) (auto simp: project_writes_def)
  have "w \<in> set (project_writes net p)" using perm ws by (metis list.set_intros(1) set_mset_mset)
  then have w: "w = Seed (p_ID p)"
    using sf ws by (cases w) (auto simp: project_writes_def split: if_splits)
  define a where "a = (if p_AssignedPort p > 0 then [FoldApp (p_ID p) (portServing net (p_AssignedPort p))] else [])"
  define d where "d = (if p_DevPort p > 0 then [FoldDev (p_ID p) (portServing net (p_DevPort p))] else [])"
  have "mset ws' = mset (a @ d)"
    using perm ws w by (simp add: project_writes_def a_def d_def)
  then have "ws' = a @ d \<or> ws' = d @ a"
    by (cases "p_AssignedPort p > 0"; cases "p_DevPort p > 0")
      (auto simp: a_def d_def dest!: mset_two)
  then show ?thesis
    by (cases "p_AssignedPort p > 0"; cases "p_DevPort p > 0")
      (auto simp: ws w a_def d_def entry_def health_zero_def expected_health_def)
qed

lemma seeds_first_append_project:
  "seeds_first (insert (p_ID p) S) ws \<Longrightarrow> seeds_first S (project_writes net p @ ws)"
  by (simp add: project_writes_def)

lemma seeds_first_check_writes: "seeds_first S (check_writes net ps)"
proof (induction ps arbitrary: S)
  case (Cons p ps)
  then show ?case
    using seeds_first_append_project [of p S "check_writes net ps" net] by (simp add: check_writes_def)
qed (simp add: check_writes_def)

lemma schedule_result:
  assumes "distinct (map p_ID ps)" "mset ws = mset (check_writes net ps)" "seeds_first {} ws"
  shows "foldl health_apply Map.empty ws i =
    map_option (expected_health net) (List.find (\<lambda>p. p_ID p = i) ps)"
proof -
  let ?own = "filter (\<lambda>w. write_key w = i)"
  have perm: "mset (?own ws) = mset (?own (check_writes net ps))"
    using assms(2) by (simp add: mset_filter)
  have sf: "seeds_first {} (?own ws)"
    using seeds_first_filter [OF assms(3), of i] by simp
  show ?thesis
  proof (cases "List.find (\<lambda>p. p_ID p = i) ps")
    case None
    then have "?own (check_writes net ps) = []"
      by (auto simp: find_None_iff check_writes_def filter_empty_conv)
    with perm have "?own ws = []" by simp
    then show ?thesis using None by (subst foldl_health_restrict) simp
  next
    case (Some p)
    then have p: "p \<in> set ps" "p_ID p = i" by (auto dest: find_SomeD)
    from p perm have "mset (?own ws) = mset (project_writes net p)"
      using filter_check_writes [OF assms(1) p(1), of net] by metis
    from one_project_orders [OF this sf, of Map.empty] p(2) Some
    show ?thesis by (subst foldl_health_restrict) simp
  qed
qed

section \<open>Facts: the threads\<close>

lemma length_filter_update:
  assumes "j < length xs"
  shows "length (filter P (xs[j := y])) + (if P (xs ! j) then 1 else 0)
       = length (filter P xs) + (if P y then 1 else 0)"
proof -
  have "xs = take j xs @ xs ! j # drop (Suc j) xs" using assms by (rule id_take_nth_drop)
  then have "length (filter P xs) = length (filter P (take j xs @ xs ! j # drop (Suc j) xs))" by simp
  then show ?thesis using assms by (simp add: upd_conv_take_nth_drop)
qed

definition check_inv :: "check_state \<Rightarrow> bool" where
  "check_inv s \<longleftrightarrow> length (filter holds_sem (cs_probes s)) \<le> maxConcurrentDials
     \<and> length (filter holds_mutex (cs_probes s)) \<le> 1"

lemma check_step_inv: "check_step ps s t \<Longrightarrow> check_inv s \<Longrightarrow> check_inv t"
proof (induction rule: check_step.induct)
  case (acquire j s)
  then show ?case
    using length_filter_update [of j "cs_probes s" holds_sem Probing]
      length_filter_update [of j "cs_probes s" holds_mutex Probing]
    by (simp add: check_inv_def holds_sem_def holds_mutex_def)
next
  case (lock j s)
  then show ?case
    using length_filter_update [of j "cs_probes s" holds_sem Locked]
      length_filter_update [of j "cs_probes s" holds_mutex Locked]
    by (simp add: check_inv_def holds_sem_def holds_mutex_def)
next
  case (write_begin j s)
  then show ?case
    using length_filter_update [of j "cs_probes s" holds_sem Writing]
      length_filter_update [of j "cs_probes s" holds_mutex Writing]
    by (simp add: check_inv_def holds_sem_def holds_mutex_def)
next
  case (write_end j s)
  then show ?case
    using length_filter_update [of j "cs_probes s" holds_sem Finished]
      length_filter_update [of j "cs_probes s" holds_mutex Finished]
    by (simp add: check_inv_def holds_sem_def holds_mutex_def)
qed (auto simp: check_inv_def holds_sem_def holds_mutex_def)

lemma check_reachable_inv: "check_reachable ps s \<Longrightarrow> check_inv s"
proof (induction rule: check_reachable.induct)
  case start
  show ?case by (simp add: check_inv_def check_init_def)
next
  case (step s t)
  then show ?case by (blast intro: check_step_inv)
qed

text \<open>With at most one project no probe runs before the last seed is complete.\<close>

definition early_inv :: "check_state \<Rightarrow> bool" where
  "early_inv s \<longleftrightarrow> (case cs_main s of MainAt i \<Rightarrow> i = 0 \<longrightarrow> cs_probes s = []
     | MainSeeding i \<Rightarrow> i = 0 \<and> cs_probes s = [] | MainWaiting \<Rightarrow> True)"

lemma early_step: "check_step ps s t \<Longrightarrow> length ps \<le> 1 \<Longrightarrow> early_inv s \<Longrightarrow> early_inv t"
  by (induction rule: check_step.induct) (auto simp: early_inv_def split: main_pc.splits)

lemma early_reachable: "check_reachable ps s \<Longrightarrow> length ps \<le> 1 \<Longrightarrow> early_inv s"
proof (induction rule: check_reachable.induct)
  case start
  show ?case by (simp add: early_inv_def check_init_def)
next
  case (step s t)
  then show ?case by (blast intro: early_step)
qed

lemma race_run:
  assumes "2 \<le> length ps" "0 < p_AssignedPort (ps ! 0)"
  shows "check_reachable ps
    \<lparr>cs_main = MainSeeding 1, cs_probes = Writing # replicate (n_probes (ps ! 0) - 1) Started\<rparr>"
proof -
  define k where "k = n_probes (ps ! 0) - 1"
  have np: "n_probes (ps ! 0) = Suc k" using assms(2) by (simp add: k_def n_probes_def)
  let ?st = "\<lambda>m pc. \<lparr>cs_main = m, cs_probes = pc # replicate k Started\<rparr>"
  have none: "filter holds_sem (replicate k Started) = []" "filter holds_mutex (replicate k Started) = []"
    by (simp_all add: holds_sem_def holds_mutex_def)
  have "check_step ps check_init (check_init\<lparr>cs_main := MainSeeding 0\<rparr>)"
    using assms(1) by (intro check_step.seed_begin) (auto simp: check_init_def)
  then have "check_reachable ps (check_init\<lparr>cs_main := MainSeeding 0\<rparr>)"
    by (rule check_reachable.step [OF check_reachable.start])
  then have "check_reachable ps \<lparr>cs_main = MainSeeding 0, cs_probes = []\<rparr>"
    by (simp add: check_init_def)
  then have "check_reachable ps (?st (MainAt 1) Started)"
    using check_step.seed_end [of "\<lparr>cs_main = MainSeeding 0, cs_probes = []\<rparr>" 0 ps] np
    by (auto intro: check_reachable.step)
  then have "check_reachable ps (?st (MainAt 1) Probing)"
    using check_step.acquire [of 0 "?st (MainAt 1) Started" ps] none
    by (auto intro: check_reachable.step simp: holds_sem_def maxConcurrentDials_def)
  then have "check_reachable ps (?st (MainAt 1) Locked)"
    using check_step.lock [of 0 "?st (MainAt 1) Probing" ps] none
    by (auto intro: check_reachable.step simp: holds_mutex_def)
  then have "check_reachable ps (?st (MainAt 1) Writing)"
    using check_step.write_begin [of 0 "?st (MainAt 1) Locked" ps]
    by (auto intro: check_reachable.step)
  then have "check_reachable ps (?st (MainSeeding 1) Writing)"
    using check_step.seed_begin [of "?st (MainAt 1) Writing" 1 ps] assms(1)
    by (auto intro: check_reachable.step)
  then show ?thesis by (simp add: k_def)
qed

section \<open>Properties\<close>


definition demo_project :: "string \<Rightarrow> int \<Rightarrow> int \<Rightarrow> project" where
  "demo_project i prodPort devPort =
     \<lparr>p_ID = i, p_Name = ''demo'', p_Status = StatusStopped, p_AssignedPort = prodPort,
      p_DevPort = devPort, p_LastError = [], p_CreatedAt = 0, p_AppRunning = False,
      p_DevRunning = False, p_ProjectDir = []\<rparr>"


text \<open>
  At every moment of a sweep at most 64 probes hold the semaphore and at most one holds the
  mutex. The seeding assignment of the main goroutine is outside that mutex: as soon as there
  are two projects and the first has a PROD port, a state is reachable in which the main
  goroutine and a probe assign to the shared map at the same time (which the Go runtime
  reports as a fatal error). With at most one project this cannot happen.
\<close>

theorem health_Check_concurrency:
  "(\<forall>s. check_reachable ps s \<longrightarrow>
      length (filter holds_sem (cs_probes s)) \<le> 64 \<and> length (filter holds_mutex (cs_probes s)) \<le> 1)
   \<and> (2 \<le> length ps \<and> 0 < p_AssignedPort (ps ! 0)
      \<longrightarrow> (\<exists>s. check_reachable ps s \<and> concurrent_map_writes s))
   \<and> (length ps \<le> 1 \<longrightarrow> (\<forall>s. check_reachable ps s \<longrightarrow> \<not> concurrent_map_writes s))"
proof (intro conjI allI impI)
  fix s assume r: "check_reachable ps s"
  show "length (filter holds_sem (cs_probes s)) \<le> 64"
    "length (filter holds_mutex (cs_probes s)) \<le> 1"
    using check_reachable_inv [OF r] by (simp_all add: check_inv_def maxConcurrentDials_def)
next
  assume "2 \<le> length ps \<and> 0 < p_AssignedPort (ps ! 0)"
  then show "\<exists>s. check_reachable ps s \<and> concurrent_map_writes s"
    using race_run by (fastforce simp: concurrent_map_writes_def)
next
  fix s assume "length ps \<le> 1" "check_reachable ps s"
  then show "\<not> concurrent_map_writes s"
    using early_reachable by (fastforce simp: early_inv_def concurrent_map_writes_def)
qed

theorem health_Check_concurrency_witness:
  "\<exists>s. check_reachable [demo_project ''a'' 10000 10001, demo_project ''b'' 10002 10003] s
     \<and> concurrent_map_writes s"
  using health_Check_concurrency [of "[demo_project ''a'' 10000 10001, demo_project ''b'' 10002 10003]"]
  by (simp add: demo_project_def)

end
