(* ===== verification/Project_Store.thy ===== *)
theory Project_Store
  imports Project_Model
begin

text \<open>
  The project table and its store (\<^verbatim>\<open>internal/project/store.go\<close>, with the \<open>projects\<close> table of
  \<^verbatim>\<open>internal/db/migrations\<close>). A table is the list of its rows in insertion order. Each SQL
  statement of the store is its effect on that list; the database driver may fail on any
  statement, which is the argument \<open>fl\<close>: the statements for which the driver reports an error
  during the call. A statement that fails changes nothing, and the deferred rollback undoes
  an uncommitted transaction.
\<close>

section \<open>Rows and statements\<close>

record project_row =
  r_id :: string
  r_name :: string
  r_status :: project_status
  r_assigned_port :: "int option"
  r_dev_port :: "int option"
  r_last_error :: "string option"
  r_created_at :: instant

datatype project_stmt =
    StBegin | StQueryPorts | StInsert | StCommit
  | StSelectAll | StSelectById | StSelectByName | StDelete | StSetError

type_synonym faults = "project_stmt \<Rightarrow> bool"

definition no_faults :: faults where
  "no_faults = (\<lambda>_. False)"

text \<open>The uniqueness constraints of the table: primary key, name, and the two partial port indexes.\<close>

definition insert_conflict :: "project_row list \<Rightarrow> project_row \<Rightarrow> bool" where
  "insert_conflict rows r \<longleftrightarrow>
     list_ex (\<lambda>x. r_id x = r_id r \<or> r_name x = r_name r
       \<or> (r_assigned_port r \<noteq> None \<and> r_assigned_port x = r_assigned_port r)
       \<or> (r_dev_port r \<noteq> None \<and> r_dev_port x = r_dev_port r)) rows"

section \<open>Reading rows\<close>

definition scanInto :: "project_row \<Rightarrow> project" where
  "scanInto r =
     \<lparr>p_ID = r_id r, p_Name = r_name r, p_Status = r_status r,
      p_AssignedPort = (case r_assigned_port r of Some v \<Rightarrow> v | None \<Rightarrow> 0),
      p_DevPort = (case r_dev_port r of Some v \<Rightarrow> v | None \<Rightarrow> 0),
      p_LastError = (case r_last_error r of Some v \<Rightarrow> v | None \<Rightarrow> []),
      p_CreatedAt = r_created_at r,
      p_AppRunning = False, p_DevRunning = False, p_ProjectDir = []\<rparr>"

definition store_Get :: "faults \<Rightarrow> string \<Rightarrow> project_row list \<Rightarrow> (project_error, project) result" where
  "store_Get fl pid rows =
     (if fl StSelectById then Err (ErrDB ''get project'')
      else (case List.find (\<lambda>r. r_id r = pid) rows of
              None \<Rightarrow> Err ErrNotFound
            | Some r \<Rightarrow> Ok (scanInto r)))"

definition store_GetByName ::
  "faults \<Rightarrow> string \<Rightarrow> project_row list \<Rightarrow> (project_error, project) result" where
  "store_GetByName fl name rows =
     (if fl StSelectByName then Err (ErrDB ''get project by name'')
      else (case List.find (\<lambda>r. r_name r = name) rows of
              None \<Rightarrow> Err ErrNotFound
            | Some r \<Rightarrow> Ok (scanInto r)))"

text \<open>\<^verbatim>\<open>ORDER BY created_at DESC\<close>; rows with equal times keep their insertion order.\<close>

definition store_List :: "faults \<Rightarrow> project_row list \<Rightarrow> (project_error, project list) result" where
  "store_List fl rows =
     (if fl StSelectAll then Err (ErrDB ''list projects'')
      else Ok (map scanInto (sort_key (\<lambda>r. - r_created_at r) rows)))"

section \<open>Port allocation\<close>

definition row_ports :: "project_row \<Rightarrow> int list" where
  "row_ports r =
     (case r_assigned_port r of Some v \<Rightarrow> [v] | None \<Rightarrow> [])
   @ (case r_dev_port r of Some v \<Rightarrow> [v] | None \<Rightarrow> [])"

definition usedPortsTx :: "project_row list \<Rightarrow> int list" where
  "usedPortsTx rows = concat (map row_ports rows)"

text \<open>The loop of \<open>nextAvailablePortPairTx\<close>, from \<open>port\<close> on, with the ports found so far.\<close>

function port_pair_loop :: "int list \<Rightarrow> int list \<Rightarrow> int \<Rightarrow> (int \<times> int) option" where
  "port_pair_loop used pair port =
     (if port > PublishedPortRangeEnd then None
      else if port \<in> set used then port_pair_loop used pair (port + 1)
      else (case pair of
              [] \<Rightarrow> port_pair_loop used [port] (port + 1)
            | p # _ \<Rightarrow> Some (p, port)))"
  by pat_completeness auto
termination
  by (relation "measure (\<lambda>(used, pair, port). nat (PublishedPortRangeEnd + 1 - port))") auto

declare port_pair_loop.simps [simp del]

definition nextAvailablePortPairTx ::
  "faults \<Rightarrow> project_row list \<Rightarrow> (project_error, int \<times> int) result" where
  "nextAvailablePortPairTx fl rows =
     (if fl StQueryPorts then Err (ErrDB ''query allocated ports'')
      else (case port_pair_loop (usedPortsTx rows) [] PortRangeStart of
              Some pr \<Rightarrow> Ok pr
            | None \<Rightarrow> Err ErrNoPortAvailable))"

section \<open>Writing rows\<close>

definition new_row :: "string \<Rightarrow> string \<Rightarrow> int \<Rightarrow> int \<Rightarrow> instant \<Rightarrow> project_row" where
  "new_row pid name prodPort devPort now =
     \<lparr>r_id = pid, r_name = name, r_status = StatusStopped, r_assigned_port = Some prodPort,
      r_dev_port = Some devPort, r_last_error = None, r_created_at = now\<rparr>"

text \<open>
  \<open>Create\<close>: the result and the table afterwards. \<open>uuid\<close> is the identifier drawn by
  \<^verbatim>\<open>uuid.New()\<close>, \<open>now\<close> the column default \<^verbatim>\<open>CURRENT_TIMESTAMP\<close>.
\<close>

definition store_Create ::
  "faults \<Rightarrow> string \<Rightarrow> instant \<Rightarrow> string \<Rightarrow> project_row list
     \<Rightarrow> (project_error, project) result \<times> project_row list" where
  "store_Create fl uuid now name rows =
     (case ValidateName name of
        Some e \<Rightarrow> (Err e, rows)
      | None \<Rightarrow>
          if fl StBegin then (Err (ErrDB ''begin transaction''), rows)
          else (case nextAvailablePortPairTx fl rows of
                  Inl e \<Rightarrow> (Err e, rows)
                | Inr (prodPort, devPort) \<Rightarrow>
                    let r = new_row uuid name prodPort devPort now in
                    if fl StInsert then (Err (ErrDB ''insert project''), rows)
                    else if insert_conflict rows r then (Err ErrDuplicateName, rows)
                    else if fl StCommit then (Err (ErrDB ''commit''), rows)
                    else (store_Get fl uuid (rows @ [r]), rows @ [r])))"

definition store_Delete ::
  "faults \<Rightarrow> string \<Rightarrow> project_row list \<Rightarrow> project_error option \<times> project_row list" where
  "store_Delete fl pid rows =
     (if fl StDelete then (Some (ErrDB ''delete project''), rows)
      else if list_ex (\<lambda>r. r_id r = pid) rows
        then (None, filter (\<lambda>r. r_id r \<noteq> pid) rows)
        else (Some ErrNotFound, rows))"

definition store_SetError ::
  "faults \<Rightarrow> string \<Rightarrow> string \<Rightarrow> project_row list \<Rightarrow> project_error option \<times> project_row list" where
  "store_SetError fl pid msg rows =
     (if fl StSetError then (Some (ErrDB ''set error''), rows)
      else (None, map (\<lambda>r. if r_id r = pid
                           then r\<lparr>r_status := StatusError, r_last_error := Some msg\<rparr> else r) rows))"

text \<open>
  The invariant of the table: identifiers and names are unique, names are valid, and no port
  is held twice, not even by the two environments of different projects (which the two
  separate indexes alone would allow).
\<close>

definition rows_ok :: "project_row list \<Rightarrow> bool" where
  "rows_ok rows \<longleftrightarrow>
     distinct (map r_id rows) \<and> distinct (map r_name rows)
   \<and> distinct (usedPortsTx rows) \<and> list_all (\<lambda>r. valid_name (r_name r)) rows"

section \<open>Facts: the port allocator\<close>

text \<open>The reference: the unused ports of the range in increasing order.\<close>

definition free_ports_from :: "int list \<Rightarrow> int \<Rightarrow> int list" where
  "free_ports_from used port = filter (\<lambda>p. p \<notin> set used) [port..PublishedPortRangeEnd]"

lemma free_ports_from_step:
  "port \<le> PublishedPortRangeEnd \<Longrightarrow>
   free_ports_from used port =
     (if port \<in> set used then free_ports_from used (port + 1)
      else port # free_ports_from used (port + 1))"
  by (simp add: free_ports_from_def upto_rec1)

lemma free_ports_from_end: "port > PublishedPortRangeEnd \<Longrightarrow> free_ports_from used port = []"
  by (simp add: free_ports_from_def)

lemma port_pair_loop_eq:
  "port_pair_loop used pair port =
     (case pair of
        [] \<Rightarrow> (case free_ports_from used port of p # q # _ \<Rightarrow> Some (p, q) | _ \<Rightarrow> None)
      | p # _ \<Rightarrow> (case free_ports_from used port of q # _ \<Rightarrow> Some (p, q) | _ \<Rightarrow> None))"
proof (induction used pair port rule: port_pair_loop.induct)
  case (1 used pair port)
  show ?case
  proof (cases "port > PublishedPortRangeEnd")
    case True
    then show ?thesis
      by (subst port_pair_loop.simps) (simp add: free_ports_from_end split: list.splits)
  next
    case False
    note step = free_ports_from_step [of port used]
    show ?thesis
    proof (cases "port \<in> set used")
      case True
      with False 1(1) step show ?thesis
        by (subst port_pair_loop.simps) (simp split: list.splits)
    next
      case nu: False
      show ?thesis
      proof (cases pair)
        case Nil
        with False nu 1(2) step show ?thesis
          by (subst port_pair_loop.simps) (simp split: list.splits)
      next
        case (Cons p ps)
        with False nu step show ?thesis by (subst port_pair_loop.simps) simp
      qed
    qed
  qed
qed

lemma free_ports_from_sorted: "sorted_wrt (<) (free_ports_from used port)"
  by (simp add: free_ports_from_def sorted_wrt_filter)

lemma set_free_ports_from:
  "set (free_ports_from used port) = {port..PublishedPortRangeEnd} - set used"
  by (auto simp: free_ports_from_def)

lemma port_pair_loop_Some:
  assumes "port_pair_loop used [] port = Some (p, q)"
  shows "port \<le> p" "p < q" "q \<le> PublishedPortRangeEnd" "p \<notin> set used" "q \<notin> set used"
    "\<And>r. port \<le> r \<Longrightarrow> r < q \<Longrightarrow> r \<notin> set used \<Longrightarrow> r = p"
proof -
  from assms obtain rest where fp: "free_ports_from used port = p # q # rest"
    by (auto simp: port_pair_loop_eq split: list.splits)
  have mem: "x \<in> {port..PublishedPortRangeEnd} - set used \<longleftrightarrow> x = p \<or> x = q \<or> x \<in> set rest" for x
    using set_free_ports_from [of used port] fp by (metis insert_iff list.simps(15))
  from mem [of p] mem [of q] show "port \<le> p" "q \<le> PublishedPortRangeEnd" "p \<notin> set used" "q \<notin> set used"
    by auto
  from free_ports_from_sorted [of used port] fp
  show "p < q" by simp
  fix r assume r: "port \<le> r" "r < q" "r \<notin> set used"
  from free_ports_from_sorted [of used port] fp have "\<forall>x \<in> set rest. q < x" by simp
  with mem [of r] r \<open>q \<le> PublishedPortRangeEnd\<close> show "r = p" by auto
qed

lemma port_pair_loop_None:
  assumes "port_pair_loop used [] port = None"
  shows "card ({port..PublishedPortRangeEnd} - set used) \<le> 1"
proof -
  from assms have "length (free_ports_from used port) \<le> 1"
    by (auto simp: port_pair_loop_eq split: list.splits)
  then show ?thesis
    using card_length [of "free_ports_from used port"] by (simp add: set_free_ports_from)
qed

lemma length_row_ports: "length (row_ports r) \<le> 2"
  by (auto simp: row_ports_def split: option.splits)

lemma length_usedPorts: "length (usedPortsTx rows) \<le> 2 * length rows"
proof (induction rows)
  case (Cons r rows)
  then show ?case using length_row_ports [of r] by (simp add: usedPortsTx_def)
qed (simp add: usedPortsTx_def)

text \<open>With fewer than 100 rows two ports of the 200 are always free.\<close>

lemma port_pair_available:
  assumes "length rows < 100"
  shows "port_pair_loop (usedPortsTx rows) [] PortRangeStart \<noteq> None"
proof
  let ?U = "set (usedPortsTx rows)" and ?R = "{PortRangeStart..PublishedPortRangeEnd}"
  assume "port_pair_loop (usedPortsTx rows) [] PortRangeStart = None"
  then have "card (?R - ?U) \<le> 1" by (rule port_pair_loop_None)
  moreover have "card ?R = 200" by (simp add: PortRangeStart_def PublishedPortRangeEnd_def)
  moreover have "card ?R - card ?U \<le> card (?R - ?U)" by (rule diff_card_le_card_Diff) simp
  moreover have "card ?U \<le> 2 * length rows"
    using card_length [of "usedPortsTx rows"] length_usedPorts [of rows] by linarith
  ultimately show False using assms by linarith
qed

section \<open>Facts: the table\<close>

lemma usedPorts_append [simp]: "usedPortsTx (a @ b) = usedPortsTx a @ usedPortsTx b"
  by (simp add: usedPortsTx_def)

lemma usedPorts_new_row [simp]: "usedPortsTx [new_row i n p q t] = [p, q]"
  by (simp add: usedPortsTx_def row_ports_def new_row_def)

lemma new_row_simps [simp]:
  "r_id (new_row i n p q t) = i" "r_name (new_row i n p q t) = n"
  "r_assigned_port (new_row i n p q t) = Some p" "r_dev_port (new_row i n p q t) = Some q"
  by (simp_all add: new_row_def)

lemma in_usedPorts: "x \<in> set rows \<Longrightarrow> y \<in> set (row_ports x) \<Longrightarrow> y \<in> set (usedPortsTx rows)"
  by (auto simp: usedPortsTx_def)

lemma insert_conflict_new:
  assumes "p \<notin> set (usedPortsTx rows)" "q \<notin> set (usedPortsTx rows)"
  shows "insert_conflict rows (new_row i n p q t) \<longleftrightarrow> i \<in> r_id ` set rows \<or> n \<in> r_name ` set rows"
proof -
  have "r_assigned_port x \<noteq> Some p \<and> r_dev_port x \<noteq> Some q" if "x \<in> set rows" for x
    using in_usedPorts [OF that] assms by (auto simp: row_ports_def)
  then show ?thesis by (auto simp: insert_conflict_def list_ex_iff)
qed

lemma rows_ok_append_new:
  assumes "rows_ok rows" "valid_name n" "i \<notin> r_id ` set rows" "n \<notin> r_name ` set rows"
    "p \<notin> set (usedPortsTx rows)" "q \<notin> set (usedPortsTx rows)" "p \<noteq> q"
  shows "rows_ok (rows @ [new_row i n p q t])"
  using assms by (auto simp: rows_ok_def)

lemma distinct_usedPorts_filter:
  "distinct (usedPortsTx rows) \<Longrightarrow> distinct (usedPortsTx (filter P rows))"
proof (induction rows)
  case (Cons r rows)
  then show ?case by (auto simp: usedPortsTx_def)
qed (simp add: usedPortsTx_def)

text \<open>\<open>Create\<close> on success: the row that was added.\<close>

lemma store_Create_cases:
  obtains (ok) p q where "valid_name name" "port_pair_loop (usedPortsTx rows) [] PortRangeStart = Some (p, q)"
      "uuid \<notin> r_id ` set rows" "name \<notin> r_name ` set rows"
      "store_Create fl uuid now name rows =
         (store_Get fl uuid (rows @ [new_row uuid name p q now]), rows @ [new_row uuid name p q now])"
  | (err) e where "store_Create fl uuid now name rows = (Err e, rows)"
proof (cases "snd (store_Create fl uuid now name rows) = rows")
  case True
  then obtain e where "store_Create fl uuid now name rows = (Err e, rows)"
    by (auto simp: store_Create_def Let_def split: option.splits sum.splits if_splits)
  then show ?thesis by (rule err)
next
  case False
  then obtain p q where v: "valid_name name" and qp: "\<not> fl StQueryPorts"
    and pq: "port_pair_loop (usedPortsTx rows) [] PortRangeStart = Some (p, q)"
    and nc: "\<not> insert_conflict rows (new_row uuid name p q now)"
    and eq: "store_Create fl uuid now name rows =
         (store_Get fl uuid (rows @ [new_row uuid name p q now]), rows @ [new_row uuid name p q now])"
    by (auto simp: store_Create_def nextAvailablePortPairTx_def Let_def
        split: option.splits sum.splits if_splits)
  from nc have "uuid \<notin> r_id ` set rows" "name \<notin> r_name ` set rows"
    using insert_conflict_new [OF port_pair_loop_Some(4,5) [OF pq]] by auto
  with v pq eq show ?thesis by (rule_tac ok)
qed

lemma rows_ok_Create [inv_keep]:
  assumes "rows_ok rows"
  shows "rows_ok (snd (store_Create fl uuid now name rows))"
proof (cases rule: store_Create_cases [of name rows uuid fl now])
  case (ok p q)
  then show ?thesis
    using assms port_pair_loop_Some(2,4,5) [OF ok(2)] by (simp add: rows_ok_append_new)
qed (use assms in simp)

lemma rows_ok_filter [inv_keep]: "rows_ok rows \<Longrightarrow> rows_ok (filter P rows)"
  unfolding rows_ok_def list_all_iff
  by (simp add: distinct_map_filter_key distinct_usedPorts_filter)

lemma rows_ok_Delete [inv_keep]: "rows_ok rows \<Longrightarrow> rows_ok (snd (store_Delete fl pid rows))"
  by (simp add: store_Delete_def rows_ok_filter)

lemma usedPorts_map_same:
  "(\<And>r. row_ports (f r) = row_ports r) \<Longrightarrow> usedPortsTx (map f rows) = usedPortsTx rows"
  by (simp add: usedPortsTx_def comp_def)

lemma rows_ok_SetError [inv_keep]: "rows_ok rows \<Longrightarrow> rows_ok (snd (store_SetError fl pid msg rows))"
proof -
  assume ok: "rows_ok rows"
  let ?f = "\<lambda>r. if r_id r = pid then r\<lparr>r_status := StatusError, r_last_error := Some msg\<rparr> else r"
  have "map r_id (map ?f rows) = map r_id rows" "map r_name (map ?f rows) = map r_name rows"
    by (auto simp: comp_def)
  moreover have "usedPortsTx (map ?f rows) = usedPortsTx rows"
    by (rule usedPorts_map_same) (simp add: row_ports_def)
  ultimately show ?thesis
    using ok by (auto simp: store_SetError_def rows_ok_def list_all_iff simp del: map_map)
qed

text \<open>Lookups by name and by identifier are exact under the invariant.\<close>

lemma GetByName_mem:
  assumes "rows_ok rows" "r \<in> set rows" "\<not> fl StSelectByName"
  shows "store_GetByName fl (r_name r) rows = Ok (scanInto r)"
proof -
  have "List.find (\<lambda>x. r_name x = r_name r) rows = Some r"
    using assms by (intro find_unique) (auto simp: rows_ok_def dest: inj_onD [OF distinct_map [THEN iffD1, THEN conjunct2]])
  with assms(3) show ?thesis by (simp add: store_GetByName_def)
qed

lemma Get_mem:
  assumes "rows_ok rows" "r \<in> set rows" "\<not> fl StSelectById"
  shows "store_Get fl (r_id r) rows = Ok (scanInto r)"
proof -
  have "List.find (\<lambda>x. r_id x = r_id r) rows = Some r"
    using assms by (intro find_unique) (auto simp: rows_ok_def dest: inj_onD [OF distinct_map [THEN iffD1, THEN conjunct2]])
  with assms(3) show ?thesis by (simp add: store_Get_def)
qed

lemma GetByName_OkD:
  "store_GetByName fl name rows = Ok p \<Longrightarrow> \<exists>r \<in> set rows. r_name r = name \<and> p = scanInto r"
  by (auto simp: store_GetByName_def split: if_splits option.splits dest!: find_SomeD)

lemma Get_OkD:
  "store_Get fl pid rows = Ok p \<Longrightarrow> \<exists>r \<in> set rows. r_id r = pid \<and> p = scanInto r"
  by (auto simp: store_Get_def split: if_splits option.splits dest!: find_SomeD)

lemma scanInto_simps [simp]:
  "p_ID (scanInto r) = r_id r" "p_Name (scanInto r) = r_name r"
  by (simp_all add: scanInto_def)

lemma set_store_List: "store_List fl rows = Ok ps \<Longrightarrow> set ps = scanInto ` set rows"
  by (auto simp: store_List_def split: if_splits)

section \<open>Properties\<close>

text \<open>Any sequence of the store's mutating calls, each with its own driver faults.\<close>

datatype store_op =
    OpCreate faults string instant string
  | OpDelete faults string
  | OpSetError faults string string

primrec store_step :: "project_row list \<Rightarrow> store_op \<Rightarrow> project_row list" where
  "store_step rows (OpCreate fl uuid now name) = snd (store_Create fl uuid now name rows)"
| "store_step rows (OpDelete fl pid) = snd (store_Delete fl pid rows)"
| "store_step rows (OpSetError fl pid msg) = snd (store_SetError fl pid msg rows)"

lemma rows_ok_step [inv_keep]: "rows_ok rows \<Longrightarrow> rows_ok (store_step rows oper)"
  by (cases oper) (simp_all add: rows_ok_Create rows_ok_Delete rows_ok_SetError)

lemma rows_ok_run: "rows_ok rows \<Longrightarrow> rows_ok (foldl store_step rows ops)"
  by (induction ops arbitrary: rows) (simp_all add: rows_ok_step)

lemma rows_ok_Nil: "rows_ok []"
  by (simp add: rows_ok_def usedPortsTx_def)

text \<open>
  C1: In every table reachable from the empty one by creates, deletes and error updates,
  whatever statements fail on the way, identifiers and names are unique, every name is valid,
  and no port is allocated twice, across both environments of all projects.
\<close>

theorem store_reachable_ok:
  "rows_ok (foldl store_step [] ops)"
  by (rule rows_ok_run [OF rows_ok_Nil])

text \<open>
  C30: The allocator returns the two lowest unused ports of the published range, the lower one
  first; it fails only when fewer than two ports of the range are unused.
\<close>

theorem nextAvailablePortPairTx_lowest:
  assumes "\<not> fl StQueryPorts"
  shows "case nextAvailablePortPairTx fl rows of
      Inr (p, q) \<Rightarrow> PortRangeStart \<le> p \<and> p < q \<and> q \<le> PublishedPortRangeEnd
        \<and> p \<notin> set (usedPortsTx rows) \<and> q \<notin> set (usedPortsTx rows)
        \<and> (\<forall>r. PortRangeStart \<le> r \<and> r < q \<and> r \<notin> set (usedPortsTx rows) \<longrightarrow> r = p)
    | Inl e \<Rightarrow> e = ErrNoPortAvailable
        \<and> card ({PortRangeStart..PublishedPortRangeEnd} - set (usedPortsTx rows)) \<le> 1"
proof (cases "port_pair_loop (usedPortsTx rows) [] PortRangeStart")
  case None
  with assms show ?thesis
    using port_pair_loop_None [OF None] by (simp add: nextAvailablePortPairTx_def)
next
  case (Some pq)
  obtain p q where "pq = (p, q)" by (cases pq)
  with Some have pq: "port_pair_loop (usedPortsTx rows) [] PortRangeStart = Some (p, q)" by simp
  then have eq: "nextAvailablePortPairTx fl rows = Ok (p, q)"
    using assms by (simp add: nextAvailablePortPairTx_def)
  show ?thesis
    unfolding eq sum.case prod.case
    using port_pair_loop_Some(1-5) [OF pq] port_pair_loop_Some(6) [OF pq] by blast
qed

theorem nextAvailablePortPairTx_lowest_witness:
  "nextAvailablePortPairTx no_faults [new_row ''u'' ''shop'' 10000 10002 0] = Ok (10001, 10003)
   \<and> {10001, 10003} \<inter> set (usedPortsTx [new_row ''u'' ''shop'' 10000 10002 0]) = {}"
proof -
  have "nextAvailablePortPairTx no_faults [new_row ''u'' ''shop'' 10000 10002 0] = Ok (10001, 10003)"
    by code_simp
  then show ?thesis
    using nextAvailablePortPairTx_lowest [of no_faults "[new_row ''u'' ''shop'' 10000 10002 0]"]
    by (auto simp: no_faults_def)
qed

text \<open>
  The published range holds one hundred projects: as long as the table has fewer than 100
  rows, creating a project with a fresh valid name succeeds, its ports lie in the published
  range, the new name is found afterwards, and every other name resolves as before.
\<close>

theorem store_Create_capacity:
  assumes "length rows < 100" "valid_name name" "name \<notin> r_name ` set rows" "uuid \<notin> r_id ` set rows"
  shows "\<exists>p rows'. store_Create no_faults uuid now name rows = (Ok p, rows')
     \<and> p_Name p = name \<and> {p_AssignedPort p, p_DevPort p} \<subseteq> {PortRangeStart..PublishedPortRangeEnd}
     \<and> store_GetByName no_faults name rows' = Ok p
     \<and> (\<forall>n. n \<noteq> name \<longrightarrow> store_GetByName no_faults n rows' = store_GetByName no_faults n rows)"
proof -
  obtain p q where pq: "port_pair_loop (usedPortsTx rows) [] PortRangeStart = Some (p, q)"
    using port_pair_available [OF assms(1)] by auto
  let ?r = "new_row uuid name p q now"
  have nc: "\<not> insert_conflict rows ?r"
    using insert_conflict_new [OF port_pair_loop_Some(4,5) [OF pq]] assms(3,4) by simp
  have "List.find (\<lambda>r. r_id r = uuid) rows = None" "List.find (\<lambda>r. r_name r = name) rows = None"
    using assms(3,4) by (auto simp: find_None_iff)
  moreover have find_snoc: "List.find P (xs @ [x]) =
      (case List.find P xs of None \<Rightarrow> if P x then Some x else None | Some y \<Rightarrow> Some y)"
    for P and xs :: "project_row list" and x by (induction xs) auto
  ultimately have "store_Create no_faults uuid now name rows = (Ok (scanInto ?r), rows @ [?r])"
    "store_GetByName no_faults name (rows @ [?r]) = Ok (scanInto ?r)"
    using assms(2) pq nc
    by (simp_all add: store_Create_def nextAvailablePortPairTx_def no_faults_def store_Get_def
        store_GetByName_def Let_def)
  moreover have "store_GetByName no_faults n (rows @ [?r]) = store_GetByName no_faults n rows"
    if "n \<noteq> name" for n
    using that by (simp add: store_GetByName_def find_snoc split: option.splits)
  moreover have "{p_AssignedPort (scanInto ?r), p_DevPort (scanInto ?r)} \<subseteq> {PortRangeStart..PublishedPortRangeEnd}"
    using port_pair_loop_Some(1-3) [OF pq] by (simp add: scanInto_def)
  ultimately show ?thesis by (intro exI [of _ "scanInto ?r"] exI [of _ "rows @ [?r]"]) simp
qed

theorem store_Create_capacity_witness:
  "\<exists>p rows'. store_Create no_faults ''u2'' 9 ''blog'' [new_row ''u1'' ''shop'' 10000 10001 7] = (Ok p, rows')
     \<and> store_GetByName no_faults ''blog'' rows' = Ok p"
proof -
  have "valid_name ''blog''" by code_simp
  then show ?thesis
    using store_Create_capacity [of "[new_row ''u1'' ''shop'' 10000 10001 7]" "''blog''" "''u2''" 9] by auto
qed

end
