(* ===== verification/Project_Manager.thy ===== *)
theory Project_Manager
  imports Project_Store
begin

text \<open>
  The project manager (\<^verbatim>\<open>internal/project/manager.go\<close>): public URL construction, create with
  rollback, delete, lookup, and the startup reconciliation. The agent-server is outside the
  program; it is an argument, the \<open>AgentRegistrar\<close> interface with a state of its own.
  The locale \<open>project_directory\<close> is the interface that name-based clients (the subdomain
  dispatcher and the agent mirror) rely on; the store implements it.
\<close>

section \<open>The registrar interface and the manager\<close>

text \<open>Each call returns the error, if any, and the agent-server's new state.\<close>

record 'a registrar =
  EnsureProject :: "string \<Rightarrow> deployment \<Rightarrow> 'a \<Rightarrow> string option \<times> 'a"
  DeleteProject :: "string \<Rightarrow> 'a \<Rightarrow> string option \<times> 'a"

record manager =
  pm_ProjectRoot :: string
  pm_BaseDomain :: string
  pm_HTTPMode :: bool
  pm_ExternalPort :: int

text \<open>\<^verbatim>\<open>filepath.Abs\<close>; \<open>cwd\<close> is the working directory (\<open>None\<close>: it cannot be determined).\<close>

definition filepath_Abs :: "string option \<Rightarrow> string \<Rightarrow> string option" where
  "filepath_Abs cwd p =
     (if HasPrefix p ''/'' then Some (path_Clean p)
      else map_option (\<lambda>d. path_Join [d, p]) cwd)"

definition NewManager :: "string option \<Rightarrow> string \<Rightarrow> manager" where
  "NewManager cwd projectRoot =
     \<lparr>pm_ProjectRoot =
        (if projectRoot \<noteq> [] then
           (case filepath_Abs cwd projectRoot of Some a \<Rightarrow> a | None \<Rightarrow> projectRoot)
         else projectRoot),
      pm_BaseDomain = [], pm_HTTPMode = False, pm_ExternalPort = 0\<rparr>"

definition appURL :: "manager \<Rightarrow> string \<Rightarrow> string" where
  "appURL m label =
     (let scheme = (if pm_HTTPMode m then ''http'' else ''https'');
          defaultPort = (if pm_HTTPMode m then 80 else 443);
          host = (if pm_BaseDomain m \<noteq> [] then label @ ''.'' @ pm_BaseDomain m else label)
      in if pm_ExternalPort m \<noteq> 0 \<and> pm_ExternalPort m \<noteq> defaultPort
         then scheme @ ''://'' @ host @ '':'' @ Itoa (pm_ExternalPort m)
         else scheme @ ''://'' @ host)"

definition deploymentFor :: "manager \<Rightarrow> project \<Rightarrow> deployment" where
  "deploymentFor m proj =
     \<lparr>dep_Dev = \<lparr>et_Port = p_DevPort proj, et_URL = appURL m (p_Name proj @ ''-dev'')\<rparr>,
      dep_Prod = \<lparr>et_Port = p_AssignedPort proj, et_URL = appURL m (p_Name proj)\<rparr>\<rparr>"

definition mgr_Create ::
  "'a registrar option \<Rightarrow> manager \<Rightarrow> faults \<Rightarrow> string \<Rightarrow> instant \<Rightarrow> string
     \<Rightarrow> project_row list \<times> 'a \<Rightarrow> (project_error, project) result \<times> project_row list \<times> 'a" where
  "mgr_Create agent m fl uuid now name s =
     (case store_Create fl uuid now name (fst s) of
        (Inl e, rows') \<Rightarrow> (Err e, rows', snd s)
      | (Inr proj, rows') \<Rightarrow>
          (case agent of
             None \<Rightarrow> (Ok proj, rows', snd s)
           | Some ag \<Rightarrow>
               (case EnsureProject ag (p_Name proj) (deploymentFor m proj) (snd s) of
                  (Some err, a') \<Rightarrow>
                    (Err (ErrAgent ''register project with agent-server'' err),
                     snd (store_Delete fl (p_ID proj) rows'), a')
                | (None, a') \<Rightarrow> (Ok proj, rows', a'))))"

definition mgr_Delete ::
  "'a registrar option \<Rightarrow> faults \<Rightarrow> string \<Rightarrow> project_row list \<times> 'a
     \<Rightarrow> project_error option \<times> project_row list \<times> 'a" where
  "mgr_Delete agent fl pid s =
     (case store_Get fl pid (fst s) of
        Inl e \<Rightarrow> (Some e, s)
      | Inr proj \<Rightarrow>
          (case agent of
             None \<Rightarrow> (case store_Delete fl pid (fst s) of (e, rows') \<Rightarrow> (e, rows', snd s))
           | Some ag \<Rightarrow>
               (case DeleteProject ag (p_Name proj) (snd s) of
                  (Some err, a') \<Rightarrow>
                    (Some (ErrAgent ''deregister project from agent-server'' err), fst s, a')
                | (None, a') \<Rightarrow>
                    (case store_Delete fl pid (fst s) of (e, rows') \<Rightarrow> (e, rows', a')))))"

definition mgr_List :: "faults \<Rightarrow> project_row list \<Rightarrow> (project_error, project list) result" where
  "mgr_List fl rows = store_List fl rows"

definition mgr_Get :: "faults \<Rightarrow> string \<Rightarrow> project_row list \<Rightarrow> (project_error, project) result" where
  "mgr_Get fl pid rows = store_Get fl pid rows"

definition mgr_GetByName ::
  "faults \<Rightarrow> string \<Rightarrow> project_row list \<Rightarrow> (project_error, project) result" where
  "mgr_GetByName fl name rows = store_GetByName fl name rows"

definition ProjectDir :: "manager \<Rightarrow> string \<Rightarrow> string" where
  "ProjectDir m name =
     (if pm_ProjectRoot m = [] then [] else path_Join [pm_ProjectRoot m, name])"

text \<open>
  The loop of \<open>ReconcileAgentProjects\<close>: every project is registered, failures are collected
  and never stop the loop. The result is the list of joined errors (empty: nil).
\<close>

fun reconcile_loop ::
  "'a registrar \<Rightarrow> manager \<Rightarrow> project list \<Rightarrow> 'a \<Rightarrow> project_error list \<times> 'a" where
  "reconcile_loop ag m [] a = ([], a)"
| "reconcile_loop ag m (proj # ps) a =
     (case EnsureProject ag (p_Name proj) (deploymentFor m proj) a of
        (Some err, a') \<Rightarrow>
          (case reconcile_loop ag m ps a' of
             (errs, a'') \<Rightarrow> (ErrAgent (''register '' @ p_Name proj) err # errs, a''))
      | (None, a') \<Rightarrow> reconcile_loop ag m ps a')"

definition ReconcileAgentProjects ::
  "'a registrar option \<Rightarrow> manager \<Rightarrow> faults \<Rightarrow> project_row list \<Rightarrow> 'a \<Rightarrow> project_error list \<times> 'a" where
  "ReconcileAgentProjects agent m fl rows a =
     (case agent of
        None \<Rightarrow> ([], a)
      | Some ag \<Rightarrow>
          (case store_List fl rows of
             Inl e \<Rightarrow> ([ErrDB ''list projects for reconcile''], a)
           | Inr ps \<Rightarrow> reconcile_loop ag m ps a))"

section \<open>The directory interface\<close>

text \<open>
  What the name-based clients rely on: a lookup finds exactly the members, names are valid,
  and no port belongs to two members or to both environments of one.
\<close>

locale project_directory =
  fixes lookup :: "'s \<Rightarrow> string \<Rightarrow> project option"
    and members :: "'s \<Rightarrow> project set"
    and invar :: "'s \<Rightarrow> bool"
  assumes lookup_SomeD: "lookup s n = Some p \<Longrightarrow> p \<in> members s \<and> p_Name p = n"
    and lookup_member: "invar s \<Longrightarrow> p \<in> members s \<Longrightarrow> lookup s (p_Name p) = Some p"
    and member_valid: "invar s \<Longrightarrow> p \<in> members s \<Longrightarrow> valid_name (p_Name p)"
    and ports_exclusive: "invar s \<Longrightarrow> p \<in> members s \<Longrightarrow> q \<in> members s \<Longrightarrow> port \<noteq> 0 \<Longrightarrow>
        port \<in> {p_AssignedPort p, p_DevPort p} \<Longrightarrow> port \<in> {p_AssignedPort q, p_DevPort q} \<Longrightarrow> p = q"
    and envs_distinct: "invar s \<Longrightarrow> p \<in> members s \<Longrightarrow> p_AssignedPort p \<noteq> 0 \<Longrightarrow>
        p_AssignedPort p \<noteq> p_DevPort p"
begin

lemma lookup_invalid: "invar s \<Longrightarrow> \<not> valid_name n \<Longrightarrow> lookup s n = None"
  using lookup_SomeD [of s n] member_valid [of s] by (cases "lookup s n") fastforce+

lemma dev_name_not_member: "invar s \<Longrightarrow> lookup s (n @ ''-dev'') = None"
  using valid_name_no_dev [of "n @ ''-dev''"] by (intro lookup_invalid) auto

lemma same_port_same_name:
  assumes "invar s" "lookup s n = Some p" "lookup s k = Some q" "port \<noteq> 0"
    "port \<in> {p_AssignedPort p, p_DevPort p}" "port \<in> {p_AssignedPort q, p_DevPort q}"
  shows "n = k"
proof -
  from assms(2,3) have "p \<in> members s" "q \<in> members s" and nk: "p_Name p = n" "p_Name q = k"
    using lookup_SomeD by blast+
  then have "p = q" using assms ports_exclusive [of s p q port] by simp
  with nk show ?thesis by simp
qed

end

section \<open>The store is a directory\<close>

definition dir_lookup :: "project_row list \<Rightarrow> string \<Rightarrow> project option" where
  "dir_lookup rows n = (case store_GetByName no_faults n rows of Inl _ \<Rightarrow> None | Inr p \<Rightarrow> Some p)"

definition row_members :: "project_row list \<Rightarrow> project set" where
  "row_members rows = scanInto ` set rows"

lemma scanInto_port_mem:
  "port \<noteq> 0 \<Longrightarrow> port \<in> {p_AssignedPort (scanInto r), p_DevPort (scanInto r)} \<Longrightarrow> port \<in> set (row_ports r)"
  by (auto simp: scanInto_def row_ports_def split: option.splits)

lemma distinct_concat_disjoint:
  "distinct (concat (map f xs)) \<Longrightarrow> x \<in> set xs \<Longrightarrow> y \<in> set xs \<Longrightarrow> z \<in> set (f x) \<Longrightarrow> z \<in> set (f y)
    \<Longrightarrow> x = y"
  by (induction xs) auto

lemma rows_ok_ports_exclusive:
  assumes "rows_ok rows" "r \<in> set rows" "q \<in> set rows" "port \<in> set (row_ports r)" "port \<in> set (row_ports q)"
  shows "r = q"
  using assms distinct_concat_disjoint [of row_ports rows r q port]
  by (simp add: rows_ok_def usedPortsTx_def)

lemma rows_ok_envs_distinct:
  assumes "rows_ok rows" "r \<in> set rows"
  shows "distinct (row_ports r)"
proof -
  from assms(1) have "distinct (concat (map row_ports rows))"
    by (simp add: rows_ok_def usedPortsTx_def)
  then show ?thesis using assms(2) by (induction rows) auto
qed

lemma dir_lookup_SomeD: "dir_lookup rows n = Some p \<Longrightarrow> p \<in> row_members rows \<and> p_Name p = n"
  by (auto simp: dir_lookup_def row_members_def split: sum.splits dest!: GetByName_OkD)

interpretation dir: project_directory dir_lookup row_members rows_ok
proof unfold_locales
  fix s n p assume "dir_lookup s n = Some p"
  then show "p \<in> row_members s \<and> p_Name p = n" by (rule dir_lookup_SomeD)
next
  fix s p assume "rows_ok s" "p \<in> row_members s"
  then show "dir_lookup s (p_Name p) = Some p"
    by (auto simp: dir_lookup_def row_members_def no_faults_def GetByName_mem)
next
  fix s p assume "rows_ok s" "p \<in> row_members s"
  then show "valid_name (p_Name p)" by (auto simp: rows_ok_def row_members_def list_all_iff)
next
  fix s p q and port :: int
  assume a: "rows_ok s" "p \<in> row_members s" "q \<in> row_members s" "port \<noteq> 0"
    "port \<in> {p_AssignedPort p, p_DevPort p}" "port \<in> {p_AssignedPort q, p_DevPort q}"
  then obtain r k where "r \<in> set s" "p = scanInto r" "k \<in> set s" "q = scanInto k"
    by (auto simp: row_members_def)
  with a show "p = q" using rows_ok_ports_exclusive scanInto_port_mem by metis
next
  fix s p assume a: "rows_ok s" "p \<in> row_members s" "p_AssignedPort p \<noteq> 0"
  then obtain r where "r \<in> set s" "p = scanInto r" by (auto simp: row_members_def)
  with a rows_ok_envs_distinct [of s r] show "p_AssignedPort p \<noteq> p_DevPort p"
    by (auto simp: scanInto_def row_ports_def split: option.splits)
qed

section \<open>Facts: create, delete and reconcile\<close>

lemma store_Delete_new_row:
  assumes "uuid \<notin> r_id ` set rows" "\<not> fl StDelete"
  shows "snd (store_Delete fl uuid (rows @ [new_row uuid n p q t])) = rows"
proof -
  from assms(1) have "filter (\<lambda>r. r_id r \<noteq> uuid) rows = rows"
    by (auto simp: filter_id_conv)
  with assms(2) show ?thesis by (simp add: store_Delete_def)
qed

lemma store_Create_Get_ok:
  assumes "uuid \<notin> r_id ` set rows" "\<not> fl StSelectById"
  shows "store_Get fl uuid (rows @ [new_row uuid n p q t]) = Ok (scanInto (new_row uuid n p q t))"
proof -
  from assms(1) have "List.find (\<lambda>r. r_id r = uuid) rows = None"
    by (auto simp: find_None_iff)
  then have "List.find (\<lambda>r. r_id r = uuid) (rows @ [new_row uuid n p q t]) = Some (new_row uuid n p q t)"
    by (induction rows) (auto split: if_splits)
  with assms(2) show ?thesis by (simp add: store_Get_def)
qed

lemma reconcile_loop_append:
  "reconcile_loop ag m (ps @ qs) a =
     (case reconcile_loop ag m ps a of (e1, a1) \<Rightarrow>
        (case reconcile_loop ag m qs a1 of (e2, a2) \<Rightarrow> (e1 @ e2, a2)))"
  by (induction ps arbitrary: a) (auto split: prod.splits option.splits)

text \<open>A registrar that upserts by name ends up with every project's deployment.\<close>

lemma reconcile_loop_upsert:
  fixes reg :: "'a \<Rightarrow> string \<Rightarrow> deployment option"
  assumes upsert: "\<And>n d a. fst (EnsureProject ag n d a) = None \<and>
      reg (snd (EnsureProject ag n d a)) = (reg a)(n \<mapsto> d)"
    and "distinct (map p_Name ps)"
  shows "fst (reconcile_loop ag m ps a) = [] \<and>
    reg (snd (reconcile_loop ag m ps a)) n =
      (case List.find (\<lambda>p. p_Name p = n) ps of
         Some p \<Rightarrow> Some (deploymentFor m p) | None \<Rightarrow> reg a n)"
  using assms(2)
proof (induction ps arbitrary: a)
  case (Cons p ps)
  obtain a' where a': "EnsureProject ag (p_Name p) (deploymentFor m p) a = (None, a')"
    "reg a' = (reg a)(p_Name p \<mapsto> deploymentFor m p)"
    using upsert [of "p_Name p" "deploymentFor m p" a] by (metis prod.collapse)
  have "List.find (\<lambda>q. p_Name q = p_Name p) ps = None"
    using Cons.prems by (auto simp: find_None_iff) (metis image_eqI)
  with Cons a' show ?case by (auto split: option.splits)
qed simp

section \<open>Properties\<close>



text \<open>
  C31: \<open>Manager.Delete\<close> asks the agent-server first: when that call fails the record is kept,
  and when the whole operation succeeds the project is gone from the table, every other row
  is untouched, and the agent-server was asked to remove exactly this project's name.
\<close>

theorem mgr_Delete_order:
  assumes "rows_ok rows" "r \<in> set rows" "\<not> fl StSelectById"
  shows "case mgr_Delete (Some ag) fl (r_id r) (rows, a) of
      (None, rows', a') \<Rightarrow> rows' = filter (\<lambda>x. x \<noteq> r) rows \<and> DeleteProject ag (r_name r) a = (None, a')
    | (Some e, rows', a') \<Rightarrow> rows' = rows \<and> (fst (DeleteProject ag (r_name r) a) \<noteq> None \<or> fl StDelete)"
proof -
  have uniq: "x \<in> set rows \<Longrightarrow> r_id x = r_id r \<longleftrightarrow> x = r" for x
    using assms(1,2) by (auto simp: rows_ok_def distinct_map inj_on_def)
  then have "filter (\<lambda>x. r_id x \<noteq> r_id r) rows = filter (\<lambda>x. x \<noteq> r) rows"
    by (auto intro: filter_cong)
  then show ?thesis
    using assms(2) Get_mem [where fl = fl, OF assms(1,2,3)]
    by (auto simp: mgr_Delete_def store_Delete_def list_ex_iff split: prod.splits option.splits)
qed

theorem mgr_Delete_order_witness:
  "case mgr_Delete (Some \<lparr>EnsureProject = (\<lambda>n d a. (None, n # a)), DeleteProject = (\<lambda>n a. (None, removeAll n a))\<rparr>)
      no_faults ''u1'' ([new_row ''u1'' ''shop'' 10000 10001 7], [''shop'']) of
    (None, rows', a') \<Rightarrow> rows' = [] \<and> a' = []
  | (Some e, rows', a') \<Rightarrow> False"
proof -
  let ?ag = "\<lparr>EnsureProject = (\<lambda>n d a. (None, n # a)), DeleteProject = (\<lambda>n a. (None, removeAll n a))\<rparr>"
  let ?r = "new_row ''u1'' ''shop'' 10000 10001 7"
  have "valid_name ''shop''" by code_simp
  then have ok: "rows_ok [?r]" by (simp add: rows_ok_def)
  show ?thesis
    using mgr_Delete_order [OF ok, of ?r no_faults ?ag "[''shop'']"]
    by (auto simp: no_faults_def split: prod.splits option.splits)
qed

text \<open>
  After a startup reconciliation against an agent-server that upserts by name (the
  documented contract of the registration call), every project of the table is registered
  there with the deployment the manager computes for it, and names appx does not know keep
  whatever registration they had.
\<close>

theorem ReconcileAgentProjects_heals:
  fixes reg :: "'a \<Rightarrow> string \<Rightarrow> deployment option"
  assumes upsert: "\<And>n d a. fst (EnsureProject ag n d a) = None \<and>
      reg (snd (EnsureProject ag n d a)) = (reg a)(n \<mapsto> d)"
    and "rows_ok rows" "\<not> fl StSelectAll"
  shows "fst (ReconcileAgentProjects (Some ag) m fl rows a) = []
    \<and> (\<forall>r \<in> set rows. reg (snd (ReconcileAgentProjects (Some ag) m fl rows a)) (r_name r)
           = Some (deploymentFor m (scanInto r)))
    \<and> (\<forall>n. n \<notin> r_name ` set rows \<longrightarrow>
           reg (snd (ReconcileAgentProjects (Some ag) m fl rows a)) n = reg a n)"
proof -
  let ?ps = "map scanInto (sort_key (\<lambda>r. - r_created_at r) rows)"
  have eq: "ReconcileAgentProjects (Some ag) m fl rows a = reconcile_loop ag m ?ps a"
    using assms(3) by (simp add: ReconcileAgentProjects_def store_List_def)
  have "distinct (map r_name (sort_key (\<lambda>r. - r_created_at r) rows))"
    using assms(2) by (simp add: rows_ok_def distinct_map)
  then have dn: "distinct (map p_Name ?ps)" by (simp add: comp_def)
  note run = reconcile_loop_upsert [where reg = reg, OF upsert dn, of m a]
  have other: "List.find (\<lambda>p. p_Name p = n) ?ps = None" if "n \<notin> r_name ` set rows" for n
    using that by (auto simp: find_None_iff)
  have own: "List.find (\<lambda>p. p_Name p = r_name r) ?ps = Some (scanInto r)" if "r \<in> set rows" for r
    using that assms(2) by (intro find_unique) (auto simp: rows_ok_def distinct_map inj_on_def)
  show ?thesis
    unfolding eq using run own other by simp
qed

theorem ReconcileAgentProjects_heals_witness:
  "snd (ReconcileAgentProjects
      (Some \<lparr>EnsureProject = (\<lambda>n d (a :: string \<Rightarrow> deployment option). (None, a(n \<mapsto> d))),
             DeleteProject = (\<lambda>n a. (None, a(n := None)))\<rparr>)
      (NewManager None ''/srv'') no_faults [new_row ''u1'' ''shop'' 10000 10001 7] Map.empty) ''shop''
    = Some (deploymentFor (NewManager None ''/srv'') (scanInto (new_row ''u1'' ''shop'' 10000 10001 7)))"
proof -
  let ?ag = "\<lparr>EnsureProject = (\<lambda>n d (a :: string \<Rightarrow> deployment option). (None, a(n \<mapsto> d))),
             DeleteProject = (\<lambda>n a. (None, a(n := None)))\<rparr>"
  let ?r = "new_row ''u1'' ''shop'' 10000 10001 7"
  have "valid_name ''shop''" by code_simp
  then have ok: "rows_ok [?r]" by (simp add: rows_ok_def)
  show ?thesis
    using ReconcileAgentProjects_heals [where reg = "\<lambda>a. a" and ag = ?ag, OF _ ok, of no_faults]
    by (simp add: no_faults_def)
qed

end
