(* ===== verification/Agent_Client.thy ===== *)
theory Agent_Client
  imports Go_Http Project_Manager
begin

text \<open>
  The agent-server client (\<^verbatim>\<open>internal/agentserver/client.go\<close>). The HTTP round trip
  (\<^verbatim>\<open>http.Client.Do\<close> and the agent-server behind it) is the argument \<open>rt\<close>; whether
  \<^verbatim>\<open>http.NewRequestWithContext\<close> accepts a URL is the argument \<open>parses\<close>. The client is an
  instance of the manager's \<open>AgentRegistrar\<close> interface.
\<close>

section \<open>Client\<close>

record client =
  cl_baseURL :: string
  cl_token :: string

record out_request =
  o_Method :: string
  o_URL :: string
  o_Header :: header
  o_Body :: "json option"

text \<open>A reply: status code, status text and body. \<open>Inl\<close> is a transport error.\<close>

record reply =
  rp_StatusCode :: int
  rp_Status :: string
  rp_Body :: string

type_synonym 'w round_trip = "out_request \<Rightarrow> 'w \<Rightarrow> (string, reply) result \<times> 'w"

definition NewClient :: "string \<Rightarrow> string \<Rightarrow> client" where
  "NewClient baseURL token = \<lparr>cl_baseURL = TrimRight baseURL ''/'', cl_token = token\<rparr>"

definition newRequest ::
  "(string \<Rightarrow> bool) \<Rightarrow> client \<Rightarrow> string \<Rightarrow> string \<Rightarrow> json option \<Rightarrow> (string, out_request) result" where
  "newRequest parses c meth pth bdy =
     (if \<not> parses (cl_baseURL c @ pth) then Err ''build agent-server request''
      else Ok \<lparr>o_Method = meth, o_URL = cl_baseURL c @ pth,
               o_Header = (if cl_token c \<noteq> []
                           then header_Set [] ''Authorization'' (''Bearer '' @ cl_token c) else []),
               o_Body = bdy\<rparr>)"

text \<open>At most 512 bytes of the error body are quoted.\<close>

definition statusError :: "string \<Rightarrow> reply \<Rightarrow> string" where
  "statusError action rp =
     ''agent-server '' @ action @ '' failed: '' @ rp_Status rp @ '': '' @ TrimSpace (take 512 (rp_Body rp))"

text \<open>\<open>marshalTarget\<close> with the \<^verbatim>\<open>omitempty\<close> tags of \<open>envTarget\<close>.\<close>

definition marshalTarget :: "env_target \<Rightarrow> json option" where
  "marshalTarget t =
     (if et_Port t = 0 \<and> et_URL t = [] then None
      else Some (JObj ((if et_Port t \<noteq> 0 then [(''port'', JNum (et_Port t))] else [])
                     @ (if et_URL t \<noteq> [] then [(''url'', JStr (et_URL t))] else []))))"

definition marshalDeployment :: "deployment \<Rightarrow> (string \<times> json) list" where
  "marshalDeployment dep =
     (case marshalTarget (dep_Dev dep) of Some j \<Rightarrow> [(''dev'', j)] | None \<Rightarrow> [])
   @ (case marshalTarget (dep_Prod dep) of Some j \<Rightarrow> [(''prod'', j)] | None \<Rightarrow> [])"

text \<open>The create-project body; \<^verbatim>\<open>json.Marshal\<close> writes map keys in sorted order.\<close>

definition create_payload :: "string \<Rightarrow> deployment \<Rightarrow> json" where
  "create_payload name dep =
     JObj ((if marshalDeployment dep \<noteq> [] then [(''deployment'', JObj (marshalDeployment dep))] else [])
           @ [(''name'', JStr name)])"

definition client_EnsureProject ::
  "'w round_trip \<Rightarrow> (string \<Rightarrow> bool) \<Rightarrow> client \<Rightarrow> string \<Rightarrow> deployment \<Rightarrow> 'w \<Rightarrow> string option \<times> 'w" where
  "client_EnsureProject rt parses c name dep w =
     (case newRequest parses c ''POST'' ''/v1/projects'' (Some (create_payload name dep)) of
        Inl e \<Rightarrow> (Some e, w)
      | Inr req \<Rightarrow>
          (case rt (req\<lparr>o_Header := header_Set (o_Header req) ''Content-Type'' ''application/json''\<rparr>) w of
             (Inl e, w') \<Rightarrow> (Some (''call agent-server create-project: '' @ e), w')
           | (Inr rp, w') \<Rightarrow>
               if rp_StatusCode rp \<noteq> 200 then (Some (statusError ''create project'' rp), w')
               else (None, w')))"

definition client_DeleteProject ::
  "'w round_trip \<Rightarrow> (string \<Rightarrow> bool) \<Rightarrow> client \<Rightarrow> string \<Rightarrow> 'w \<Rightarrow> string option \<times> 'w" where
  "client_DeleteProject rt parses c pid w =
     (case newRequest parses c ''DELETE'' (''/v1/projects/'' @ pid) None of
        Inl e \<Rightarrow> (Some e, w)
      | Inr req \<Rightarrow>
          (case rt req w of
             (Inl e, w') \<Rightarrow> (Some (''call agent-server delete-project: '' @ e), w')
           | (Inr rp, w') \<Rightarrow>
               if rp_StatusCode rp = 200 \<or> rp_StatusCode rp = 404 then (None, w')
               else (Some (statusError ''delete project'' rp), w')))"

definition client_registrar :: "'w round_trip \<Rightarrow> (string \<Rightarrow> bool) \<Rightarrow> client \<Rightarrow> 'w registrar" where
  "client_registrar rt parses c =
     \<lparr>EnsureProject = client_EnsureProject rt parses c,
      DeleteProject = client_DeleteProject rt parses c\<rparr>"

section \<open>Facts\<close>

lemma appURL_neq_Nil [simp]: "appURL m l \<noteq> []"
  by (simp add: appURL_def Let_def)

text \<open>The manager's deployments always carry both environments.\<close>

lemma marshalDeployment_manager:
  "map fst (marshalDeployment (deploymentFor m proj)) = [''dev'', ''prod'']"
  by (simp add: marshalDeployment_def deploymentFor_def marshalTarget_def)

lemma newRequest_OkD:
  "newRequest parses c meth pth bdy = Ok req \<Longrightarrow>
     o_Method req = meth \<and> o_URL req = cl_baseURL c @ pth \<and> o_Body req = bdy
     \<and> header_Get (o_Header req) ''Authorization'' =
         (if cl_token c \<noteq> [] then ''Bearer '' @ cl_token c else [])"
  by (auto simp: newRequest_def header_Get_def map_of_header_Set split: if_splits)

text \<open>One registration call against a server that records the requests it gets.\<close>

definition create_request :: "client \<Rightarrow> string \<Rightarrow> out_request \<Rightarrow> bool" where
  "create_request c name req \<longleftrightarrow>
     o_Method req = ''POST'' \<and> o_URL req = cl_baseURL c @ ''/v1/projects''
     \<and> header_Get (o_Header req) ''Authorization'' =
         (if cl_token c \<noteq> [] then ''Bearer '' @ cl_token c else [])
     \<and> (\<exists>d. o_Body req = Some (JObj [(''deployment'', JObj d), (''name'', JStr name)])
            \<and> map fst d = [''dev'', ''prod''])"

lemma client_EnsureProject_logged:
  assumes "client_EnsureProject (\<lambda>req w. (answer req, w @ [req])) parses c name (deploymentFor m proj) w = (r, w')"
  shows "(w' = w \<and> r \<noteq> None) \<or> (\<exists>req. w' = w @ [req] \<and> create_request c name req
    \<and> (r = None \<longleftrightarrow> (\<exists>rp. answer req = Ok rp \<and> rp_StatusCode rp = 200)))"
proof (cases "newRequest parses c ''POST'' ''/v1/projects''
    (Some (create_payload name (deploymentFor m proj)))")
  case (Inl e)
  with assms show ?thesis by (auto simp: client_EnsureProject_def)
next
  case (Inr req)
  let ?req = "req\<lparr>o_Header := header_Set (o_Header req) ''Content-Type'' ''application/json''\<rparr>"
  have "marshalDeployment (deploymentFor m proj) \<noteq> []"
    using marshalDeployment_manager [of m proj] by auto
  then have "create_request c name ?req"
    using newRequest_OkD [OF Inr] marshalDeployment_manager [of m proj]
    by (auto simp: create_request_def create_payload_def)
  moreover have "w' = w @ [?req]"
    "r = None \<longleftrightarrow> (\<exists>rp. answer ?req = Ok rp \<and> rp_StatusCode rp = 200)"
    using assms Inr by (auto simp: client_EnsureProject_def split: sum.splits if_splits)
  ultimately show ?thesis by blast
qed

section \<open>Properties\<close>

text \<open>
  When the manager creates a project through this client, the agent-server receives at most
  one request, and it is a POST to \<^verbatim>\<open>/v1/projects\<close> whose JSON body names the project and holds
  both environments; the bearer token is sent exactly when one is configured. Every outcome
  other than a 200 reply is reported as an error and the project record is rolled back.
\<close>

theorem create_through_client:
  assumes "\<not> fl StSelectById" "\<not> fl StDelete"
    and rt: "rt = (\<lambda>req w. (answer req, w @ [req]))"
  shows "case mgr_Create (Some (client_registrar rt parses c)) m fl uuid now name (rows, []) of
      (res, rows', w') \<Rightarrow>
        length w' \<le> 1
        \<and> (\<forall>req \<in> set w'. create_request c name req)
        \<and> (is_ok res \<longleftrightarrow> rows' \<noteq> rows)
        \<and> (is_ok res \<longrightarrow> (\<exists>req rp. w' = [req] \<and> answer req = Ok rp \<and> rp_StatusCode rp = 200))"
proof (cases rule: store_Create_cases [of name rows uuid fl now])
  case (ok p q)
  let ?proj = "scanInto (new_row uuid name p q now)"
  note created = ok(5) store_Create_Get_ok [where fl = fl, OF ok(3) assms(1)]
  obtain r w' where call: "client_EnsureProject rt parses c name (deploymentFor m ?proj) [] = (r, w')"
    by (cases "client_EnsureProject rt parses c name (deploymentFor m ?proj) []")
  have log: "(w' = [] \<and> r \<noteq> None) \<or> (\<exists>req. w' = [req] \<and> create_request c name req
    \<and> (r = None \<longleftrightarrow> (\<exists>rp. answer req = Ok rp \<and> rp_StatusCode rp = 200)))"
    using client_EnsureProject_logged [OF call [unfolded rt]] by simp
  show ?thesis
    using log store_Delete_new_row [where fl = fl, OF ok(3) assms(2)] call
    by (cases r) (auto simp: mgr_Create_def created client_registrar_def)
next
  case (err e)
  then show ?thesis by (simp add: mgr_Create_def err)
qed

theorem create_through_client_witness:
  "case mgr_Create (Some (client_registrar
        (\<lambda>req w. (Ok \<lparr>rp_StatusCode = 500, rp_Status = ''500 x'', rp_Body = []\<rparr>, w @ [req]))
        (\<lambda>_. True) (NewClient ''http://127.0.0.1:4001/'' ''tok'')))
      (NewManager None []) no_faults ''u1'' 7 ''shop'' ([], []) of
    (res, rows', w') \<Rightarrow> length w' \<le> 1 \<and> \<not> is_ok res \<and> rows' = []"
  using create_through_client [where fl = no_faults and parses = "\<lambda>_. True"
      and c = "NewClient ''http://127.0.0.1:4001/'' ''tok''" and m = "NewManager None []"
      and uuid = "''u1''" and now = 7 and name = "''shop''" and rows = "[]"
      and answer = "\<lambda>req. Ok \<lparr>rp_StatusCode = 500, rp_Status = ''500 x'', rp_Body = []\<rparr>", OF _ _ refl]
  by (auto simp: no_faults_def split: prod.splits sum.splits)

end
