(* ===== verification/Server_Core.thy ===== *)
theory Server_Core
  imports Auth Rate_Limiter Egress_Pending Terminal_Local Project_Health Agent_Client
begin

text \<open>
  The state of the HTTP server, what one request sees of the outside world, and the generic
  middleware (\<^verbatim>\<open>internal/server/middleware.go\<close>, \<open>writeJSON\<close> of \<^verbatim>\<open>internal/server/router.go\<close>). Everything
  the handlers share is one record; the egress store sits inside the approval registry, which
  holds a pointer to it. The settings table is split by key: the password and the terminal
  settings in the auth store, the allowlist in the egress store.
\<close>

section \<open>State and environment\<close>

record 'a server_state =
  sv_auth :: auth_store
  sv_limiter :: rate_limiter
  sv_rows :: "project_row list"
  sv_agent :: 'a
  sv_pending :: pending_state
  sv_local :: local_manager

record server_env =
  se_auth :: auth_env
  se_now :: instant
  se_project_faults :: faults
  se_egress_faults :: egress_faults
  se_uuid :: string
  se_net :: "int \<Rightarrow> probe_io"
  se_marshal :: marshal
  se_map_order :: "string list"
  se_os :: os_env
  se_ptyOk :: bool
  se_setsizeOk :: bool
  se_upgradeOk :: bool
  se_upgradeError :: "http_response \<Rightarrow> http_response"
  se_roundTrip :: "string \<Rightarrow> http_request \<Rightarrow> int option"
  se_timestr :: "instant \<Rightarrow> string"
  se_errText :: string

record 'a server_config =
  cf_Cookie :: cookie_config
  cf_Manager :: manager
  cf_Agent :: "'a registrar option"
  cf_HTTPMode :: bool
  cf_BaseDomain :: string
  cf_HostAliases :: "string list"
  cf_AgentServerURL :: string
  cf_AgentServerToken :: string
  cf_ProjectShell :: "container_shell option"
  cf_HasPending :: bool
  cf_webFS :: "string \<Rightarrow> bool"

definition put_auth :: "auth_store \<Rightarrow> 'a server_state \<Rightarrow> 'a server_state" where
  "put_auth st s = s\<lparr>sv_auth := st\<rparr>"

definition put_limiter :: "rate_limiter \<Rightarrow> 'a server_state \<Rightarrow> 'a server_state" where
  "put_limiter rl s = s\<lparr>sv_limiter := rl\<rparr>"

interpretation sv_auth_lens: auth_lens sv_auth put_auth
  by unfold_locales (simp_all add: put_auth_def)

interpretation sv_limiter_lens: state_lens sv_limiter put_limiter
  by unfold_locales (simp_all add: put_limiter_def)

definition egress_of :: "'a server_state \<Rightarrow> egress_store" where
  "egress_of s = pd_store (sv_pending s)"

definition put_egress :: "egress_store \<Rightarrow> 'a server_state \<Rightarrow> 'a server_state" where
  "put_egress es s = s\<lparr>sv_pending := (sv_pending s)\<lparr>pd_store := es\<rparr>\<rparr>"

interpretation sv_egress_lens: state_lens egress_of put_egress
  by unfold_locales (simp_all add: egress_of_def put_egress_def)

section \<open>Replies\<close>

definition writeJSON :: "http_response \<Rightarrow> json \<Rightarrow> http_response" where
  "writeJSON w v = write_body (set_header w ''Content-Type'' ''application/json'') (JsonBody v)"

definition status_ok :: json where
  "status_ok = JObj [(''status'', JStr ''ok'')]"

text \<open>A handler that panics: the server aborts the connection.\<close>

definition aborted :: "http_response \<Rightarrow> http_response" where
  "aborted w = w\<lparr>rs_Sent := Some (0, [], []), rs_Body := NoBody\<rparr>"

text \<open>Decoding the body into a struct.\<close>

definition decode_struct :: "http_request \<Rightarrow> ((string \<times> json) list \<Rightarrow> 'a option) \<Rightarrow> 'a option" where
  "decode_struct r dec = Option.bind (Option.bind (decode_body r) struct_fields) dec"

section \<open>Middleware\<close>

definition maxRequestBody :: nat where
  "maxRequestBody = 2 ^ 20"

definition frame_src :: "bool \<Rightarrow> string \<Rightarrow> string" where
  "frame_src httpMode baseDomain =
     (if baseDomain \<noteq> []
      then [CHR 0x27] @ ''self'' @ [CHR 0x27] @ '' '' @ (if httpMode then ''http'' else ''https'')
           @ ''://*.'' @ baseDomain @ '':*''
      else [CHR 0x27] @ ''self'' @ [CHR 0x27])"

definition csp_quoted :: "string \<Rightarrow> string" where
  "csp_quoted s = [CHR 0x27] @ s @ [CHR 0x27]"

definition content_security_policy :: "bool \<Rightarrow> string \<Rightarrow> string" where
  "content_security_policy httpMode baseDomain =
     ''default-src '' @ csp_quoted ''self'' @ ''; '' @
     ''script-src '' @ csp_quoted ''self'' @ ''; '' @
     ''style-src '' @ csp_quoted ''self'' @ '' '' @ csp_quoted ''unsafe-inline'' @ '' https://fonts.googleapis.com; '' @
     ''font-src '' @ csp_quoted ''self'' @ '' https://fonts.gstatic.com; '' @
     ''frame-src '' @ frame_src httpMode baseDomain @ ''; '' @
     ''connect-src '' @ csp_quoted ''self''"

definition securityHeaders :: "bool \<Rightarrow> string \<Rightarrow> 's handler \<Rightarrow> 's handler" where
  "securityHeaders httpMode baseDomain next r ws =
     (case ws of (w, s) \<Rightarrow>
        let w1 = set_header w ''X-Content-Type-Options'' ''nosniff'';
            w2 = (if \<not> httpMode
                  then set_header w1 ''Strict-Transport-Security'' ''max-age=63072000; includeSubDomains'' else w1);
            w3 = set_header w2 ''Referrer-Policy'' ''strict-origin-when-cross-origin'';
            w4 = set_header w3 ''X-Frame-Options'' ''DENY'';
            w5 = set_header w4 ''Content-Security-Policy'' (content_security_policy httpMode baseDomain)
        in next r (w5, s))"

definition limitBody :: "'s handler \<Rightarrow> 's handler" where
  "limitBody next r ws =
     next (r\<lparr>rq_BodyLimit := Some (case rq_BodyLimit r of None \<Rightarrow> maxRequestBody | Some l \<Rightarrow> min l maxRequestBody)\<rparr>) ws"

definition requireJSON :: "'s handler \<Rightarrow> 's handler" where
  "requireJSON next r ws =
     (case ws of (w, s) \<Rightarrow>
        if rq_Method r \<notin> {''GET'', ''HEAD'', ''OPTIONS''}
           \<and> \<not> HasPrefix (header_Get (rq_Header r) ''Content-Type'') ''application/json''
        then (http_Error w ''Content-Type must be application/json'' 415, s)
        else next r (w, s))"

abbreviation authMiddleware :: "server_env \<Rightarrow> 'a server_state handler \<Rightarrow> 'a server_state handler" where
  "authMiddleware env \<equiv> auth_Middleware sv_auth put_auth (se_auth env)"

section \<open>Facts\<close>

lemma put_auth_simps [simp]:
  "sv_auth (put_auth st s) = st" "sv_rows (put_auth st s) = sv_rows s" "sv_agent (put_auth st s) = sv_agent s"
  "sv_limiter (put_auth st s) = sv_limiter s" "sv_pending (put_auth st s) = sv_pending s"
  "sv_local (put_auth st s) = sv_local s"
  by (simp_all add: put_auth_def)

text \<open>
  A response in progress keeps what has been sent: helpers for handlers that reply once.
\<close>

lemma writeJSON_status [simp]: "rs_Sent w = None \<Longrightarrow> rs_status (writeJSON w v) = 200"
  by (simp add: writeJSON_def http_defs)

lemma rs_status_writeJSON_after: "rs_Sent w = None \<Longrightarrow> rs_status (writeJSON (WriteHeader w code) v) = code"
  by (simp add: writeJSON_def http_defs)

lemma writeJSON_after_header:
  "rs_Sent w = None \<Longrightarrow> sent_header (writeJSON (WriteHeader w code) v) k = map_of (rs_Header w) k"
  by (simp add: writeJSON_def http_defs)

lemma rs_status_WriteHeader [simp]: "rs_Sent w = None \<Longrightarrow> rs_status (WriteHeader w code) = code"
  by (simp add: http_defs)

lemma rs_Sent_set_header [simp]: "rs_Sent (set_header w k v) = rs_Sent w"
  by (simp add: set_header_def)

lemma rs_Sent_SetCookie [simp]: "rs_Sent (SetCookie w c) = rs_Sent w"
  by (simp add: SetCookie_def)

section \<open>A concrete server\<close>

definition demo_auth_env :: auth_env where
  "demo_auth_env = \<lparr>ae_now = 0, ae_now2 = 0, ae_sha = char_bytes, ae_bc_gen = (\<lambda>p c. Some p),
     ae_bc_cmp = (\<lambda>h p. h = p), ae_rnd = (\<lambda>_. Some [7, 7]), ae_faults = ok_faults\<rparr>"

definition demo_env :: server_env where
  "demo_env = \<lparr>se_auth = demo_auth_env, se_now = 0, se_project_faults = no_faults, se_egress_faults = no_egress_faults,
     se_uuid = ''u1'', se_net = (\<lambda>_. DialFails), se_marshal = lines_marshal, se_map_order = [], se_os = demo_os,
     se_ptyOk = True, se_setsizeOk = True, se_upgradeOk = True, se_upgradeError = id, se_roundTrip = (\<lambda>_ _. Some 200), se_timestr = (\<lambda>_. []), se_errText = []\<rparr>"

definition demo_server :: "unit server_state" where
  "demo_server = \<lparr>sv_auth = auth_NewStore [''password_hash'' \<mapsto> ''correct horse''] [''01'' \<mapsto> 1],
     sv_limiter = newRateLimiter (5 * minute) 10, sv_rows = [], sv_agent = (),
     sv_pending = NewPendingRegistry one_wildcard, sv_local = NewLocalManager 16\<rparr>"

end
