(* ===== verification/Server_Auth.thy ===== *)
theory Server_Auth
  imports Server_Core
begin

text \<open>
  Signing in and out and the settings (\<^verbatim>\<open>internal/server/auth_handlers.go\<close>,
  \<^verbatim>\<open>internal/server/settings_handlers.go\<close>). Logging is left out.
\<close>

section \<open>Handlers: sessions\<close>

definition clientIP :: "http_request \<Rightarrow> string" where
  "clientIP r = (case SplitHostPort (rq_RemoteAddr r) of None \<Rightarrow> rq_RemoteAddr r | Some (host, _) \<Rightarrow> host)"

definition handleLogin :: "server_env \<Rightarrow> cookie_config \<Rightarrow> 'a server_state handler" where
  "handleLogin env cfg r ws =
     (case ws of (w, s) \<Rightarrow>
        let ae = se_auth env in
        case decode_struct r (string_field ''password'') of
          None \<Rightarrow> (http_Error w ''bad request'' 400, s)
        | Some password \<Rightarrow>
            if CheckPassword (ae_faults ae) (ae_bc_cmp ae) password (sv_auth s) \<noteq> Ok True
            then (http_Error w ''invalid password'' 401, s)
            else (case auth_CreateSession (ae_faults ae) (ae_sha ae) (ae_rnd ae) (se_now env) (sv_auth s) of
                    (Inl e, st) \<Rightarrow> (http_Error w ''internal error'' 500, put_auth st s)
                  | (Inr token, st) \<Rightarrow> (writeJSON (SetSessionCookie cfg token w) status_ok, put_auth st s)))"

definition expired_cookie :: "cookie_config \<Rightarrow> cookie" where
  "expired_cookie cfg =
     \<lparr>ck_Name = ''appx_session'', ck_Value = [], ck_Path = ''/'', ck_Domain = cc_Domain cfg, ck_HttpOnly = True,
      ck_SameSiteLax = False, ck_Secure = cc_Secure cfg, ck_MaxAge = - 1\<rparr>"

definition handleLogout :: "server_env \<Rightarrow> cookie_config \<Rightarrow> 'a server_state handler" where
  "handleLogout env cfg r ws =
     (case ws of (w, s) \<Rightarrow>
        let ae = se_auth env;
            s1 = (case request_Cookie r ''appx_session'' of
                    None \<Rightarrow> s
                  | Some token \<Rightarrow> put_auth (DeleteSession (ae_faults ae) (ae_sha ae) token (sv_auth s)) s)
        in (writeJSON (SetCookie w (expired_cookie cfg)) status_ok, s1))"

section \<open>Handlers: settings\<close>

text \<open>The text of an error of \<open>SetPassword\<close>; \<open>cause\<close> is the text of what bcrypt or the driver reported.\<close>

fun auth_error_text :: "string \<Rightarrow> auth_error \<Rightarrow> string" where
  "auth_error_text cause PasswordTooShort = ''password must be at least '' @ Itoa (int minPasswordLen) @ '' characters''"
| "auth_error_text cause HashPassword = ''hash password: '' @ cause"
| "auth_error_text cause _ = cause"

definition handleChangePassword :: "server_env \<Rightarrow> cookie_config \<Rightarrow> 'a server_state handler" where
  "handleChangePassword env cfg r ws =
     (case ws of (w, s) \<Rightarrow>
        let ae = se_auth env in
        case decode_struct r (\<lambda>fs. Option.bind (string_field ''currentPassword'' fs) (\<lambda>c.
               map_option (\<lambda>n. (c, n)) (string_field ''newPassword'' fs))) of
          None \<Rightarrow> (http_Error w ''invalid JSON'' 400, s)
        | Some (current, new) \<Rightarrow>
            if CheckPassword (ae_faults ae) (ae_bc_cmp ae) current (sv_auth s) \<noteq> Ok True
            then (http_Error w ''current password is incorrect'' 401, s)
            else (case SetPassword (ae_faults ae) (ae_bc_gen ae) new (sv_auth s) of
                    (Some e, st) \<Rightarrow> (http_Error w (auth_error_text (se_errText env) e) 400, put_auth st s)
                  | (None, st) \<Rightarrow>
                      let st1 = DeleteAllSessions (ae_faults ae) st in
                      (case auth_CreateSession (ae_faults ae) (ae_sha ae) (ae_rnd ae) (se_now env) st1 of
                         (Inl e, st2) \<Rightarrow> (http_Error w ''internal error'' 500, put_auth st2 s)
                       | (Inr token, st2) \<Rightarrow> (writeJSON (SetSessionCookie cfg token w) status_ok, put_auth st2 s))))"

definition terminal_buffer_size :: "auth_faults \<Rightarrow> auth_store \<Rightarrow> int" where
  "terminal_buffer_size fl st =
     (case GetSetting fl ''terminal_buffer_size'' st of
        Inl _ \<Rightarrow> 512
      | Inr val \<Rightarrow> if val = [] then 512 else (case Atoi val of Some n \<Rightarrow> n | None \<Rightarrow> 512))"

definition handleGetTerminalBufferSize :: "server_env \<Rightarrow> 'a server_state handler" where
  "handleGetTerminalBufferSize env r ws =
     (case ws of (w, s) \<Rightarrow>
        (writeJSON w (JObj [(''value'', JNum (terminal_buffer_size (ae_faults (se_auth env)) (sv_auth s)))]), s))"

definition handleGetConfig :: "string \<Rightarrow> 'a server_state handler" where
  "handleGetConfig baseDomain r ws =
     (case ws of (w, s) \<Rightarrow> (writeJSON w (JObj [(''baseDomain'', JStr baseDomain)]), s))"

definition handleSetTerminalBufferSize :: "server_env \<Rightarrow> 'a server_state handler" where
  "handleSetTerminalBufferSize env r ws =
     (case ws of (w, s) \<Rightarrow>
        case decode_struct r (int_field ''value'') of
          None \<Rightarrow> (http_Error w ''invalid JSON'' 400, s)
        | Some n \<Rightarrow>
            if n < 64 \<or> n > 4096 then (http_Error w ''value must be between 64 and 4096'' 400, s)
            else (case SetSetting (ae_faults (se_auth env)) ''terminal_buffer_size'' (Itoa n) (sv_auth s) of
                    (Some e, st) \<Rightarrow> (http_Error w ''internal error'' 500, put_auth st s)
                  | (None, st) \<Rightarrow> (writeJSON w status_ok, put_auth st s)))"

section \<open>Facts\<close>

lemma sent_cookies_writeJSON:
  "rs_Sent w = None \<Longrightarrow> sent_cookies (writeJSON w v) = rs_SetCookies w"
  by (simp add: writeJSON_def http_defs)

lemma rs_SetCookies_Session [simp]:
  "rs_SetCookies (SetSessionCookie cfg token w) = rs_SetCookies w @
     [\<lparr>ck_Name = ''appx_session'', ck_Value = token, ck_Path = ''/'', ck_Domain = cc_Domain cfg,
       ck_HttpOnly = True, ck_SameSiteLax = True, ck_Secure = cc_Secure cfg, ck_MaxAge = sessionDuration div second\<rparr>]"
  by (simp add: SetSessionCookie_def SetCookie_def)

lemma rs_Sent_SessionCookie [simp]: "rs_Sent (SetSessionCookie cfg token w) = rs_Sent w"
  by (simp add: SetSessionCookie_def)

lemma CreateSession_token:
  "auth_CreateSession fl sha rnd now st = (Inr token, st') \<Longrightarrow>
     as_sessions st' = (as_sessions st)(hashToken sha token \<mapsto> now + sessionDuration)
   \<and> as_settings st' = as_settings st"
  by (auto simp: auth_CreateSession_def Let_def split: option.splits if_splits)

lemma ValidSession_iff:
  "fst (ValidSession fl sha now now2 token st) \<longleftrightarrow>
     \<not> fl AsSelectSession \<and> (\<exists>e. as_sessions st (hashToken sha token) = Some e \<and> now < e)"
  by (auto simp: ValidSession_def Let_def split: option.splits)

lemma http_Error_not_200 [simp]: "rs_Sent w = None \<Longrightarrow> rs_status (http_Error w msg code) = 200 \<longleftrightarrow> code = 200"
  by simp

section \<open>Properties\<close>

text \<open>
  C19: Signing in and out. A sign-in answers 200 only for the right password; it then sets a cookie
  whose token is accepted by the middleware exactly until the session lifetime is over, and no
  longer once that cookie has been used to sign out. Any other answer leaves the sessions as they
  were.
\<close>

theorem login_logout_session:
  assumes "handleLogin env cfg r (w0, s) = (w, s')" "rs_Sent w0 = None" "rs_SetCookies w0 = []"
  shows "if rs_status w = 200
     then CheckPassword (ae_faults (se_auth env)) (ae_bc_cmp (se_auth env))
            (the (decode_struct r (string_field ''password''))) (sv_auth s) = Ok True
        \<and> (\<exists>token. map ck_Value (sent_cookies w) = [token] \<and> (\<forall>env2 r2.
             request_Cookie r2 ''appx_session'' = Some token
             \<and> ae_sha (se_auth env2) = ae_sha (se_auth env) \<and> ae_faults (se_auth env2) = (\<lambda>_. False) \<longrightarrow>
               (authenticated (se_auth env2) r2 (sv_auth s')
                  \<longleftrightarrow> ae_now (se_auth env2) < se_now env + sessionDuration)
               \<and> \<not> authenticated (se_auth env2) r2 (sv_auth (snd (handleLogout env2 cfg r2 (w1, s'))))))
     else as_sessions (sv_auth s') = as_sessions (sv_auth s)"
proof -
  let ?ae = "se_auth env"
  consider (bad) "decode_struct r (string_field ''password'') = None"
    | (wrong) p where "decode_struct r (string_field ''password'') = Some p"
        "CheckPassword (ae_faults ?ae) (ae_bc_cmp ?ae) p (sv_auth s) \<noteq> Ok True"
    | (right) p where "decode_struct r (string_field ''password'') = Some p"
        "CheckPassword (ae_faults ?ae) (ae_bc_cmp ?ae) p (sv_auth s) = Ok True" by blast
  then show ?thesis
  proof cases
    case bad
    then show ?thesis using assms by (auto simp: handleLogin_def)
  next
    case wrong
    then show ?thesis using assms by (auto simp: handleLogin_def Let_def)
  next
    case right
    obtain res st where cs: "auth_CreateSession (ae_faults ?ae) (ae_sha ?ae) (ae_rnd ?ae) (se_now env) (sv_auth s) = (res, st)"
      by fastforce
    show ?thesis
    proof (cases res)
      case (Inl e)
      then have "as_sessions st = as_sessions (sv_auth s)"
        using cs by (auto simp: auth_CreateSession_def Let_def split: option.splits if_splits)
      then show ?thesis using assms right cs Inl by (auto simp: handleLogin_def Let_def)
    next
      case (Inr token)
      then have w: "w = writeJSON (SetSessionCookie cfg token w0) status_ok" "s' = put_auth st s"
        using assms(1) right cs by (auto simp: handleLogin_def Let_def)
      have st: "as_sessions st = (as_sessions (sv_auth s))(hashToken (ae_sha ?ae) token \<mapsto> se_now env + sessionDuration)"
        using CreateSession_token cs Inr by blast
      have "map ck_Value (sent_cookies w) = [token]" "rs_status w = 200"
        using assms(2,3) by (simp_all add: w sent_cookies_writeJSON)
      then show ?thesis
        using right w(2) st
        by (auto simp: authenticated_def ValidSession_iff handleLogout_def Let_def DeleteSession_def intro!: exI [of _ token])
    qed
  qed
qed

definition login_request :: http_request where
  "login_request = base_request\<lparr>rq_Method := ''POST'', rq_Path := ''/api/login'',
     rq_Json := Some (JObj [(''password'', JStr ''correct horse'')])\<rparr>"

theorem login_logout_session_witness:
  "rs_status (fst (handleLogin demo_env auth_New login_request (new_response, demo_server))) = 200
   \<and> authenticated (se_auth demo_env)
       (base_request\<lparr>rq_Cookies := [(''appx_session'', ''0707'')]\<rparr>)
       (sv_auth (snd (handleLogin demo_env auth_New login_request (new_response, demo_server))))"
proof -
  let ?p = "handleLogin demo_env auth_New login_request (new_response, demo_server)"
  let ?r = "base_request\<lparr>rq_Cookies := [(''appx_session'', ''0707'')]\<rparr>"
  have st: "rs_status (fst ?p) = 200" "map ck_Value (sent_cookies (fst ?p)) = [''0707'']"
    "request_Cookie ?r ''appx_session'' = Some ''0707''"
    "ae_now (se_auth demo_env) < se_now demo_env + sessionDuration" by code_simp+
  have fl: "ae_faults (se_auth demo_env) = (\<lambda>_. False)" by (simp add: demo_env_def demo_auth_env_def ok_faults_def)
  have "handleLogin demo_env auth_New login_request (new_response, demo_server) = (fst ?p, snd ?p)"
    "rs_Sent new_response = None" "rs_SetCookies new_response = []" by (simp_all add: new_response_def)
  from login_logout_session [OF this] st fl show ?thesis by auto
qed

text \<open>A password change that answers neither 400 nor 401 nor 500 has gone through both stores.\<close>

lemma change_password_stages:
  assumes "handleChangePassword env cfg r (w0, s) = (w, s')" "rs_Sent w0 = None"
  obtains (refused) "s' = s" "rs_status w \<noteq> 200"
    | (changed) current new st
      where "CheckPassword (ae_faults (se_auth env)) (ae_bc_cmp (se_auth env)) current (sv_auth s) = Ok True"
        "SetPassword (ae_faults (se_auth env)) (ae_bc_gen (se_auth env)) new (sv_auth s) = (None, st)"
        "(w, s') =
           (case auth_CreateSession (ae_faults (se_auth env)) (ae_sha (se_auth env)) (ae_rnd (se_auth env))
                   (se_now env) (DeleteAllSessions (ae_faults (se_auth env)) st) of
              (Inl e, st') \<Rightarrow> (http_Error w0 ''internal error'' 500, put_auth st' s)
            | (Inr token, st') \<Rightarrow> (writeJSON (SetSessionCookie cfg token w0) status_ok, put_auth st' s))"
proof -
  let ?ae = "se_auth env"
  let ?dec = "decode_struct r (\<lambda>fs. Option.bind (string_field ''currentPassword'' fs) (\<lambda>c.
               map_option (\<lambda>n. (c, n)) (string_field ''newPassword'' fs)))"
  show thesis
  proof (cases ?dec)
    case None
    then show thesis using assms by (intro refused) (auto simp: handleChangePassword_def)
  next
    case (Some cn)
    obtain c new where cn: "cn = (c, new)" by fastforce
    show thesis
    proof (cases "CheckPassword (ae_faults ?ae) (ae_bc_cmp ?ae) c (sv_auth s) = Ok True")
      case False
      then show thesis using assms Some cn by (intro refused) (auto simp: handleChangePassword_def Let_def)
    next
      case ok: True
      obtain e st where sp: "SetPassword (ae_faults ?ae) (ae_bc_gen ?ae) new (sv_auth s) = (e, st)" by fastforce
      note run = assms(1) [unfolded handleChangePassword_def, simplified Let_def, simplified, unfolded Some cn]
      show thesis
      proof (cases e)
        case None
        then show thesis using changed [OF ok sp [unfolded None]] run ok sp by simp
      next
        case (Some err)
        then have "put_auth st s = s"
          using sp by (intro sv_auth_lens.put_get_eq) (auto simp: SetPassword_def split: option.splits if_splits)
        then show thesis using run ok sp Some assms(2) by (intro refused) auto
      qed
    qed
  qed
qed

text \<open>
  C20: Changing the password. When the answer is 200 the old password was right, the stored hash is
  the one of the new password, and the session in the reply's cookie is the only one left - unless
  the statement that deletes the sessions failed: its result is ignored, and then every old session
  stays valid. A request that is refused with 400 or 401 changes nothing.
\<close>

theorem change_password_revokes:
  assumes "handleChangePassword env cfg r (w0, s) = (w, s')" "rs_Sent w0 = None" "rs_SetCookies w0 = []"
  shows "(rs_status w = 200 \<longrightarrow> (\<exists>current new hash token.
            CheckPassword (ae_faults (se_auth env)) (ae_bc_cmp (se_auth env)) current (sv_auth s) = Ok True
          \<and> length new \<ge> 12 \<and> ae_bc_gen (se_auth env) new (as_bcryptCost (sv_auth s)) = Some hash
          \<and> as_settings (sv_auth s') = (as_settings (sv_auth s))(''password_hash'' \<mapsto> hash)
          \<and> map ck_Value (sent_cookies w) = [token]
          \<and> as_sessions (sv_auth s') =
              (if ae_faults (se_auth env) AsDeleteAll then as_sessions (sv_auth s) else Map.empty)
                (hashToken (ae_sha (se_auth env)) token \<mapsto> se_now env + sessionDuration)))
       \<and> (rs_status w \<in> {400, 401} \<longrightarrow> s' = s)"
  using assms(1,2)
proof (cases rule: change_password_stages)
  case refused
  then show ?thesis by simp
next
  case (changed current new st)
  let ?ae = "se_auth env"
  obtain hash where hash: "length new \<ge> 12" "ae_bc_gen ?ae new (as_bcryptCost (sv_auth s)) = Some hash"
      "st = (sv_auth s)\<lparr>as_settings := (as_settings (sv_auth s))(''password_hash'' \<mapsto> hash)\<rparr>"
    using changed(2) by (auto simp: SetPassword_def minPasswordLen_def split: option.splits if_splits)
  obtain res st2 where cs: "auth_CreateSession (ae_faults ?ae) (ae_sha ?ae) (ae_rnd ?ae) (se_now env)
      (DeleteAllSessions (ae_faults ?ae) st) = (res, st2)" by fastforce
  show ?thesis
  proof (cases res)
    case (Inl err)
    then show ?thesis using changed(3) cs assms(2) by auto
  next
    case (Inr token)
    then have w: "w = writeJSON (SetSessionCookie cfg token w0) status_ok" "s' = put_auth st2 s"
      using changed(3) cs by auto
    have st2: "as_sessions st2 = (as_sessions (DeleteAllSessions (ae_faults ?ae) st))
          (hashToken (ae_sha ?ae) token \<mapsto> se_now env + sessionDuration)"
        "as_settings st2 = as_settings (DeleteAllSessions (ae_faults ?ae) st)"
      using CreateSession_token cs Inr by blast+
    have "map ck_Value (sent_cookies w) = [token]" "rs_status w = 200"
      using assms(2,3) by (simp_all add: w sent_cookies_writeJSON)
    then show ?thesis using changed(1) hash st2 w(2) by (auto simp: DeleteAllSessions_def)
  qed
qed

definition change_request :: http_request where
  "change_request = base_request\<lparr>rq_Method := ''PUT'', rq_Path := ''/api/settings/password'',
     rq_Json := Some (JObj [(''currentPassword'', JStr ''correct horse''), (''newPassword'', JStr ''battery staple'')])\<rparr>"

theorem change_password_revokes_witness:
  "\<exists>token. as_sessions (sv_auth (snd (handleChangePassword demo_env auth_New change_request (new_response, demo_server))))
     = [hashToken char_bytes token \<mapsto> se_now demo_env + sessionDuration]"
proof -
  let ?p = "handleChangePassword demo_env auth_New change_request (new_response, demo_server)"
  have st: "rs_status (fst ?p) = 200" by code_simp
  have fl: "ae_faults (se_auth demo_env) = (\<lambda>_. False)" "ae_sha (se_auth demo_env) = char_bytes"
    by (simp_all add: demo_env_def demo_auth_env_def ok_faults_def)
  have "?p = (fst ?p, snd ?p)" "rs_Sent new_response = None" "rs_SetCookies new_response = []"
    by (simp_all add: new_response_def)
  from change_password_revokes [OF this] st fl show ?thesis by auto
qed

text \<open>
  The terminal buffer size. A PUT is accepted exactly for values from 64 to 4096; the GET then
  reports the value stored; a refused PUT leaves the setting alone.
\<close>

theorem terminal_buffer_roundtrip:
  assumes "handleSetTerminalBufferSize env r (w0, s) = (w, s')" "rs_Sent w0 = None"
    "ae_faults (se_auth env) = (\<lambda>_. False)"
  shows "case decode_struct r (int_field ''value'') of
      None \<Rightarrow> rs_status w = 400 \<and> s' = s
    | Some n \<Rightarrow> if 64 \<le> n \<and> n \<le> 4096
        then rs_status w = 200
          \<and> rs_Body (fst (handleGetTerminalBufferSize env r2 (w2, s'))) = JsonBody (JObj [(''value'', JNum n)])
        else rs_status w = 400 \<and> s' = s"
proof (cases "decode_struct r (int_field ''value'')")
  case None
  then show ?thesis using assms by (auto simp: handleSetTerminalBufferSize_def)
next
  case (Some n)
  have "Atoi (Itoa n) = Some n" if "64 \<le> n" "n \<le> 4096"
    using that by (intro Atoi_Itoa) (simp add: int64_range_def)
  then show ?thesis using assms Some
    by (auto simp: handleSetTerminalBufferSize_def handleGetTerminalBufferSize_def terminal_buffer_size_def
        SetSetting_def GetSetting_def writeJSON_def http_defs)
qed

definition buffer_request :: http_request where
  "buffer_request = base_request\<lparr>rq_Method := ''PUT'', rq_Json := Some (JObj [(''value'', JNum 1024)])\<rparr>"

theorem terminal_buffer_roundtrip_witness:
  "rs_Body (fst (handleGetTerminalBufferSize demo_env base_request (new_response,
      snd (handleSetTerminalBufferSize demo_env buffer_request (new_response, demo_server)))))
   = JsonBody (JObj [(''value'', JNum 1024)])"
proof -
  let ?p = "handleSetTerminalBufferSize demo_env buffer_request (new_response, demo_server)"
  have d: "decode_struct buffer_request (int_field ''value'') = Some 1024" by code_simp
  have "?p = (fst ?p, snd ?p)" "rs_Sent new_response = None" "ae_faults (se_auth demo_env) = (\<lambda>_. False)"
    by (simp_all add: new_response_def demo_env_def demo_auth_env_def ok_faults_def)
  from terminal_buffer_roundtrip [OF this] d show ?thesis by simp
qed

end
