(* ===== verification/Server_Projects.thy ===== *)
theory Server_Projects
  imports Server_Core
begin

text \<open>
  The project API (\<^verbatim>\<open>internal/server/project_handlers.go\<close>): the replies, the JSON of a project, and
  the health and directory filled in at query time.
\<close>

section \<open>JSON\<close>

fun status_text :: "project_status \<Rightarrow> string" where
  "status_text StatusStopped = ''stopped''"
| "status_text StatusStarting = ''starting''"
| "status_text StatusRunning = ''running''"
| "status_text StatusStopping = ''stopping''"
| "status_text StatusError = ''error''"

definition project_json :: "(instant \<Rightarrow> string) \<Rightarrow> project \<Rightarrow> json" where
  "project_json tm p =
     JObj ([(''id'', JStr (p_ID p)), (''name'', JStr (p_Name p)), (''status'', JStr (status_text (p_Status p))),
            (''assignedPort'', JNum (p_AssignedPort p)), (''devPort'', JNum (p_DevPort p))]
       @ (if p_LastError p = [] then [] else [(''lastError'', JStr (p_LastError p))])
       @ [(''createdAt'', JStr (tm (p_CreatedAt p))), (''appRunning'', JBool (p_AppRunning p)),
          (''devRunning'', JBool (p_DevRunning p))]
       @ (if p_ProjectDir p = [] then [] else [(''projectDir'', JStr (p_ProjectDir p))]))"

fun project_error_text :: "project_error \<Rightarrow> string" where
  "project_error_text ErrInvalidName = ''invalid project name: must match [a-z][a-z0-9-]{0,61}''"
| "project_error_text ErrDuplicateName = ''project name already exists''"
| "project_error_text ErrNotFound = ''project not found''"
| "project_error_text ErrInvalidState = ''invalid state transition''"
| "project_error_text ErrReservedNameSuffix =
     ''invalid project name: the '' @ [CHR 0x22] @ ''-dev'' @ [CHR 0x22] @ '' suffix is reserved''"
| "project_error_text ErrNoPortAvailable = ''no port pair available in range 10000-10199''"
| "project_error_text (ErrDB e) = e"
| "project_error_text (ErrAgent a e) = a @ '': '' @ e"

section \<open>Projects\<close>

definition with_health :: "manager \<Rightarrow> (string \<rightharpoonup> health) \<Rightarrow> project \<Rightarrow> project" where
  "with_health m health p =
     p\<lparr>p_AppRunning := h_App (entry health (p_ID p)), p_DevRunning := h_Dev (entry health (p_ID p)),
       p_ProjectDir := ProjectDir m (p_Name p)\<rparr>"

definition handleListProjects :: "server_env \<Rightarrow> 'a server_config \<Rightarrow> 'a server_state handler" where
  "handleListProjects env cfg r ws =
     (case ws of (w, s) \<Rightarrow>
        case store_List (se_project_faults env) (sv_rows s) of
          Inl e \<Rightarrow> (http_Error w ''internal error'' 500, s)
        | Inr projects \<Rightarrow>
            let health = health_Check (se_net env) projects in
            (writeJSON w (JArr (map (\<lambda>p. project_json (se_timestr env) (with_health (cf_Manager cfg) health p)) projects)), s))"

definition handleCreateProject :: "server_env \<Rightarrow> 'a server_config \<Rightarrow> 'a server_state handler" where
  "handleCreateProject env cfg r ws =
     (case ws of (w, s) \<Rightarrow>
        case decode_struct r (string_field ''name'') of
          None \<Rightarrow> (http_Error w ''invalid JSON'' 400, s)
        | Some name \<Rightarrow>
            (case mgr_Create (cf_Agent cfg) (cf_Manager cfg) (se_project_faults env) (se_uuid env) (se_now env) name
                    (sv_rows s, sv_agent s) of
               (res, rows', a') \<Rightarrow>
                 let s' = s\<lparr>sv_rows := rows', sv_agent := a'\<rparr> in
                 (case res of
                    Inl e \<Rightarrow>
                      (if e = ErrInvalidName then http_Error w (project_error_text e) 400
                       else if e = ErrDuplicateName then http_Error w (project_error_text e) 409
                       else if e = ErrNoPortAvailable then http_Error w (project_error_text e) 507
                       else http_Error w ''internal error'' 500, s')
                  | Inr proj \<Rightarrow> (writeJSON (WriteHeader w 201) (project_json (se_timestr env) proj), s'))))"

definition handleGetProject :: "server_env \<Rightarrow> 'a server_config \<Rightarrow> 'a server_state handler" where
  "handleGetProject env cfg r ws =
     (case ws of (w, s) \<Rightarrow>
        case store_Get (se_project_faults env) (PathValue r ''id'') (sv_rows s) of
          Inl e \<Rightarrow> (if e = ErrNotFound then http_Error w ''project not found'' 404
                    else http_Error w ''internal error'' 500, s)
        | Inr proj \<Rightarrow>
            let health = health_Check (se_net env) [proj] in
            (writeJSON w (project_json (se_timestr env) (with_health (cf_Manager cfg) health proj)), s))"

definition handleDeleteProject :: "server_env \<Rightarrow> 'a server_config \<Rightarrow> 'a server_state handler" where
  "handleDeleteProject env cfg r ws =
     (case ws of (w, s) \<Rightarrow>
        case mgr_Delete (cf_Agent cfg) (se_project_faults env) (PathValue r ''id'') (sv_rows s, sv_agent s) of
          (err, rows', a') \<Rightarrow>
            let s' = s\<lparr>sv_rows := rows', sv_agent := a'\<rparr> in
            (case err of
               Some e \<Rightarrow> (if e = ErrNotFound then http_Error w ''not found'' 404
                          else http_Error w ''internal error'' 500, s')
             | None \<Rightarrow> (WriteHeader w 204, s')))"

section \<open>Facts\<close>

lemma store_Create_faultless:
  "store_Create no_faults uuid now name rows =
     (case ValidateName name of
        Some e \<Rightarrow> (Err e, rows)
      | None \<Rightarrow>
          (case port_pair_loop (usedPortsTx rows) [] PortRangeStart of
             None \<Rightarrow> (Err ErrNoPortAvailable, rows)
           | Some (p, q) \<Rightarrow>
               if name \<in> r_name ` set rows \<or> uuid \<in> r_id ` set rows then (Err ErrDuplicateName, rows)
               else (store_Get no_faults uuid (rows @ [new_row uuid name p q now]), rows @ [new_row uuid name p q now])))"
proof (cases "ValidateName name")
  case None
  show ?thesis
  proof (cases "port_pair_loop (usedPortsTx rows) [] PortRangeStart")
    case (Some pq)
    obtain p q where pq: "pq = (p, q)" by fastforce
    have "insert_conflict rows (new_row uuid name p q now) \<longleftrightarrow> name \<in> r_name ` set rows \<or> uuid \<in> r_id ` set rows"
    proof (cases "name \<in> r_name ` set rows \<or> uuid \<in> r_id ` set rows")
      case True
      then show ?thesis by (auto simp: insert_conflict_def list_ex_iff new_row_def)
    next
      case False
      then show ?thesis
        using insert_conflict_new [OF port_pair_loop_Some(4,5) [OF Some [unfolded pq]]] by simp
    qed
    then show ?thesis using None Some pq
      by (simp add: store_Create_def nextAvailablePortPairTx_def no_faults_def Let_def)
  qed (simp add: None store_Create_def nextAvailablePortPairTx_def no_faults_def)
qed (simp add: store_Create_def)

section \<open>Properties\<close>

lemma Get_new_row:
  assumes "uuid \<notin> r_id ` set rows"
  shows "store_Get no_faults uuid (rows @ [new_row uuid name p q now]) = Ok (scanInto (new_row uuid name p q now))"
proof -
  have "List.find (\<lambda>x. r_id x = uuid) rows = None" using assms unfolding find_None_iff by (metis imageI)
  moreover have "r_id (new_row uuid name p q now) = uuid" by (simp add: new_row_def)
  ultimately show ?thesis by (simp add: store_Get_def no_faults_def find_append)
qed


definition demo_config :: "unit server_config" where
  "demo_config = \<lparr>cf_Cookie = auth_New, cf_Manager = \<lparr>pm_ProjectRoot = [], pm_BaseDomain = ''appx.test'',
     pm_HTTPMode = False, pm_ExternalPort = 443\<rparr>, cf_Agent = None, cf_HTTPMode = False, cf_BaseDomain = ''appx.test'',
     cf_HostAliases = [], cf_AgentServerURL = [], cf_AgentServerToken = [], cf_ProjectShell = None,
     cf_HasPending = True, cf_webFS = (\<lambda>_. False)\<rparr>"

definition post_project_request :: http_request where
  "post_project_request = base_request\<lparr>rq_Method := ''POST'', rq_Json := Some (JObj [(''name'', JStr ''blog'')])\<rparr>"


end
