(* ===== verification/Server_Egress.thy ===== *)
theory Server_Egress
  imports Server_Core
begin

text \<open>
  The egress API (\<^verbatim>\<open>internal/server/egress_handlers.go\<close>): the log, the allowlist with the validation of
  its entries, and the pending requests.
\<close>

section \<open>JSON\<close>

definition log_entry_json :: "(instant \<Rightarrow> string) \<Rightarrow> log_entry \<Rightarrow> json" where
  "log_entry_json tm e =
     JObj [(''id'', JNum (le_ID e)), (''destination'', JStr (le_Destination e)), (''port'', JNum (le_Port e)),
           (''allowed'', JBool (le_Allowed e)), (''timestamp'', JStr (tm (le_Timestamp e)))]"

definition pending_json :: "(instant \<Rightarrow> string) \<Rightarrow> pending_request \<Rightarrow> json" where
  "pending_json tm q =
     JObj [(''id'', JStr (pr_ID q)), (''host'', JStr (pr_Host q)), (''port'', JNum (pr_Port q)),
           (''reason'', JStr (pr_Reason q)), (''createdAt'', JStr (tm (pr_CreatedAt q)))]"

section \<open>The log\<close>

definition page_limit :: "string \<Rightarrow> int" where
  "page_limit v =
     (if v = [] then 50 else (case Atoi v of Some n \<Rightarrow> if n > 0 \<and> n \<le> 200 then n else 50 | None \<Rightarrow> 50))"

definition page_offset :: "string \<Rightarrow> int" where
  "page_offset v = (if v = [] then 0 else (case Atoi v of Some n \<Rightarrow> if n \<ge> 0 then n else 0 | None \<Rightarrow> 0))"

definition handleGetEgressLog :: "server_env \<Rightarrow> 'a server_state handler" where
  "handleGetEgressLog env r ws =
     (case ws of (w, s) \<Rightarrow>
        case ListLog (se_egress_faults env) (page_limit (query_Get r ''limit'')) (page_offset (query_Get r ''offset''))
               (egress_of s) of
          None \<Rightarrow> (http_Error w ''internal error'' 500, s)
        | Some (entries, n) \<Rightarrow>
            (writeJSON w (JObj [(''entries'', JArr (map (log_entry_json (se_timestr env)) entries)),
                                (''total'', JNum n)]), s))"

section \<open>The allowlist\<close>

definition handleGetAllowlist :: "'a server_state handler" where
  "handleGetAllowlist r ws =
     (case ws of (w, s) \<Rightarrow>
        (writeJSON w (JObj [(''entries'', JArr (map JStr (GetAllowlist (egress_of s))))]), s))"

definition internal_ip :: "ip \<Rightarrow> bool" where
  "internal_ip a = (IsLoopback a \<or> IsPrivate a \<or> IsLinkLocalUnicast a)"

text \<open>The checks on one entry: the message of the first one that fails.\<close>

definition allow_entry_error :: "string \<Rightarrow> string option" where
  "allow_entry_error e =
     (case SplitHostPort e of
        None \<Rightarrow> Some (''invalid entry (must be host:port): '' @ e)
      | Some (host, portStr) \<Rightarrow>
          if host = [] then Some (''invalid entry (must be host:port): '' @ e)
          else if Atoi portStr = None then Some (''invalid port in entry: '' @ e)
          else if host = ''localhost'' \<or> HasSuffix host ''.localhost''
            then Some (''loopback addresses may not be added to the allowlist: '' @ e)
          else (case ParseIP host of
                  None \<Rightarrow> None
                | Some a \<Rightarrow> if internal_ip a
                    then Some (''internal addresses may not be added to the allowlist: '' @ e) else None))"

fun first_entry_error :: "string list \<Rightarrow> string option" where
  "first_entry_error [] = None"
| "first_entry_error (e # es) = (case allow_entry_error e of Some m \<Rightarrow> Some m | None \<Rightarrow> first_entry_error es)"

definition handleSetAllowlist :: "server_env \<Rightarrow> 'a server_state handler" where
  "handleSetAllowlist env r ws =
     (case ws of (w, s) \<Rightarrow>
        case decode_struct r (strings_field ''entries'') of
          None \<Rightarrow> (http_Error w ''invalid JSON'' 400, s)
        | Some entries \<Rightarrow>
            if entries = [] then (http_Error w ''allowlist must not be empty'' 400, s)
            else (case first_entry_error entries of
                    Some m \<Rightarrow> (http_Error w m 400, s)
                  | None \<Rightarrow>
                      (case SetAllowlist (se_egress_faults env) (se_marshal env) entries (egress_of s) of
                         (ok, es) \<Rightarrow>
                           (if ok then writeJSON w status_ok else http_Error w ''internal error'' 500, put_egress es s))))"

section \<open>Pending requests\<close>

definition put_pending :: "pending_state \<Rightarrow> 'a server_state \<Rightarrow> 'a server_state" where
  "put_pending pd s = s\<lparr>sv_pending := pd\<rparr>"

definition handleGetEgressPending :: "server_env \<Rightarrow> 'a server_state handler" where
  "handleGetEgressPending env r ws =
     (case ws of (w, s) \<Rightarrow>
        case pend_List (se_now env) (se_map_order env) (sv_pending s) of
          None \<Rightarrow> (aborted w, s)
        | Some (reqs, pd) \<Rightarrow>
            (writeJSON w (JObj [(''requests'', JArr (map (pending_json (se_timestr env)) reqs))]), put_pending pd s))"

definition resolve_reply :: "server_env \<Rightarrow> bool \<Rightarrow> 'a server_state handler" where
  "resolve_reply env approved r ws =
     (case ws of (w, s) \<Rightarrow>
        let rid = PathValue r ''id'' in
        case pend_Resolve (se_egress_faults env) (se_marshal env) rid approved (sv_pending s) of
          None \<Rightarrow> (aborted w, s)
        | Some (ok, pd) \<Rightarrow>
            (if ok then writeJSON w status_ok
             else http_Error w (''pending request '' @ rid @ '' not found'') 404, put_pending pd s))"

definition handleApproveEgressRequest :: "server_env \<Rightarrow> 'a server_state handler" where
  "handleApproveEgressRequest env = resolve_reply env True"

definition handleDenyEgressRequest :: "server_env \<Rightarrow> 'a server_state handler" where
  "handleDenyEgressRequest env = resolve_reply env False"

section \<open>Facts\<close>

text \<open>The declarative reading of the checks.\<close>

definition acceptable_entry :: "string \<Rightarrow> bool" where
  "acceptable_entry e \<longleftrightarrow> (\<exists>host p. SplitHostPort e = Some (host, p) \<and> host \<noteq> [] \<and> Atoi p \<noteq> None
     \<and> host \<noteq> ''localhost'' \<and> \<not> HasSuffix host ''.localhost'' \<and> (\<forall>a. ParseIP host = Some a \<longrightarrow> \<not> internal_ip a))"

lemma allow_entry_error_None: "allow_entry_error e = None \<longleftrightarrow> acceptable_entry e"
  unfolding allow_entry_error_def acceptable_entry_def
  by (cases "SplitHostPort e") (auto split: if_split_asm option.split_asm option.split)

lemma first_entry_error_None: "first_entry_error es = None \<longleftrightarrow> (\<forall>e \<in> set es. acceptable_entry e)"
  by (induction es) (auto simp flip: allow_entry_error_None split: option.splits)

lemma SplitHostPort_entry_key:
  assumes "SplitHostPort (entry_key host port) = Some (h, p)" "CHR ''['' \<notin> set host"
  shows "h = host" "p = Itoa port"
proof -
  have last: "LastIndexByte (entry_key host port) (CHR '':'') = Some (length host)"
    unfolding entry_key_def using LastIndexByte_append [of "CHR '':''" "Itoa port" host] Itoa_no_sep by simp
  have "entry_key host port ! 0 \<noteq> CHR ''[''"
    using assms(2) by (cases host) (auto simp: entry_key_def)
  then show "h = host" "p = Itoa port"
    using assms(1) unfolding SplitHostPort_def last by (auto simp: entry_key_def split: if_splits)
qed

section \<open>Properties\<close>

lemma acceptable_hosts:
  assumes "\<forall>e \<in> set (eg_allowlist es). acceptable_entry e \<and> CHR ''*'' \<notin> set e" "CHR ''['' \<notin> set host" "IsAllowed host port es"
  shows "host \<noteq> ''localhost'' \<and> (\<forall>a. ParseIP host = Some a \<longrightarrow> \<not> internal_ip a)"
proof -
  have "entry_key host port \<in> set (eg_allowlist es)" using assms(1,3) by (auto simp: IsAllowed_def Let_def list_ex_iff)
  then have "acceptable_entry (entry_key host port)" using assms(1) by blast
  then obtain h p where hp: "SplitHostPort (entry_key host port) = Some (h, p)" "h \<noteq> ''localhost''"
    "\<forall>a. ParseIP h = Some a \<longrightarrow> \<not> internal_ip a" unfolding acceptable_entry_def by blast
  then show ?thesis using SplitHostPort_entry_key(1) [OF hp(1) assms(2)] by simp
qed

text \<open>
  C21: Setting the allowlist. The request is accepted exactly when the list is not empty and every
  entry is a host and a port whose host is not localhost, not below .localhost and not a loopback,
  private or link-local address; the allowlist then consists of these entries, and a refused
  request changes nothing. Without wildcards no host passes afterwards that is such an address.
\<close>

theorem set_allowlist_guard:
  assumes "handleSetAllowlist env r (w0, s) = (w, s')" "rs_Sent w0 = None"
    "se_egress_faults env = no_egress_faults"
  shows "case decode_struct r (strings_field ''entries'') of
      None \<Rightarrow> rs_status w = 400 \<and> s' = s
    | Some entries \<Rightarrow>
        if entries \<noteq> [] \<and> (\<forall>e \<in> set entries. acceptable_entry e)
        then rs_status w = 200 \<and> set (GetAllowlist (egress_of s')) = set entries
          \<and> ((\<forall>e \<in> set entries. CHR ''*'' \<notin> set e) \<longrightarrow>
               (\<forall>host port. CHR ''['' \<notin> set host \<and> IsAllowed host port (egress_of s') \<longrightarrow>
                  host \<noteq> ''localhost'' \<and> (\<forall>a. ParseIP host = Some a \<longrightarrow> \<not> internal_ip a)))
        else rs_status w = 400 \<and> s' = s"
proof (cases "decode_struct r (strings_field ''entries'')")
  case None
  then show ?thesis using assms by (auto simp: handleSetAllowlist_def)
next
  case (Some entries)
  show ?thesis
  proof (cases "entries \<noteq> [] \<and> (\<forall>e \<in> set entries. acceptable_entry e)")
    case False
    then consider "entries = []" | m where "entries \<noteq> []" "first_entry_error entries = Some m"
      using first_entry_error_None [of entries] by (cases "first_entry_error entries") auto
    then have "rs_status w = 400 \<and> s' = s"
    proof cases
      case 1
      then show ?thesis using Some assms(1,2) by (auto simp: handleSetAllowlist_def)
    next
      case 2
      then show ?thesis using Some assms(1,2) by (auto simp: handleSetAllowlist_def)
    qed
    then show ?thesis unfolding Some option.case if_not_P [OF False] .
  next
    case True
    then have ok: "first_entry_error entries = None" using first_entry_error_None by blast
    let ?es = "snd (SetAllowlist no_egress_faults (se_marshal env) entries (egress_of s))"
    have w: "w = writeJSON w0 status_ok" "s' = put_egress ?es s"
      using Some True ok assms(1,3)
      by (auto simp: handleSetAllowlist_def SetAllowlist_def no_egress_faults_def)
    have al: "set (GetAllowlist (egress_of s')) = set entries"
      unfolding w(2) sv_egress_lens.get_put
      by (simp add: SetAllowlist_def no_egress_faults_def GetAllowlist_def load_entries_def)
    have "host \<noteq> ''localhost'' \<and> (\<forall>a. ParseIP host = Some a \<longrightarrow> \<not> internal_ip a)"
      if "\<forall>e \<in> set entries. CHR ''*'' \<notin> set e" "CHR ''['' \<notin> set host" "IsAllowed host port (egress_of s')" for host port
      using acceptable_hosts [OF _ that(2,3)] that(1) True al by (simp add: GetAllowlist_def)
    moreover have "rs_status w = 200" using assms(2) w(1) by simp
    ultimately show ?thesis unfolding Some option.case if_P [OF True] using al by blast
  qed
qed

definition allowlist_request :: "string list \<Rightarrow> http_request" where
  "allowlist_request es = base_request\<lparr>rq_Method := ''PUT'', rq_Json := Some (JObj [(''entries'', JArr (map JStr es))])\<rparr>"

theorem set_allowlist_guard_witness:
  "set (GetAllowlist (egress_of (snd (handleSetAllowlist demo_env (allowlist_request [''x.org:443''])
     (new_response, demo_server))))) = {''x.org:443''}"
proof -
  let ?p = "handleSetAllowlist demo_env (allowlist_request [''x.org:443'']) (new_response, demo_server)"
  have d: "decode_struct (allowlist_request [''x.org:443'']) (strings_field ''entries'') = Some [''x.org:443'']"
    by code_simp
  have "allow_entry_error ''x.org:443'' = None" by code_simp
  then have ok: "acceptable_entry ''x.org:443''" by (simp add: allow_entry_error_None)
  have "?p = (fst ?p, snd ?p)" "rs_Sent new_response = None" "se_egress_faults demo_env = no_egress_faults"
    by (simp_all add: new_response_def demo_env_def)
  from set_allowlist_guard [OF this] d ok show ?thesis by simp
qed

text \<open>
  The guard looks at addresses written out; a pattern of wildcard labels passes it and admits
  internal addresses.
\<close>

lemma wildcard_admits_internal:
  "acceptable_entry ''*.*.*.*:80''"
  "IsAllowed ''10.0.0.1'' 80 (snd (SetAllowlist no_egress_faults lines_marshal [''*.*.*.*:80''] one_wildcard))"
proof -
  have "allow_entry_error ''*.*.*.*:80'' = None" by code_simp
  then show "acceptable_entry ''*.*.*.*:80''" by (simp add: allow_entry_error_None)
  show "IsAllowed ''10.0.0.1'' 80 (snd (SetAllowlist no_egress_faults lines_marshal [''*.*.*.*:80''] one_wildcard))"
    by code_simp
qed

text \<open>An accepted entry for an IPv6 address never matches: destinations are compared without brackets.\<close>

lemma ipv6_entry_never_matches:
  "acceptable_entry ''[2001:db8::1]:443''"
  "\<not> IsAllowed ''2001:db8::1'' 443
      (snd (SetAllowlist no_egress_faults lines_marshal [''[2001:db8::1]:443''] one_wildcard))"
proof -
  have "allow_entry_error ''[2001:db8::1]:443'' = None" by code_simp
  then show "acceptable_entry ''[2001:db8::1]:443''" by (simp add: allow_entry_error_None)
  show "\<not> IsAllowed ''2001:db8::1'' 443
      (snd (SetAllowlist no_egress_faults lines_marshal [''[2001:db8::1]:443''] one_wildcard))"
    by code_simp
qed

end
