(* ===== verification/Server_Shell.thy ===== *)
theory Server_Shell
  imports Server_Core Terminal_Container
begin

text \<open>
  The terminal routes (\<^verbatim>\<open>internal/server/shell_handlers.go\<close>): creating a shell on the host or in a
  project, resizing it, and the WebSocket connected to it. Logging and write deadlines are left
  out; what gorilla/websocket replies when an upgrade fails is an argument.
\<close>

section \<open>Creating and resizing\<close>

definition put_local :: "local_manager \<Rightarrow> 'a server_state \<Rightarrow> 'a server_state" where
  "put_local lm s = s\<lparr>sv_local := lm\<rparr>"

interpretation sv_local_lens: state_lens sv_local put_local
  by unfold_locales (simp_all add: put_local_def)

definition shell_created :: "http_response \<Rightarrow> string \<Rightarrow> http_response" where
  "shell_created w sid = writeJSON (WriteHeader w 201) (JObj [(''id'', JStr sid)])"

definition handleShellCreate :: "server_env \<Rightarrow> 'a server_state handler" where
  "handleShellCreate env r ws =
     (case ws of (w, s) \<Rightarrow>
        case local_Create (se_os env) (se_ptyOk env) (se_uuid env) (se_now env) [] (sv_local s) of
          (Inl e, lm) \<Rightarrow> (http_Error w ''failed to create shell'' 500, put_local lm s)
        | (Inr sid, lm) \<Rightarrow> (shell_created w sid, put_local lm s))"

text \<open>Which session a project terminal opens: in the container, or a shell in the host directory.\<close>

definition open_project_shell ::
  "server_env \<Rightarrow> 'a server_config \<Rightarrow> string \<Rightarrow> local_manager
     \<Rightarrow> (string, (local_error, string) result \<times> local_manager) result" where
  "open_project_shell env cfg name lm =
     (case cf_ProjectShell cfg of
        Some c \<Rightarrow>
          (case CommandFor c name of
             Inl e \<Rightarrow> Err ''project terminal unavailable''
           | Inr spec \<Rightarrow> Ok (CreateCommand (se_os env) (se_ptyOk env) (se_uuid env) (se_now env) spec lm))
      | None \<Rightarrow>
          let dir = ProjectDir (cf_Manager cfg) name in
          if dir = [] then Err ''project terminal unavailable: no container configured and no host project directory''
          else Ok (local_Create (se_os env) (se_ptyOk env) (se_uuid env) (se_now env) dir lm))"

definition handleProjectShellCreate :: "server_env \<Rightarrow> 'a server_config \<Rightarrow> 'a server_state handler" where
  "handleProjectShellCreate env cfg r ws =
     (case ws of (w, s) \<Rightarrow>
        case store_Get (se_project_faults env) (PathValue r ''id'') (sv_rows s) of
          Inl e \<Rightarrow> (if e = ErrNotFound then http_Error w ''project not found'' 404
                    else http_Error w ''internal error'' 500, s)
        | Inr proj \<Rightarrow>
            (case open_project_shell env cfg (p_Name proj) (sv_local s) of
               Inl msg \<Rightarrow> (http_Error w msg 501, s)
             | Inr (Inl e, lm) \<Rightarrow> (http_Error w ''failed to open project shell'' 502, put_local lm s)
             | Inr (Inr sid, lm) \<Rightarrow> (shell_created w sid, put_local lm s)))"

definition handleShellResize :: "server_env \<Rightarrow> 'a server_state handler" where
  "handleShellResize env r ws =
     (case ws of (w, s) \<Rightarrow>
        case decode_struct r (\<lambda>fs. Option.bind (uint16_field ''cols'' fs) (\<lambda>c.
               map_option (\<lambda>n. (c, n)) (uint16_field ''rows'' fs))) of
          None \<Rightarrow> (http_Error w ''bad request'' 400, s)
        | Some (cols, rows) \<Rightarrow>
            if cols = 0 \<or> rows = 0 then (http_Error w ''cols and rows must be > 0'' 400, s)
            else (case lm_Resize (se_setsizeOk env) (PathValue r ''id'') cols rows (sv_local s) of
                    Inl e \<Rightarrow> (http_Error w ''session not found'' 404, s)
                  | Inr _ \<Rightarrow> (WriteHeader w 204, s)))"

section \<open>Connecting\<close>

text \<open>
  \<open>handleShellConnect\<close> up to the point where the pumps start; the connection then lives on beside
  the server. The replay is written first and the subscription follows, each in a locked section
  of its own: \<open>lm1\<close> is the manager when the replay is read, \<open>lm2\<close> when the client subscribes.
\<close>

definition handleShellConnect :: "server_env \<Rightarrow> 'a server_state handler" where
  "handleShellConnect env r ws =
     (case ws of (w, s) \<Rightarrow>
        let sid = PathValue r ''id'' in
        if lm_GetSession sid (sv_local s) = None then (http_Error w ''session not found'' 404, s)
        else if \<not> se_upgradeOk env then (se_upgradeError env w, s)
        else (write_body (WriteHeader w 101) (WebSocket sid), s))"

definition shell_attach :: "string \<Rightarrow> local_manager \<Rightarrow> local_manager \<Rightarrow> byte list list \<times> nat option \<times> local_manager" where
  "shell_attach sid lm1 lm2 =
     (let replay = (case lm_ReplayBuffer sid lm1 of None \<Rightarrow> [] | Some b \<Rightarrow> b) in
      (if replay = [] then [] else [replay], lm_Subscribe sid lm2))"

text \<open>The input pump: text and binary frames go to the PTY until a read or a write fails.\<close>

datatype shell_frame = TextFrame "byte list" | BinaryFrame "byte list" | ControlFrame

fun frame_data :: "shell_frame \<Rightarrow> byte list option" where
  "frame_data (TextFrame data) = Some data"
| "frame_data (BinaryFrame data) = Some data"
| "frame_data ControlFrame = None"

fun shell_input :: "string \<Rightarrow> (bool \<times> local_manager \<times> shell_frame) list \<Rightarrow> byte list list" where
  "shell_input sid [] = []"
| "shell_input sid ((writeOk, lm, f) # fs) =
     (case frame_data f of
        None \<Rightarrow> shell_input sid fs
      | Some data \<Rightarrow> (case lm_Write writeOk sid data lm of Inl _ \<Rightarrow> [] | Inr d \<Rightarrow> d # shell_input sid fs))"

text \<open>
  One round of the output goroutine on channel \<open>c\<close>: a \<^verbatim>\<open>select\<close> over the channel and the session's
  end takes any branch that is ready. \<open>so_open\<close> is the connection.
\<close>

record shell_out =
  so_hub :: hub
  so_done :: bool
  so_sent :: "byte list list"
  so_open :: bool
  so_running :: bool

inductive shell_out_step :: "nat \<Rightarrow> shell_out \<Rightarrow> shell_out \<Rightarrow> bool" for c where
  chunk: "so_running s \<Longrightarrow> sc_queue (hb_chans (so_hub s) ! c) = d # q \<Longrightarrow>
    shell_out_step c s (s\<lparr>so_hub := hub_recv c (so_hub s), so_sent := so_sent s @ [d]\<rparr>)"
| write_error: "so_running s \<Longrightarrow> sc_queue (hb_chans (so_hub s) ! c) = d # q \<Longrightarrow>
    shell_out_step c s (s\<lparr>so_hub := hub_recv c (so_hub s), so_running := False\<rparr>)"
| chan_closed: "so_running s \<Longrightarrow> sc_queue (hb_chans (so_hub s) ! c) = [] \<Longrightarrow> sc_closed (hb_chans (so_hub s) ! c) \<Longrightarrow>
    shell_out_step c s (s\<lparr>so_open := False, so_running := False\<rparr>)"
| session_done: "so_running s \<Longrightarrow> so_done s \<Longrightarrow> shell_out_step c s (s\<lparr>so_open := False, so_running := False\<rparr>)"

definition shell_detach :: "string \<Rightarrow> nat \<Rightarrow> local_manager \<Rightarrow> local_manager" where
  "shell_detach sid c lm = lm_Unsubscribe sid c lm"

inductive_cases shell_out_stepE: "shell_out_step c s s'"

section \<open>Facts\<close>

lemma close_subs_queue:
  "close_subs cs h = Some h' \<Longrightarrow>
     length (hb_chans h') = length (hb_chans h) \<and> sc_queue (hb_chans h' ! c) = sc_queue (hb_chans h ! c)"
proof (induction cs h rule: close_subs.induct)
  case (2 d cs h)
  then obtain h1 where h1: "close_chan d h = Some h1" "close_subs cs h1 = Some h'" by (auto simp: bind_eq_Some_conv)
  then have "length (hb_chans h1) = length (hb_chans h) \<and> sc_queue (hb_chans h1 ! c) = sc_queue (hb_chans h ! c)"
    by (auto simp: close_chan_def nth_update_if split: if_splits)
  then show ?case using 2(1) [OF h1] by simp
qed simp

lemma hub_Close_queue:
  "hub_Close h = Some h' \<Longrightarrow>
     length (hb_chans h') = length (hb_chans h) \<and> sc_queue (hb_chans h' ! c) = sc_queue (hb_chans h ! c)"
  using close_subs_queue by (auto simp: hub_Close_def)

lemma hub_recv_queue:
  "c < length (hb_chans h) \<Longrightarrow> sc_queue (hb_chans h ! c) = d # q \<Longrightarrow>
     sc_queue (hb_chans (hub_recv c h) ! c) = q \<and> length (hb_chans (hub_recv c h)) = length (hb_chans h)"
  by (simp add: hub_recv_def)

text \<open>What has been sent and what is still queued add up, unless a write failed.\<close>

definition shell_out_ok :: "nat \<Rightarrow> byte list list \<Rightarrow> shell_out \<Rightarrow> bool" where
  "shell_out_ok c chunks s \<longleftrightarrow> c < length (hb_chans (so_hub s))
     \<and> (\<exists>lost. so_sent s @ lost @ sc_queue (hb_chans (so_hub s) ! c) = chunks \<and> (so_running s \<longrightarrow> lost = []))"

lemma shell_out_ok_step: "shell_out_step c s s' \<Longrightarrow> shell_out_ok c chunks s \<Longrightarrow> shell_out_ok c chunks s'"
  by (induction rule: shell_out_step.induct) (auto simp: shell_out_ok_def hub_recv_queue)

lemma shell_out_ok_run: "(shell_out_step c)\<^sup>*\<^sup>* s s' \<Longrightarrow> shell_out_ok c chunks s \<Longrightarrow> shell_out_ok c chunks s'"
  by (induction rule: rtranclp_induct) (auto intro: shell_out_ok_step)

lemma shell_out_drain:
  assumes "so_running s" "c < length (hb_chans (so_hub s))" "sc_queue (hb_chans (so_hub s) ! c) = chunks"
  shows "\<exists>s'. (shell_out_step c)\<^sup>*\<^sup>* s s' \<and> so_running s' \<and> so_sent s' = so_sent s @ chunks \<and> so_done s' = so_done s"
  using assms
proof (induction chunks arbitrary: s)
  case Nil
  then show ?case by auto
next
  case (Cons d q)
  let ?s = "s\<lparr>so_hub := hub_recv c (so_hub s), so_sent := so_sent s @ [d]\<rparr>"
  have "shell_out_step c s ?s" using Cons.prems by (intro shell_out_step.chunk) auto
  moreover obtain s' where "(shell_out_step c)\<^sup>*\<^sup>* ?s s'" "so_running s'" "so_sent s' = so_sent ?s @ q" "so_done s' = so_done ?s"
    using Cons.IH [of ?s] Cons.prems hub_recv_queue [OF Cons.prems(2,3)] by auto
  ultimately show ?case by (intro exI [of _ s']) (auto intro: converse_rtranclp_into_rtranclp)
qed

lemma CreateCommand_Err: "CreateCommand os ok uuid now spec m = (Inl e, m') \<Longrightarrow> m' = m"
  by (auto simp: CreateCommand_def Let_def split: if_splits)

lemma CreateCommand_Ok:
  "CreateCommand os ok uuid now spec m = (Inr sid, m') \<Longrightarrow>
     \<exists>ss. lm_GetSession uuid m' = Some ss \<and> cs_Args (ls_cmd ss) = cs_Args spec \<and> cs_Name (ls_cmd ss) = cs_Name spec
        \<and> cs_Dir (ls_cmd ss) = cs_Dir spec"
  by (auto simp: CreateCommand_def Let_def lm_GetSession_def split: if_splits)

lemma open_project_shell_cases:
  assumes "open_project_shell env cfg name lm = Inr res"
  obtains (container) c spec where "cf_ProjectShell cfg = Some c" "CommandFor c name = Ok spec" "cs_Name spec = cn_Bin c"
      "res = CreateCommand (se_os env) (se_ptyOk env) (se_uuid env) (se_now env) spec lm"
  | (host) spec where "cf_ProjectShell cfg = None" "cs_Dir spec = ProjectDir (cf_Manager cfg) name"
      "ProjectDir (cf_Manager cfg) name \<noteq> []" "cs_Args spec = [''-l'']"
      "res = CreateCommand (se_os env) (se_ptyOk env) (se_uuid env) (se_now env) spec lm"
proof (cases "cf_ProjectShell cfg")
  case None
  obtain sh home where sh: "loginShell (se_os env) = (sh, home)" by fastforce
  let ?dir = "ProjectDir (cf_Manager cfg) name"
  let ?spec = "\<lparr>cs_Name = sh, cs_Args = [''-l''], cs_Dir = ?dir,
    cs_Env = Some (os_Environ (se_os env) @ [''TERM=xterm-256color'', ''HOME='' @ home])\<rparr>"
  have dir: "?dir \<noteq> []" and res: "res = local_Create (se_os env) (se_ptyOk env) (se_uuid env) (se_now env) ?dir lm"
    using assms None unfolding open_project_shell_def Let_def by (cases "?dir = []"; simp)+
  have "res = CreateCommand (se_os env) (se_ptyOk env) (se_uuid env) (se_now env) ?spec lm"
    using sh dir unfolding res local_Create_def by simp
  then show ?thesis using None dir by (intro host [of ?spec]) simp_all
next
  case (Some c)
  then obtain spec where spec: "CommandFor c name = Ok spec"
      "res = CreateCommand (se_os env) (se_ptyOk env) (se_uuid env) (se_now env) spec lm"
    using assms by (auto simp: open_project_shell_def split: sum.splits)
  moreover from spec(1) have "cs_Name spec = cn_Bin c"
    by (auto simp: CommandFor_def Let_def split: if_splits option.splits)
  ultimately show ?thesis using Some container by blast
qed

section \<open>Properties\<close>

text \<open>
  The end of a shell. When the shell exits, its last chunks may still be queued for a connected
  client while the channel and the session's done channel are both closed. The output goroutine then
  may deliver all of them, and never anything else or out of order; but it may also take the done
  branch first and close the connection with the queued output undelivered.
\<close>

theorem shell_exit_race:
  assumes "hub_Close h = Some h1" "c < length (hb_chans h)" "sc_queue (hb_chans h ! c) = chunks"
    "s0 = \<lparr>so_hub = h1, so_done = True, so_sent = [], so_open = True, so_running = True\<rparr>"
  shows "(\<exists>s. (shell_out_step c)\<^sup>*\<^sup>* s0 s \<and> \<not> so_open s \<and> so_sent s = chunks)
       \<and> (\<exists>s. shell_out_step c s0 s \<and> \<not> so_open s \<and> \<not> so_running s \<and> so_sent s = [])
       \<and> (\<forall>s. (shell_out_step c)\<^sup>*\<^sup>* s0 s \<longrightarrow> prefix (so_sent s) chunks)"
proof (intro conjI allI impI)
  have q: "c < length (hb_chans (so_hub s0))" "sc_queue (hb_chans (so_hub s0) ! c) = chunks"
    using hub_Close_queue [OF assms(1), of c] assms(2-4) by auto
  have r: "so_running s0" "so_done s0" using assms(4) by auto
  obtain s where s: "(shell_out_step c)\<^sup>*\<^sup>* s0 s" "so_running s" "so_sent s = chunks" "so_done s"
    using shell_out_drain [OF r(1) q] assms(4) by auto
  then have "shell_out_step c s (s\<lparr>so_open := False, so_running := False\<rparr>)" by (intro shell_out_step.session_done)
  then show "\<exists>s. (shell_out_step c)\<^sup>*\<^sup>* s0 s \<and> \<not> so_open s \<and> so_sent s = chunks"
    using s by (intro exI [of _ "s\<lparr>so_open := False, so_running := False\<rparr>"]) (auto intro: rtranclp.rtrancl_into_rtrancl)
  have "shell_out_step c s0 (s0\<lparr>so_open := False, so_running := False\<rparr>)" using r by (rule shell_out_step.session_done)
  then show "\<exists>s. shell_out_step c s0 s \<and> \<not> so_open s \<and> \<not> so_running s \<and> so_sent s = []"
    using assms(4) by (intro exI [of _ "s0\<lparr>so_open := False, so_running := False\<rparr>"]) simp
  show "prefix (so_sent s) chunks" if "(shell_out_step c)\<^sup>*\<^sup>* s0 s" for s
  proof -
    have "shell_out_ok c chunks s0" using q assms(4) by (simp add: shell_out_ok_def)
    from shell_out_ok_run [OF that this] show ?thesis by (auto simp: shell_out_ok_def)
  qed
qed

definition demo_last_chunk :: hub where
  "demo_last_chunk = the (hub_run [HSub, HOutput [9]] (new_hub 4))"

theorem shell_exit_race_witness:
  "\<exists>h1 s. hub_Close demo_last_chunk = Some h1
     \<and> shell_out_step 0 \<lparr>so_hub = h1, so_done = True, so_sent = [], so_open = True, so_running = True\<rparr> s
     \<and> \<not> so_open s \<and> so_sent s = []"
proof -
  have h: "hub_Close demo_last_chunk \<noteq> None" "0 < length (hb_chans demo_last_chunk)"
    "sc_queue (hb_chans demo_last_chunk ! 0) = [[9]]" by code_simp+
  then obtain h1 where h1: "hub_Close demo_last_chunk = Some h1" by auto
  note shell_exit_race [OF h1 h(2,3) refl]
  then show ?thesis using h1 by (intro exI [of _ h1]) (elim conjE exE, intro exI conjI; assumption)
qed


definition shell_request :: http_request where
  "shell_request = base_request\<lparr>rq_Method := ''POST'', rq_PathValues := [(''id'', ''u7'')]\<rparr>"

definition shell_config :: "unit server_config" where
  "shell_config = \<lparr>cf_Cookie = auth_New, cf_Manager = \<lparr>pm_ProjectRoot = [], pm_BaseDomain = [], pm_HTTPMode = True,
     pm_ExternalPort = 80\<rparr>, cf_Agent = None, cf_HTTPMode = True, cf_BaseDomain = [], cf_HostAliases = [],
     cf_AgentServerURL = [], cf_AgentServerToken = [], cf_ProjectShell = Some demo_shell, cf_HasPending = True,
     cf_webFS = (\<lambda>_. False)\<rparr>"

definition shell_server :: "unit server_state" where
  "shell_server = demo_server\<lparr>sv_rows := [new_row ''u7'' ''shop'' 10000 10001 0]\<rparr>"


end
