(* ===== verification/Go_Proxy.thy ===== *)
theory Go_Proxy
  imports Go_Http Go_Url
begin

text \<open>
  The request side of Go's \<^verbatim>\<open>httputil.ReverseProxy\<close>: the director rewrites a copy of the request,
  then hop-by-hop headers are removed - the fixed ones and those that the client names in its
  Connection header - and the client's address is appended to X-Forwarded-For. The round trip to
  the upstream is the argument \<open>rt\<close>: the status it answers with, or \<open>None\<close> when it fails.
\<close>

definition valid_token_char :: "char \<Rightarrow> bool" where
  "valid_token_char c = (is_alnum c \<or> c \<in> set (''!#$%&*+-.^_|~'' @ [CHR 0x27, CHR 0x60]))"

fun canonical_loop :: "bool \<Rightarrow> string \<Rightarrow> string" where
  "canonical_loop up [] = []"
| "canonical_loop up (c # s) =
     (let n = (of_char c :: nat);
          d = (if up \<and> 97 \<le> n \<and> n \<le> 122 then char_of (n - 32)
               else if \<not> up \<and> 65 \<le> n \<and> n \<le> 90 then char_of (n + 32) else c)
      in d # canonical_loop (c = CHR ''-'') s)"

definition CanonicalHeaderKey :: "string \<Rightarrow> string" where
  "CanonicalHeaderKey s = (if list_all valid_token_char s then canonical_loop True s else s)"

definition hop_headers :: "string list" where
  "hop_headers = [''Connection'', ''Proxy-Connection'', ''Keep-Alive'', ''Proxy-Authenticate'', ''Proxy-Authorization'',
     ''Te'', ''Trailer'', ''Transfer-Encoding'', ''Upgrade'']"

definition connection_tokens :: "header \<Rightarrow> string list" where
  "connection_tokens h =
     map CanonicalHeaderKey (filter (\<lambda>t. t \<noteq> []) (map TrimSpace (Split (CHR '','') (header_Get h ''Connection''))))"

definition removeHopByHopHeaders :: "header \<Rightarrow> header" where
  "removeHopByHopHeaders h = filter (\<lambda>p. fst p \<notin> set (connection_tokens h) \<and> fst p \<notin> set hop_headers) h"

definition upgradeType :: "header \<Rightarrow> string" where
  "upgradeType h =
     (if list_ex (\<lambda>t. ToLower t = ''upgrade'') (map TrimSpace (Split (CHR '','') (header_Get h ''Connection'')))
      then header_Get h ''Upgrade'' else [])"

definition set_if :: "bool \<Rightarrow> string \<Rightarrow> string \<Rightarrow> header \<Rightarrow> header" where
  "set_if b k v h = (if b then header_Set h k v else h)"

definition outgoing_header :: "string \<Rightarrow> header \<Rightarrow> header" where
  "outgoing_header remote h =
     (let up = upgradeType h;
          te = list_ex (\<lambda>t. ToLower t = ''trailers'') (map TrimSpace (Split (CHR '','') (header_Get h ''Te'')));
          h1 = set_if te ''Te'' ''trailers'' (removeHopByHopHeaders h);
          h2 = set_if (up \<noteq> []) ''Upgrade'' up (set_if (up \<noteq> []) ''Connection'' ''Upgrade'' h1)
      in (case SplitHostPort remote of
            None \<Rightarrow> h2
          | Some (clientIP, _) \<Rightarrow>
              header_Set h2 ''X-Forwarded-For''
                (case map_of h2 ''X-Forwarded-For'' of None \<Rightarrow> clientIP | Some prior \<Rightarrow> prior @ '', '' @ clientIP)))"

definition reverse_proxy ::
  "(string \<Rightarrow> http_request \<Rightarrow> int option) \<Rightarrow> string \<Rightarrow> (http_request \<Rightarrow> http_request)
     \<Rightarrow> (http_response \<Rightarrow> http_response) \<Rightarrow> 's handler" where
  "reverse_proxy rt target director on_error r ws =
     (case ws of (w, s) \<Rightarrow>
        let out = director r; fwd = out\<lparr>rq_Header := outgoing_header (rq_RemoteAddr r) (rq_Header out)\<rparr> in
        case rt target fwd of
          None \<Rightarrow> (on_error w, s)
        | Some code \<Rightarrow> (write_body (WriteHeader w code) (Upstream target fwd), s))"

section \<open>Facts\<close>

lemma map_of_removeHop:
  "map_of (removeHopByHopHeaders h) k =
     (if k \<in> set (connection_tokens h) \<or> k \<in> set hop_headers then None else map_of h k)"
proof -
  have "map_of (filter (\<lambda>p. fst p \<notin> A) h) k = (if k \<in> A then None else map_of h k)" for A
    by (induction h) auto
  from this [of "set (connection_tokens h) \<union> set hop_headers"] show ?thesis
    by (simp add: removeHopByHopHeaders_def)
qed

text \<open>Headers other than those of the proxy itself pass unless the client has them removed.\<close>

lemma map_of_outgoing:
  assumes "k \<notin> set hop_headers" "k \<noteq> ''X-Forwarded-For''"
  shows "map_of (outgoing_header remote h) k = (if k \<in> set (connection_tokens h) then None else map_of h k)"
proof -
  have "k \<noteq> ''Te''" "k \<noteq> ''Upgrade''" "k \<noteq> ''Connection''" using assms(1) by (auto simp: hop_headers_def)
  then show ?thesis using assms
    by (simp add: outgoing_header_def set_if_def Let_def map_of_header_Set map_of_removeHop split: option.splits prod.splits)
qed

end
