(* ===== verification/Agent_Proxy.thy ===== *)
theory Agent_Proxy
  imports Server_Core Go_Proxy
begin

text \<open>
  The agent-server proxies (\<^verbatim>\<open>internal/server/agent_proxy.go\<close>): the project-scoped proxy, which puts
  every request below the project's prefix, and the mirror of the agent-server contract with its
  allow-list. The upstream is the argument \<open>se_roundTrip\<close> of the environment.
\<close>

section \<open>The project proxy\<close>

definition agentProjectIDHeader :: string where
  "agentProjectIDHeader = ''X-Appx-Project-Id''"

definition cleanAgentServerPath :: "string \<Rightarrow> string \<Rightarrow> string" where
  "cleanAgentServerPath pre agentPath =
     (let cleaned = path_Clean (''/'' @ TrimPrefix agentPath ''/'') in
      if cleaned = ''/'' then pre else pre @ cleaned)"

definition with_bearer :: "string \<Rightarrow> header \<Rightarrow> header" where
  "with_bearer token h = (if token \<noteq> [] then header_Set h ''Authorization'' (''Bearer '' @ token) else h)"

definition agent_director :: "string \<Rightarrow> string \<Rightarrow> http_request \<Rightarrow> http_request" where
  "agent_director host token req =
     (let agentPath = TrimPrefix (PathValue req ''agentPath'') ''/'';
          agentProjectID = header_Get (rq_Header req) agentProjectIDHeader;
          proxyPrefix = ''/v1/projects/'' @ PathEscape agentProjectID;
          p = cleanAgentServerPath proxyPrefix agentPath
      in req\<lparr>rq_Path := p, rq_EscapedPath := escape_path p, rq_Host := host, rq_Cookies := [],
             rq_Header := with_bearer token (header_Del (rq_Header req) agentProjectIDHeader)\<rparr>)"

definition agent_unavailable :: "http_response \<Rightarrow> http_response" where
  "agent_unavailable w = http_Error w ''agent-server unavailable'' 502"

definition invalid_backend :: "string \<Rightarrow> 's handler" where
  "invalid_backend backendURL r ws =
     (case ws of (w, s) \<Rightarrow>
        (http_Error w (''invalid agent-server URL '' @ [CHR 0x22] @ backendURL @ [CHR 0x22]) 500, s))"

definition agentServerReverseProxy :: "server_env \<Rightarrow> string \<Rightarrow> string \<Rightarrow> 's handler" where
  "agentServerReverseProxy env backendURL token =
     (case url_Parse backendURL of
        None \<Rightarrow> invalid_backend backendURL
      | Some (scheme, host) \<Rightarrow>
          if scheme = [] \<or> host = [] then invalid_backend backendURL
          else reverse_proxy (se_roundTrip env) (scheme @ ''://'' @ host) (agent_director host token) agent_unavailable)"

definition agentServerProxyHandler :: "server_env \<Rightarrow> string \<Rightarrow> string \<Rightarrow> 'a server_state handler" where
  "agentServerProxyHandler env backendURL token r ws =
     (case ws of (w, s) \<Rightarrow>
        let projectID = PathValue r ''id'' in
        if projectID = [] then (http_Error w ''project id required'' 400, s)
        else (case mgr_Get (se_project_faults env) projectID (sv_rows s) of
                Inl e \<Rightarrow> (http_Error w ''project not found'' 404, s)
              | Inr proj \<Rightarrow>
                  agentServerReverseProxy env backendURL token
                    (r\<lparr>rq_Header := header_Set (rq_Header r) agentProjectIDHeader (p_Name proj)\<rparr>) (w, s)))"

section \<open>The mirror\<close>

definition mirrorAccessAllowed :: "faults \<Rightarrow> project_row list \<Rightarrow> string \<Rightarrow> string \<Rightarrow> bool" where
  "mirrorAccessAllowed fl rows meth mirrorPath =
     (case Split (CHR ''/'') (TrimPrefix mirrorPath ''/'') of
        s0 # s1 # rest \<Rightarrow>
          if s0 \<noteq> ''v1'' then False
          else if s1 = ''sessions'' then meth = ''GET''
          else if s1 = ''auth'' \<or> s1 = ''custom'' then True
          else if s1 = ''projects'' then
            (case rest of
               slug # s3 # _ \<Rightarrow> s3 = ''sessions'' \<and> slug \<noteq> [] \<and> is_ok (store_GetByName fl slug rows)
             | _ \<Rightarrow> False)
          else False
      | _ \<Rightarrow> False)"

definition mirror_path :: "http_request \<Rightarrow> string" where
  "mirror_path r = path_Clean (''/'' @ TrimPrefix (PathValue r ''piPath'') ''/'')"

definition mirror_director :: "string \<Rightarrow> string \<Rightarrow> http_request \<Rightarrow> http_request" where
  "mirror_director host token req =
     req\<lparr>rq_Host := host, rq_Cookies := [], rq_Header := with_bearer token (rq_Header req)\<rparr>"

definition agentServerMirrorHandler :: "server_env \<Rightarrow> string \<Rightarrow> string \<Rightarrow> 'a server_state handler" where
  "agentServerMirrorHandler env backendURL token r ws =
     (case ws of (w, s) \<Rightarrow>
        case url_Parse backendURL of
          None \<Rightarrow> invalid_backend backendURL r (w, s)
        | Some (scheme, host) \<Rightarrow>
            if scheme = [] \<or> host = [] then invalid_backend backendURL r (w, s)
            else if \<not> mirrorAccessAllowed (se_project_faults env) (sv_rows s) (rq_Method r) (mirror_path r)
            then (http_Error w ''forbidden'' 403, s)
            else reverse_proxy (se_roundTrip env) (scheme @ ''://'' @ host) (mirror_director host token) agent_unavailable
                   (r\<lparr>rq_Path := mirror_path r, rq_EscapedPath := escape_path (mirror_path r)\<rparr>) (w, s))"

section \<open>Facts\<close>

lemma clean_below_root: "path_Clean (''/'' @ x) = ''/'' @ Join ''/'' (rooted_elems x)"
  using path_Clean_rooted [of x] by simp

lemma Join_elems_Nil: "Join ''/'' (rooted_elems x) = [] \<longleftrightarrow> rooted_elems x = []"
proof (cases "rooted_elems x")
  case (Cons e es)
  then have "plain_elem e" using rooted_elems_plain [of e x] by simp
  with Cons show ?thesis by (cases es) (auto simp: plain_elem_def)
qed simp

lemma cleanAgentServerPath_eq:
  "cleanAgentServerPath pre agentPath = Join ''/'' (pre # rooted_elems (TrimPrefix agentPath ''/''))"
proof -
  let ?es = "rooted_elems (TrimPrefix agentPath ''/'')"
  show ?thesis
  proof (cases "?es = []")
    case True
    then show ?thesis by (simp add: cleanAgentServerPath_def clean_below_root del: append_Cons)
  next
    case False
    then show ?thesis using Join_elems_Nil [of "TrimPrefix agentPath ''/''"]
      by (simp add: cleanAgentServerPath_def path_Clean_rooted Join_Cons)
  qed
qed

lemma slug_PathEscape:
  assumes "valid_name name"
  shows "PathEscape name = name"
proof -
  have "is_slug_char c \<Longrightarrow> is_alnum c \<or> c \<in> set ''-_.~$&+:=@''" for c
    by (auto simp: is_slug_char_def is_alnum_lower_def is_lower_def is_digit_def is_alnum_def Let_def)
  then have "list_all (\<lambda>c. is_alnum c \<or> c \<in> set ''-_.~$&+:=@'') name"
    using valid_name_slug [OF assms] unfolding list_all_iff by blast
  then show ?thesis unfolding PathEscape_def by (rule escape_with_keep)
qed

lemma mirror_segments:
  "Split (CHR ''/'') (TrimPrefix (mirror_path r) ''/'') =
     (let es = rooted_elems (TrimPrefix (PathValue r ''piPath'') ''/'') in if es = [] then [[]] else es)"
proof -
  have "TrimPrefix (''/'' @ x) ''/'' = x" for x by (rule TrimPrefix_append)
  then show ?thesis unfolding mirror_path_def clean_below_root by (simp add: Split_path_Clean_rooted)
qed

text \<open>The allow-list on path elements.\<close>

definition mirror_elems_allowed :: "faults \<Rightarrow> project_row list \<Rightarrow> string \<Rightarrow> string list \<Rightarrow> bool" where
  "mirror_elems_allowed fl rows meth es \<longleftrightarrow>
     (\<exists>rest. es = ''v1'' # ''sessions'' # rest \<and> meth = ''GET'')
   \<or> (\<exists>rest. es = ''v1'' # ''auth'' # rest \<or> es = ''v1'' # ''custom'' # rest)
   \<or> (\<exists>slug rest p. es = ''v1'' # ''projects'' # slug # ''sessions'' # rest \<and> store_GetByName fl slug rows = Ok p)"

lemma mirrorAccess_elems:
  "mirrorAccessAllowed fl rows meth (mirror_path r) \<longleftrightarrow>
     mirror_elems_allowed fl rows meth (rooted_elems (TrimPrefix (PathValue r ''piPath'') ''/''))"
proof -
  let ?es = "rooted_elems (TrimPrefix (PathValue r ''piPath'') ''/'')"
  have plain: "e \<in> set ?es \<Longrightarrow> e \<noteq> []" for e using rooted_elems_plain by (auto simp: plain_elem_def)
  have ok: "is_ok x \<longleftrightarrow> (\<exists>p. x = Ok p)" for x :: "(project_error, project) result" by (cases x) auto
  show ?thesis
  proof (cases ?es)
    case Nil
    then show ?thesis by (simp add: mirrorAccessAllowed_def mirror_segments mirror_elems_allowed_def)
  next
    case (Cons s0 es0)
    then have seg: "Split (CHR ''/'') (TrimPrefix (mirror_path r) ''/'') = s0 # es0" by (simp add: mirror_segments)
    show ?thesis
    proof (cases es0)
      case Nil
      then show ?thesis using seg Cons by (simp add: mirrorAccessAllowed_def mirror_elems_allowed_def)
    next
      case es0: (Cons s1 rest)
      show ?thesis unfolding mirrorAccessAllowed_def seg mirror_elems_allowed_def Cons es0
        using plain Cons es0 by (auto simp: ok split: list.splits if_splits)
    qed
  qed
qed

lemma reverse_proxy_cases:
  assumes "reverse_proxy rt target dir on_error r (w0, s) = (w, s')"
  obtains (sent) code fwd where "s' = s" "w = write_body (WriteHeader w0 code) (Upstream target fwd)"
      "fwd = (dir r)\<lparr>rq_Header := outgoing_header (rq_RemoteAddr r) (rq_Header (dir r))\<rparr>"
  | (failed) "s' = s" "w = on_error w0"
  using assms by (auto simp: reverse_proxy_def Let_def split: option.splits)

lemma bearer_sent:
  "token \<noteq> [] \<Longrightarrow> ''Authorization'' \<notin> set (connection_tokens (with_bearer token h)) \<Longrightarrow>
     map_of (outgoing_header remote (with_bearer token h)) ''Authorization'' = Some (''Bearer '' @ token)"
  by (simp add: map_of_outgoing hop_headers_def) (simp add: with_bearer_def map_of_header_Set)

lemma connection_with_bearer [simp]: "connection_tokens (with_bearer token h) = connection_tokens h"
  by (simp add: connection_tokens_def with_bearer_def)

section \<open>Properties\<close>

text \<open>The header that names the project is for the director only.\<close>

lemma project_header_other:
  "agentProjectIDHeader \<notin> set hop_headers" "agentProjectIDHeader \<noteq> ''X-Forwarded-For''"
  "agentProjectIDHeader \<noteq> ''Authorization''" "agentProjectIDHeader \<noteq> ''Connection''"
  by (simp_all add: agentProjectIDHeader_def hop_headers_def)

lemma project_header_dropped:
  "map_of (outgoing_header remote (with_bearer token (header_Del h agentProjectIDHeader))) agentProjectIDHeader = None"
  using project_header_other by (simp add: map_of_outgoing with_bearer_def map_of_header_Set map_of_header_Del)

lemma project_bearer_sent:
  "token \<noteq> [] \<and> ''Authorization'' \<notin> set (connection_tokens h) \<longrightarrow>
     map_of (outgoing_header remote (with_bearer token (header_Del (header_Set h agentProjectIDHeader v) agentProjectIDHeader)))
       ''Authorization'' = Some (''Bearer '' @ token)"
proof -
  have "connection_tokens (header_Del (header_Set h agentProjectIDHeader v) agentProjectIDHeader) = connection_tokens h"
    using project_header_other(4) by (simp add: connection_tokens_def)
  then show ?thesis using bearer_sent by simp
qed

text \<open>
  The project proxy. Whatever path the client asks for - with dot segments, doubled or escaped
  slashes - a forwarded request stays below the prefix of the project it names: the path is
  /v1/projects/, the name of the project stored under the identifier, and plain path elements. It
  carries neither the client's cookies nor the internal header, and the bearer token unless the
  client has Authorization removed through its Connection header. Nothing in the server changes.
\<close>

theorem project_proxy_confined:
  assumes "agentServerProxyHandler env url token r (w0, s) = (w, s')" "rs_Body w = Upstream target fwd"
    "rows_ok (sv_rows s)"
  shows "s' = s \<and> (\<exists>p es. mgr_Get (se_project_faults env) (PathValue r ''id'') (sv_rows s) = Ok p
       \<and> rq_Path fwd = ''/v1/projects/'' @ Join ''/'' (p_Name p # es)
       \<and> (\<forall>e \<in> set es. plain_elem e \<and> CHR ''/'' \<notin> set e))
     \<and> rq_Cookies fwd = [] \<and> map_of (rq_Header fwd) agentProjectIDHeader = None
     \<and> (token \<noteq> [] \<and> ''Authorization'' \<notin> set (connection_tokens (rq_Header r)) \<longrightarrow>
          map_of (rq_Header fwd) ''Authorization'' = Some (''Bearer '' @ token))"
proof (cases "mgr_Get (se_project_faults env) (PathValue r ''id'') (sv_rows s)")
  case (Inl e)
  then show ?thesis using assms(1,2) by (auto simp: agentServerProxyHandler_def Let_def split: if_splits)
next
  case (Inr p)
  let ?r = "r\<lparr>rq_Header := header_Set (rq_Header r) agentProjectIDHeader (p_Name p)\<rparr>"
  have "agentServerReverseProxy env url token ?r (w0, s) = (w, s')"
    using assms(1,2) Inr by (auto simp: agentServerProxyHandler_def Let_def split: if_splits)
  then obtain scheme host where "reverse_proxy (se_roundTrip env) (scheme @ ''://'' @ host) (agent_director host token)
      agent_unavailable ?r (w0, s) = (w, s')"
    using assms(2) by (auto simp: agentServerReverseProxy_def invalid_backend_def split: option.splits if_splits)
  then show ?thesis
  proof (cases rule: reverse_proxy_cases)
    case (sent code fwd')
    then have fwd: "fwd = fwd'" using assms(2) by (simp add: write_body_def)
    have name: "valid_name (p_Name p)"
      using Inr assms(3) find_SomeD
      by (fastforce simp: mgr_Get_def store_Get_def rows_ok_def list_all_iff scanInto_def split: if_splits option.splits)
    let ?es = "rooted_elems (TrimPrefix (TrimPrefix (PathValue r ''agentPath'') ''/'') ''/'')"
    have pv: "PathValue ?r ''agentPath'' = PathValue r ''agentPath''" by (simp add: PathValue_def)
    have "rq_Path fwd = Join ''/'' ((''/v1/projects/'' @ p_Name p) # ?es)"
      using sent(3) slug_PathEscape [OF name] fwd by (simp add: agent_director_def Let_def cleanAgentServerPath_eq pv)
    also have "\<dots> = ''/v1/projects/'' @ Join ''/'' (p_Name p # ?es)" by (cases ?es) simp_all
    finally have path: "rq_Path fwd = ''/v1/projects/'' @ Join ''/'' (p_Name p # ?es)" .
    have hdr: "rq_Header fwd = outgoing_header (rq_RemoteAddr r)
        (with_bearer token (header_Del (header_Set (rq_Header r) agentProjectIDHeader (p_Name p)) agentProjectIDHeader))"
      using sent(3) fwd by (simp add: agent_director_def Let_def)
    have "map_of (rq_Header fwd) agentProjectIDHeader = None" "token \<noteq> [] \<and> ''Authorization'' \<notin> set (connection_tokens (rq_Header r)) \<longrightarrow>
        map_of (rq_Header fwd) ''Authorization'' = Some (''Bearer '' @ token)"
      unfolding hdr by (rule project_header_dropped, rule project_bearer_sent)
    moreover have "rq_Cookies fwd = []" using sent(3) fwd by (simp add: agent_director_def Let_def)
    ultimately show ?thesis
      using Inr path sent(1) rooted_elems_plain rooted_elems_no_slash by blast
  next
    case failed
    then show ?thesis using assms(2) by (simp add: agent_unavailable_def)
  qed
qed

definition agent_server :: "unit server_state" where
  "agent_server = demo_server\<lparr>sv_rows := [new_row ''u7'' ''shop'' 10000 10001 0]\<rparr>"

definition agent_request :: http_request where
  "agent_request = base_request\<lparr>rq_RemoteAddr := ''10.0.0.9:555'', rq_Cookies := [(''appx_session'', ''0707'')],
     rq_PathValues := [(''id'', ''u7''), (''agentPath'', ''../../sessions/./s1'')]\<rparr>"

lemma agent_server_rows: "rows_ok (sv_rows agent_server)"
proof -
  have "valid_name ''shop''" by code_simp
  then show ?thesis by (simp add: agent_server_def rows_ok_def new_row_def usedPortsTx_def row_ports_def)
qed

theorem project_proxy_confined_witness:
  "\<exists>target fwd es. rs_Body (fst (agentServerProxyHandler demo_env ''http://127.0.0.1:4001'' ''secret'' agent_request
       (new_response, agent_server))) = Upstream target fwd
     \<and> rq_Path fwd = ''/v1/projects/'' @ Join ''/'' (''shop'' # es) \<and> rq_Cookies fwd = []"
proof -
  let ?p = "agentServerProxyHandler demo_env ''http://127.0.0.1:4001'' ''secret'' agent_request (new_response, agent_server)"
  have "case rs_Body (fst ?p) of Upstream target fwd \<Rightarrow> True | _ \<Rightarrow> False" by code_simp
  then obtain target fwd where b: "rs_Body (fst ?p) = Upstream target fwd" by (auto split: body.splits)
  have "case mgr_Get (se_project_faults demo_env) (PathValue agent_request ''id'') (sv_rows agent_server) of
      Inr p \<Rightarrow> p_Name p = ''shop'' | _ \<Rightarrow> False" by code_simp
  then have n: "mgr_Get (se_project_faults demo_env) (PathValue agent_request ''id'') (sv_rows agent_server) = Ok p
      \<Longrightarrow> p_Name p = ''shop''" for p by simp
  have "?p = (fst ?p, snd ?p)" by simp
  from project_proxy_confined [OF this b agent_server_rows] b n show ?thesis by metis
qed

text \<open>
  C9: The mirror's allow-list. A request is forwarded only along the checked, cleaned path, whose
  elements are plain, and only for a GET below /v1/sessions, anything below /v1/auth and /v1/custom,
  and the sessions of a registered project; a request to a usable backend that is outside the list
  gets 403. Cookies stay behind, nothing in the server changes.
\<close>

theorem mirror_allow_list:
  assumes "agentServerMirrorHandler env url token r (w0, s) = (w, s')" "rs_Sent w0 = None"
    "url_Parse url = Some (scheme, host)" "scheme \<noteq> []" "host \<noteq> []"
  defines "es \<equiv> rooted_elems (TrimPrefix (PathValue r ''piPath'') ''/'')"
  shows "s' = s
     \<and> (if mirror_elems_allowed (se_project_faults env) (sv_rows s) (rq_Method r) es
        then rs_Body w = TextBody (''agent-server unavailable'' @ [CHR 0x0A])
           \<or> (\<exists>fwd. rs_Body w = Upstream (scheme @ ''://'' @ host) fwd \<and> rq_Method fwd = rq_Method r
                \<and> rq_Path fwd = ''/'' @ Join ''/'' es \<and> (\<forall>e \<in> set es. plain_elem e \<and> CHR ''/'' \<notin> set e)
                \<and> rq_Cookies fwd = [])
        else rs_status w = 403 \<and> rs_Body w = TextBody (''forbidden'' @ [CHR 0x0A]))"
proof (cases "mirror_elems_allowed (se_project_faults env) (sv_rows s) (rq_Method r) es")
  case False
  then show ?thesis using assms(1-5) mirrorAccess_elems [of "se_project_faults env" "sv_rows s" "rq_Method r" r]
    by (auto simp: agentServerMirrorHandler_def es_def)
next
  case True
  then have "reverse_proxy (se_roundTrip env) (scheme @ ''://'' @ host) (mirror_director host token) agent_unavailable
      (r\<lparr>rq_Path := mirror_path r, rq_EscapedPath := escape_path (mirror_path r)\<rparr>) (w0, s) = (w, s')"
    using assms(1,3-5) mirrorAccess_elems [of "se_project_faults env" "sv_rows s" "rq_Method r" r]
    by (auto simp: agentServerMirrorHandler_def es_def)
  then show ?thesis
  proof (cases rule: reverse_proxy_cases)
    case (sent code fwd)
    have "mirror_path r = ''/'' @ Join ''/'' es" by (simp add: mirror_path_def path_Clean_rooted es_def)
    moreover have "\<forall>e \<in> set es. plain_elem e \<and> CHR ''/'' \<notin> set e"
      using rooted_elems_plain rooted_elems_no_slash unfolding es_def by blast
    ultimately show ?thesis using True sent by (simp add: write_body_def mirror_director_def)
  next
    case failed
    then show ?thesis using True by (simp add: agent_unavailable_def)
  qed
qed

text \<open>A client can make the proxy drop the bearer token that the director has set.\<close>

lemma connection_header_strips_token:
  "map_of (outgoing_header remote (with_bearer ''secret'' [(''Connection'', ''authorization'')])) ''Authorization'' = None"
proof -
  have "''Authorization'' \<in> set (connection_tokens (with_bearer ''secret'' [(''Connection'', ''authorization'')]))"
    by code_simp
  then show ?thesis by (subst map_of_outgoing) (simp_all add: hop_headers_def)
qed

theorem mirror_allow_list_witness:
  "rs_status (fst (agentServerMirrorHandler demo_env ''http://127.0.0.1:4001'' [] (base_request\<lparr>rq_PathValues :=
      [(''piPath'', ''v1/sessions/../projects/other'')]\<rparr>) (new_response, agent_server))) = 403"
proof -
  let ?r = "base_request\<lparr>rq_PathValues := [(''piPath'', ''v1/sessions/../projects/other'')]\<rparr>"
  let ?p = "agentServerMirrorHandler demo_env ''http://127.0.0.1:4001'' [] ?r (new_response, agent_server)"
  have es: "rooted_elems (TrimPrefix (PathValue ?r ''piPath'') ''/'') = [''v1'', ''projects'', ''other'']" by code_simp
  have u: "url_Parse ''http://127.0.0.1:4001'' = Some (''http'', ''127.0.0.1:4001'')" by code_simp
  have "?p = (fst ?p, snd ?p)" "rs_Sent new_response = None" by (simp_all add: new_response_def)
  from mirror_allow_list [OF this u] es show ?thesis by (simp add: mirror_elems_allowed_def)
qed

end
