(* ===== verification/Go_Mux.thy ===== *)
theory Go_Mux
  imports Go_Http Go_Url
begin

text \<open>
  Go's \<^verbatim>\<open>http.ServeMux\<close> as the router uses it: patterns with a method, literal segments,
  single-segment wildcards and a trailing wildcard (nameless for a pattern that ends in a slash).
  A path is matched segment by segment, literals before wildcards before the trailing wildcard;
  patterns of the request's method come first, then those of GET for a HEAD request, then those
  without a method. Paths that are not clean and paths that lack a trailing slash are redirected.
  Host patterns and the end-of-path pattern do not occur here; Location headers omit the query.
\<close>

section \<open>Patterns\<close>

datatype mux_seg = Lit string | Wild string | Multi string

record 's route =
  rt_Method :: string
  rt_Segs :: "mux_seg list"
  rt_Handler :: "'s handler"

text \<open>Segments of an escaped path without its first slash; a trailing slash gives a last empty one.\<close>

definition path_segs :: "string \<Rightarrow> string list" where
  "path_segs p = (case p of [] \<Rightarrow> [] | _ # t \<Rightarrow> Split (CHR ''/'') t)"

type_synonym 's cand = "mux_seg list \<times> 's route"

fun after_lit :: "string \<Rightarrow> 's cand list \<Rightarrow> 's cand list" where
  "after_lit l [] = []"
| "after_lit l ((Lit k # segs, p) # cs) = (if k = l then (segs, p) # after_lit l cs else after_lit l cs)"
| "after_lit l (_ # cs) = after_lit l cs"

fun after_wild :: "'s cand list \<Rightarrow> 's cand list" where
  "after_wild [] = []"
| "after_wild ((Wild x # segs, p) # cs) = (segs, p) # after_wild cs"
| "after_wild (_ # cs) = after_wild cs"

fun at_multi :: "'s cand list \<Rightarrow> (string \<times> 's route) option" where
  "at_multi [] = None"
| "at_multi (([Multi x], p) # cs) = Some (x, p)"
| "at_multi (_ # cs) = at_multi cs"

fun at_end :: "'s cand list \<Rightarrow> 's route option" where
  "at_end [] = None"
| "at_end (([], p) # cs) = Some p"
| "at_end (_ # cs) = at_end cs"

fun mux_match :: "'s cand list \<Rightarrow> string list \<Rightarrow> string list \<Rightarrow> ('s route \<times> string list) option" where
  "mux_match cs [] ms = map_option (\<lambda>p. (p, ms)) (at_end cs)"
| "mux_match cs (seg # rest) ms =
     (let trailing = (seg = [] \<and> rest = []) in
      case (if trailing then None else mux_match (after_lit (pathUnescape seg) cs) rest ms) of
        Some x \<Rightarrow> Some x
      | None \<Rightarrow>
          (case (if trailing then None else mux_match (after_wild cs) rest (ms @ [pathUnescape seg])) of
             Some x \<Rightarrow> Some x
           | None \<Rightarrow>
               map_option (\<lambda>(x, p). (p, if x = [] then ms else ms @ [pathUnescape (Join ''/'' (seg # rest))]))
                 (at_multi cs)))"

section \<open>Finding the handler\<close>

definition of_method :: "string \<Rightarrow> 's route list \<Rightarrow> 's cand list" where
  "of_method m mux = map (\<lambda>p. (rt_Segs p, p)) (filter (\<lambda>p. rt_Method p = m) mux)"

definition mux_find :: "'s route list \<Rightarrow> string \<Rightarrow> string \<Rightarrow> ('s route \<times> string list) option" where
  "mux_find mux m path =
     (case mux_match (of_method m mux) (path_segs path) [] of
        Some x \<Rightarrow> Some x
      | None \<Rightarrow>
          (case (if m = ''HEAD'' then mux_match (of_method ''GET'' mux) (path_segs path) [] else None) of
             Some x \<Rightarrow> Some x
           | None \<Rightarrow> mux_match (of_method [] mux) (path_segs path) []))"

fun seg_name :: "mux_seg \<Rightarrow> string list" where
  "seg_name (Lit l) = []"
| "seg_name (Wild x) = [x]"
| "seg_name (Multi x) = (if x = [] then [] else [x])"

definition bindings :: "'s route \<Rightarrow> string list \<Rightarrow> (string \<times> string) list" where
  "bindings p ms = zip (concat (map seg_name (rt_Segs p))) ms"

definition exactMatch :: "('s route \<times> string list) option \<Rightarrow> string \<Rightarrow> bool" where
  "exactMatch n path =
     (case n of
        None \<Rightarrow> False
      | Some (p, _) \<Rightarrow>
          (case last (rt_Segs p) of
             Multi _ \<Rightarrow> path = [] \<or> (last path = CHR ''/'' \<and> length (rt_Segs p) = count_list path (CHR ''/''))
           | _ \<Rightarrow> True))"

definition cleanPath :: "string \<Rightarrow> string" where
  "cleanPath p =
     (if p = [] then ''/''
      else let q = (if hd p = CHR ''/'' then p else CHR ''/'' # p); np = path_Clean q in
           if last q = CHR ''/'' \<and> np \<noteq> ''/'' then np @ ''/'' else np)"

definition http_redirect :: "http_request \<Rightarrow> string \<Rightarrow> int \<Rightarrow> http_response \<Rightarrow> http_response" where
  "http_redirect r location code w =
     (let w1 = set_header w ''Location'' location;
          w2 = (if header_Get (rs_Header w) ''Content-Type'' = [] \<and> rq_Method r \<in> {''GET'', ''HEAD''}
                then set_header w1 ''Content-Type'' ''text/html; charset=utf-8'' else w1);
          w3 = WriteHeader w2 code
      in if rq_Method r = ''GET'' then write_body w3 (TextBody location) else w3)"

definition mux_methods :: "string list" where
  "mux_methods = [''GET'', ''HEAD'', ''POST'', ''PUT'', ''PATCH'', ''DELETE'', ''CONNECT'', ''OPTIONS'', ''TRACE'']"

text \<open>Another method for which the path would match makes the answer 405 instead of 404.\<close>

definition other_method_matches :: "'s route list \<Rightarrow> string \<Rightarrow> bool" where
  "other_method_matches mux path = list_ex (\<lambda>p. mux_find mux (rt_Method p) path \<noteq> None) mux"

datatype 's mux_answer = Found "'s route" "string list" | Redirect string int | NotAllowed | NoRoute | BadRequest

definition mux_answer :: "'s route list \<Rightarrow> http_request \<Rightarrow> 's mux_answer" where
  "mux_answer mux r =
     (let escaped = rq_EscapedPath r;
          path = (if rq_Method r = ''CONNECT'' then escaped else cleanPath escaped);
          n = mux_find mux (rq_Method r) path in
      if escaped = ''*'' then BadRequest
      else if rq_Method r \<noteq> ''CONNECT'' \<and> \<not> exactMatch n path \<and> \<not> HasSuffix path ''/'' \<and> path \<noteq> []
              \<and> exactMatch (mux_find mux (rq_Method r) (path @ ''/'')) (path @ ''/'')
        then Redirect (escape_path (cleanPath (rq_Path r) @ ''/'')) 307
      else if path \<noteq> escaped then Redirect (escape_path path) 307
      else (case n of
              Some (p, ms) \<Rightarrow> Found p ms
            | None \<Rightarrow> if other_method_matches mux path then NotAllowed else NoRoute))"

definition mux_ServeHTTP :: "'s route list \<Rightarrow> 's handler" where
  "mux_ServeHTTP mux r ws =
     (case ws of (w, s) \<Rightarrow>
        case mux_answer mux r of
          Found p ms \<Rightarrow> rt_Handler p (r\<lparr>rq_PathValues := bindings p ms\<rparr>) (w, s)
        | Redirect location code \<Rightarrow> (http_redirect r location code w, s)
        | NotAllowed \<Rightarrow> (http_Error w ''Method Not Allowed'' 405, s)
        | NoRoute \<Rightarrow> (http_Error w ''404 page not found'' 404, s)
        | BadRequest \<Rightarrow> (WriteHeader w 400, s))"

section \<open>Facts\<close>

text \<open>What a pattern can match: the literals agree and the rest is free.\<close>

fun segs_match :: "mux_seg list \<Rightarrow> string list \<Rightarrow> bool" where
  "segs_match [] xs \<longleftrightarrow> xs = []"
| "segs_match [Multi x] xs \<longleftrightarrow> xs \<noteq> []"
| "segs_match (Lit l # ss) (x # xs) \<longleftrightarrow> pathUnescape x = l \<and> segs_match ss xs"
| "segs_match (Wild n # ss) (x # xs) \<longleftrightarrow> segs_match ss xs"
| "segs_match _ _ \<longleftrightarrow> False"

lemma after_lit_mem: "(segs, p) \<in> set (after_lit l cs) \<longleftrightarrow> (Lit l # segs, p) \<in> set cs"
  by (induction l cs rule: after_lit.induct) auto

lemma after_wild_mem: "(segs, p) \<in> set (after_wild cs) \<longleftrightarrow> (\<exists>x. (Wild x # segs, p) \<in> set cs)"
  by (induction cs rule: after_wild.induct) auto

lemma at_multi_mem: "at_multi cs = Some (x, p) \<Longrightarrow> ([Multi x], p) \<in> set cs"
  by (induction cs rule: at_multi.induct) auto

lemma at_end_mem: "at_end cs = Some p \<Longrightarrow> ([], p) \<in> set cs"
  by (induction cs rule: at_end.induct) auto

lemma mux_match_sound:
  "mux_match cs xs ms = Some (p, ms') \<Longrightarrow> \<exists>segs. (segs, p) \<in> set cs \<and> segs_match segs xs"
proof (induction xs arbitrary: cs ms)
  case Nil
  then show ?case using at_end_mem by fastforce
next
  case (Cons seg rest)
  from Cons.prems consider (lit) "mux_match (after_lit (pathUnescape seg) cs) rest ms = Some (p, ms')"
    | (wild) "mux_match (after_wild cs) rest (ms @ [pathUnescape seg]) = Some (p, ms')"
    | (multi) x where "at_multi cs = Some (x, p)"
    by (auto simp: Let_def split: option.splits if_splits)
  then show ?case
  proof cases
    case lit
    from Cons.IH [OF this] obtain segs where "(Lit (pathUnescape seg) # segs, p) \<in> set cs" "segs_match segs rest"
      using after_lit_mem by blast
    then show ?thesis by (metis segs_match.simps(3))
  next
    case wild
    from Cons.IH [OF this] obtain x segs where "(Wild x # segs, p) \<in> set cs" "segs_match segs rest"
      using after_wild_mem by blast
    then show ?thesis by (metis segs_match.simps(4))
  next
    case multi
    then show ?thesis using at_multi_mem by fastforce
  qed
qed

lemma mux_find_sound:
  assumes "mux_find mux m path = Some (p, ms)"
  shows "p \<in> set mux" "segs_match (rt_Segs p) (path_segs path)"
    "rt_Method p = m \<or> m = ''HEAD'' \<and> rt_Method p = ''GET'' \<or> rt_Method p = []"
proof -
  have "\<exists>k. mux_match (of_method k mux) (path_segs path) [] = Some (p, ms)
      \<and> (k = m \<or> m = ''HEAD'' \<and> k = ''GET'' \<or> k = [])"
    using assms by (auto simp: mux_find_def split: option.splits if_splits)
  then obtain k where k: "mux_match (of_method k mux) (path_segs path) [] = Some (p, ms)"
    "k = m \<or> m = ''HEAD'' \<and> k = ''GET'' \<or> k = []" by blast
  obtain segs where "(segs, p) \<in> set (of_method k mux)" "segs_match segs (path_segs path)"
    using mux_match_sound [OF k(1)] by blast
  then show "p \<in> set mux" "segs_match (rt_Segs p) (path_segs path)"
    "rt_Method p = m \<or> m = ''HEAD'' \<and> rt_Method p = ''GET'' \<or> rt_Method p = []"
    using k(2) by (auto simp: of_method_def)
qed

text \<open>
  Every request either reaches the handler of a matching route, or is answered by the multiplexer
  itself without touching the state.
\<close>

lemma mux_ServeHTTP_cases:
  assumes "mux_ServeHTTP mux r (w0, s) = (w, s')"
  obtains (route) p bs where "p \<in> set mux" "rt_Handler p (r\<lparr>rq_PathValues := bs\<rparr>) (w0, s) = (w, s')"
      "rt_Method p = rq_Method r \<or> rq_Method r = ''HEAD'' \<and> rt_Method p = ''GET'' \<or> rt_Method p = []"
      "segs_match (rt_Segs p) (path_segs (rq_EscapedPath r))"
  | (redirect) l where "w = http_redirect r l 307 w0" "s' = s"
  | (error) msg code where "w = http_Error w0 msg code" "code \<in> {404, 405}" "s' = s"
  | (bad) "w = WriteHeader w0 400" "s' = s"
proof (cases "mux_answer mux r")
  case (Found p ms)
  then have "mux_find mux (rq_Method r) (rq_EscapedPath r) = Some (p, ms)"
    by (auto simp: mux_answer_def Let_def split: if_splits option.splits)
  from mux_find_sound [OF this] show ?thesis
    using assms Found by (intro route) (auto simp: mux_ServeHTTP_def)
next
  case (Redirect l code)
  then have "code = 307" by (auto simp: mux_answer_def Let_def split: if_splits option.splits)
  then show ?thesis using assms Redirect by (intro redirect) (auto simp: mux_ServeHTTP_def)
next
  case NotAllowed
  then show ?thesis using assms by (intro error [of "''Method Not Allowed''" 405]) (auto simp: mux_ServeHTTP_def)
next
  case NoRoute
  then show ?thesis using assms by (intro error [of "''404 page not found''" 404]) (auto simp: mux_ServeHTTP_def)
next
  case BadRequest
  then show ?thesis using assms by (intro bad) (auto simp: mux_ServeHTTP_def)
qed

end
