(* ===== verification/Handler_Contract.thy ===== *)
theory Handler_Contract
  imports Server_Core Go_Mux
begin

text \<open>
  Contracts of handlers: what a handler does to the server's state, for the requests and the states
  it is asked about. The locales are the closure of such a contract under the middleware of
  \<^verbatim>\<open>internal/server/middleware.go\<close>, \<^verbatim>\<open>ratelimit.go\<close> and \<^verbatim>\<open>internal/auth/auth.go\<close> and under the multiplexer, proved
  once for the invariants and frame conditions that the router theories state.
\<close>

definition meets ::
  "(http_request \<Rightarrow> bool) \<Rightarrow> ('a server_state \<Rightarrow> bool) \<Rightarrow> ('a server_state \<Rightarrow> 'a server_state \<Rightarrow> bool) \<Rightarrow> 'a server_state handler \<Rightarrow> bool" where
  "meets q p R h \<longleftrightarrow> (\<forall>r w s. q r \<longrightarrow> p s \<longrightarrow> R s (snd (h r (w, s))))"

lemma meetsI: "(\<And>r w s. q r \<Longrightarrow> p s \<Longrightarrow> R s (snd (h r (w, s)))) \<Longrightarrow> meets q p R h"
  by (simp add: meets_def)

lemma meetsD: "meets q p R h \<Longrightarrow> q r \<Longrightarrow> p s \<Longrightarrow> h r (w, s) = (w', s') \<Longrightarrow> R s s'"
  unfolding meets_def by (metis snd_conv)

lemma meets_mono: "meets q p R h \<Longrightarrow> (\<And>s s'. R s s' \<Longrightarrow> R' s s') \<Longrightarrow> meets q p R' h"
  by (simp add: meets_def)

locale handler_contract =
  fixes q :: "http_request \<Rightarrow> bool"
    and p :: "'a server_state \<Rightarrow> bool"
    and R :: "'a server_state \<Rightarrow> 'a server_state \<Rightarrow> bool"
  assumes request_limit: "q (r\<lparr>rq_BodyLimit := l\<rparr>) = q r"
    and request_path: "q (r\<lparr>rq_PathValues := b\<rparr>) = q r"
    and unchanged: "p s \<Longrightarrow> R s s"
    and session: "p s \<Longrightarrow> as_settings st = as_settings (sv_auth s) \<Longrightarrow> p (put_auth st s)"
    and session_then: "p s \<Longrightarrow> as_settings st = as_settings (sv_auth s) \<Longrightarrow> R (put_auth st s) s' \<Longrightarrow> R s s'"
begin

lemma auth: "meets q p R h \<Longrightarrow> meets q p R (authMiddleware env h)"
proof (rule meetsI)
  fix r :: http_request and w and s :: "'a server_state"
  assume h: "meets q p R h" and r: "q r" and s: "p s"
  show "R s (snd (authMiddleware env h r (w, s)))"
  proof (cases "authenticated (se_auth env) r (sv_auth s)")
    case False
    then show ?thesis using s by (simp add: sv_auth_lens.middleware_rejects unchanged)
  next
    case True
    let ?st = "snd (ValidSession (ae_faults (se_auth env)) (ae_sha (se_auth env)) (ae_now (se_auth env))
      (ae_now2 (se_auth env)) (the (request_Cookie r ''appx_session'')) (sv_auth s))"
    have st: "as_settings ?st = as_settings (sv_auth s)" by (rule ValidSession_settings)
    have "R (put_auth ?st s) (snd (h r (w, put_auth ?st s)))"
      using h r session [OF s st] unfolding meets_def by blast
    then show ?thesis using session_then [OF s st] by (simp add: sv_auth_lens.middleware_accepts [OF True])
  qed
qed

lemma limit: "meets q p R h \<Longrightarrow> meets q p R (limitBody h)"
  by (simp add: meets_def limitBody_def request_limit)

lemma json: "meets q p R h \<Longrightarrow> meets q p R (requireJSON h)"
  by (simp add: meets_def requireJSON_def unchanged)

lemma mux: "(\<And>rt. rt \<in> set mux \<Longrightarrow> meets q p R (rt_Handler rt)) \<Longrightarrow> meets q p R (mux_ServeHTTP mux)"
proof (rule meetsI)
  fix r w and s :: "'a server_state"
  assume h: "\<And>rt. rt \<in> set mux \<Longrightarrow> meets q p R (rt_Handler rt)" and r: "q r" and s: "p s"
  have "mux_ServeHTTP mux r (w, s) = (fst (mux_ServeHTTP mux r (w, s)), snd (mux_ServeHTTP mux r (w, s)))" by simp
  then show "R s (snd (mux_ServeHTTP mux r (w, s)))"
  proof (cases rule: mux_ServeHTTP_cases)
    case (route rt bs)
    then show ?thesis using meetsD [OF h _ s] r request_path by blast
  qed (simp_all add: unchanged s)
qed

end

locale limited_contract = handler_contract +
  assumes counted: "p s \<Longrightarrow> p (put_limiter rl s) \<and> R s (put_limiter rl s)"
    and counted_then: "p s \<Longrightarrow> R (put_limiter rl s) s' \<Longrightarrow> R s s'"
begin

lemma limiter: "meets q p R h \<Longrightarrow> meets q p R (rl_middleware sv_limiter put_limiter now h)"
proof (rule meetsI)
  fix r :: http_request and w and s :: "'a server_state"
  assume h: "meets q p R h" and r: "q r" and s: "p s"
  obtain b rl where rl: "rl_allow now (getClientIP r) (sv_limiter s) = (b, rl)" by fastforce
  have "R (put_limiter rl s) (snd (h r (w, put_limiter rl s)))" using h r counted [OF s] unfolding meets_def by blast
  then show "R s (snd (rl_middleware sv_limiter put_limiter now h r (w, s)))"
    using counted [OF s] counted_then [OF s] rl by (cases b) (simp_all add: rl_middleware_def)
qed

end

end
