(* ===== verification/Router.thy ===== *)
theory Router
  imports Server_Auth Server_Projects Server_Egress Server_Shell Agent_Proxy Handler_Contract
begin

text \<open>
  The top-level handler (\<^verbatim>\<open>internal/server/router.go\<close>): the two multiplexers with their middleware, the
  single-page application, and the dispatch on the Host header to the dashboard or to a project's
  production or development port.
\<close>

section \<open>The API\<close>

definition mk_route :: "string \<Rightarrow> mux_seg list \<Rightarrow> 's handler \<Rightarrow> 's route" where
  "mk_route m segs h = \<lparr>rt_Method = m, rt_Segs = segs, rt_Handler = h\<rparr>"

definition api_path :: "mux_seg list \<Rightarrow> mux_seg list" where
  "api_path segs = Lit ''api'' # segs"

definition agent_url :: "'a server_config \<Rightarrow> string" where
  "agent_url cfg = (if cf_AgentServerURL cfg = [] then ''http://127.0.0.1:4001'' else cf_AgentServerURL cfg)"

definition project_routes :: "server_env \<Rightarrow> 'a server_config \<Rightarrow> 'a server_state route list" where
  "project_routes env cfg =
     [mk_route ''GET'' (api_path [Lit ''projects'']) (handleListProjects env cfg),
      mk_route ''POST'' (api_path [Lit ''projects'']) (handleCreateProject env cfg),
      mk_route ''GET'' (api_path [Lit ''projects'', Wild ''id'']) (handleGetProject env cfg),
      mk_route ''DELETE'' (api_path [Lit ''projects'', Wild ''id'']) (handleDeleteProject env cfg)]"

definition settings_routes :: "server_env \<Rightarrow> 'a server_config \<Rightarrow> 'a server_state route list" where
  "settings_routes env cfg =
     [mk_route ''PUT'' (api_path [Lit ''settings'', Lit ''password'']) (handleChangePassword env (cf_Cookie cfg)),
      mk_route ''GET'' (api_path [Lit ''settings'', Lit ''terminal-buffer-size'']) (handleGetTerminalBufferSize env),
      mk_route ''PUT'' (api_path [Lit ''settings'', Lit ''terminal-buffer-size'']) (handleSetTerminalBufferSize env),
      mk_route ''GET'' (api_path [Lit ''config'']) (handleGetConfig (cf_BaseDomain cfg)),
      mk_route ''DELETE'' (api_path [Lit ''session'']) (handleLogout env (cf_Cookie cfg))]"

definition egress_routes :: "server_env \<Rightarrow> 'a server_config \<Rightarrow> 'a server_state route list" where
  "egress_routes env cfg =
     [mk_route ''GET'' (api_path [Lit ''egress'', Lit ''log'']) (handleGetEgressLog env),
      mk_route ''GET'' (api_path [Lit ''egress'', Lit ''allowlist'']) handleGetAllowlist,
      mk_route ''PUT'' (api_path [Lit ''egress'', Lit ''allowlist'']) (handleSetAllowlist env)]
     @ (if cf_HasPending cfg then
         [mk_route ''GET'' (api_path [Lit ''egress'', Lit ''pending'']) (handleGetEgressPending env),
          mk_route ''POST'' (api_path [Lit ''egress'', Lit ''pending'', Wild ''id'', Lit ''approve'']) (handleApproveEgressRequest env),
          mk_route ''POST'' (api_path [Lit ''egress'', Lit ''pending'', Wild ''id'', Lit ''deny'']) (handleDenyEgressRequest env)]
        else [])"

definition agent_routes :: "server_env \<Rightarrow> 'a server_config \<Rightarrow> 'a server_state route list" where
  "agent_routes env cfg =
     map (\<lambda>m. mk_route m (api_path [Lit ''projects'', Wild ''id'', Lit ''agent'', Multi ''agentPath''])
            (agentServerProxyHandler env (agent_url cfg) (cf_AgentServerToken cfg)))
       [''GET'', ''POST'', ''PATCH'', ''DELETE'']"

definition api_mux :: "server_env \<Rightarrow> 'a server_config \<Rightarrow> 'a server_state route list" where
  "api_mux env cfg = project_routes env cfg @ settings_routes env cfg @ egress_routes env cfg @ agent_routes env cfg"

section \<open>The dashboard\<close>

text \<open>
  The file server is given the path it is asked for; whether the bundle has that file is \<open>webFS\<close>. An empty path makes the slice panic.
\<close>

definition spaHandler :: "(string \<Rightarrow> bool) \<Rightarrow> 's handler" where
  "spaHandler webFS r ws =
     (case ws of (w, s) \<Rightarrow>
        if rq_Path r = [] then (aborted w, s)
        else
          let p = (if rq_Path r = ''/'' then ''index.html'' else drop 1 (rq_Path r)) in
          (write_body w (StaticFile (if webFS p then rq_Path r else ''/'')), s))"

definition login_handler :: "server_env \<Rightarrow> 'a server_config \<Rightarrow> 'a server_state handler" where
  "login_handler env cfg =
     limitBody (requireJSON (rl_middleware sv_limiter put_limiter (ae_now (se_auth env)) (handleLogin env (cf_Cookie cfg))))"

definition shell_routes :: "server_env \<Rightarrow> 'a server_config \<Rightarrow> 'a server_state route list" where
  "shell_routes env cfg =
     [mk_route ''POST'' (api_path [Lit ''shell'']) (authMiddleware env (limitBody (handleShellCreate env))),
      mk_route ''PUT'' (api_path [Lit ''shell'', Wild ''id'']) (authMiddleware env (limitBody (requireJSON (handleShellResize env)))),
      mk_route ''GET'' (api_path [Lit ''shell'', Wild ''id'', Lit ''connect'']) (authMiddleware env (handleShellConnect env)),
      mk_route ''POST'' (api_path [Lit ''projects'', Wild ''id'', Lit ''shell''])
        (authMiddleware env (limitBody (handleProjectShellCreate env cfg)))]"

definition mirror_routes :: "server_env \<Rightarrow> 'a server_config \<Rightarrow> 'a server_state route list" where
  "mirror_routes env cfg =
     (let mirror = agentServerMirrorHandler env (agent_url cfg) (cf_AgentServerToken cfg);
          segs = api_path [Lit ''pi'', Multi ''piPath''] in
      [mk_route ''GET'' segs (authMiddleware env mirror),
       mk_route ''POST'' segs (authMiddleware env (limitBody mirror)),
       mk_route ''PUT'' segs (authMiddleware env (limitBody mirror)),
       mk_route ''PATCH'' segs (authMiddleware env (limitBody mirror)),
       mk_route ''DELETE'' segs (authMiddleware env mirror)])"

definition top_mux :: "server_env \<Rightarrow> 'a server_config \<Rightarrow> 'a server_state route list" where
  "top_mux env cfg =
     [mk_route ''POST'' (api_path [Lit ''login'']) (login_handler env cfg),
      mk_route [] (api_path [Multi []])
        (limitBody (authMiddleware env (requireJSON (mux_ServeHTTP (api_mux env cfg)))))]
     @ shell_routes env cfg @ mirror_routes env cfg
     @ [mk_route [] [Multi []] (spaHandler (cf_webFS cfg))]"

definition dashboard :: "server_env \<Rightarrow> 'a server_config \<Rightarrow> 'a server_state handler" where
  "dashboard env cfg = securityHeaders (cf_HTTPMode cfg) (cf_BaseDomain cfg) (mux_ServeHTTP (top_mux env cfg))"

section \<open>Dispatch on the host\<close>

definition stripPort :: "string \<Rightarrow> string" where
  "stripPort host = (case SplitHostPort host of None \<Rightarrow> host | Some (h, _) \<Rightarrow> h)"

definition subdomain_director :: "string \<Rightarrow> http_request \<Rightarrow> http_request" where
  "subdomain_director host req = req\<lparr>rq_Host := host, rq_Cookies := []\<rparr>"

definition subdomain_proxy :: "server_env \<Rightarrow> bool \<Rightarrow> int \<Rightarrow> 'a server_state handler" where
  "subdomain_proxy env httpMode port r ws =
     (case ws of (w, s) \<Rightarrow>
        let w1 = set_header w ''X-Content-Type-Options'' ''nosniff'';
            w2 = (if \<not> httpMode
                  then set_header w1 ''Strict-Transport-Security'' ''max-age=63072000; includeSubDomains'' else w1);
            host = ''127.0.0.1:'' @ Itoa port
        in reverse_proxy (se_roundTrip env) (''http://'' @ host) (subdomain_director host)
             (\<lambda>w. WriteHeader w 502) r (w2, s))"

definition subdomain_handler :: "server_env \<Rightarrow> 'a server_config \<Rightarrow> string \<Rightarrow> 'a server_state handler" where
  "subdomain_handler env cfg projectName r ws =
     (case ws of (w, s) \<Rightarrow>
        let wantDev = HasSuffix projectName ''-dev'';
            lookupName = (if wantDev then TrimSuffix projectName ''-dev'' else projectName) in
        case store_GetByName (se_project_faults env) lookupName (sv_rows s) of
          Inl e \<Rightarrow> (http_Error w ''project not found'' 404, s)
        | Inr proj \<Rightarrow>
            let targetPort = (if wantDev then p_DevPort proj else p_AssignedPort proj) in
            if targetPort = 0 then (http_Error w ''environment not available'' 404, s)
            else authMiddleware env (subdomain_proxy env (cf_HTTPMode cfg) targetPort) r (w, s))"

definition NewRouter :: "server_env \<Rightarrow> 'a server_config \<Rightarrow> 'a server_state handler" where
  "NewRouter env cfg r ws =
     (if cf_BaseDomain cfg = [] then dashboard env cfg r ws
      else
        let host = stripPort (rq_Host r); suffix = CHR ''.'' # cf_BaseDomain cfg in
        if host = cf_BaseDomain cfg \<or> host \<in> set (cf_HostAliases cfg) then dashboard env cfg r ws
        else if \<not> HasSuffix host suffix \<or> TrimSuffix host suffix = []
          then (http_Error (fst ws) ''unknown host'' 404, snd ws)
        else subdomain_handler env cfg (TrimSuffix host suffix) r ws)"

section \<open>Facts: nothing protected without a session\<close>

text \<open>An answer that shows nothing of the server: an error text, a static file or no body.\<close>

fun public_body :: "body \<Rightarrow> bool" where
  "public_body NoBody = True"
| "public_body (TextBody _) = True"
| "public_body (StaticFile _) = True"
| "public_body _ = False"

lemma public_http_Error [simp]: "public_body (rs_Body (http_Error w msg code))"
  by simp

lemma rs_Body_WriteHeader [simp]: "rs_Body (WriteHeader w code) = rs_Body w"
  by (simp add: WriteHeader_def split: option.splits)

lemma rs_Body_set_header [simp]: "rs_Body (set_header w k v) = rs_Body w"
  by (simp add: set_header_def)

lemma public_redirect [simp]: "public_body (rs_Body w) \<Longrightarrow> public_body (rs_Body (http_redirect r l code w))"
  by (simp add: http_redirect_def write_body_def Let_def)

lemma public_reject [simp]: "public_body (rs_Body (reject_unauthenticated w))"
  by (simp add: reject_unauthenticated_def)

text \<open>A handler that, without a session, changes nothing and shows nothing.\<close>

definition guarded :: "server_env \<Rightarrow> 'a server_state handler \<Rightarrow> bool" where
  "guarded env h \<longleftrightarrow> (\<forall>r w s w' s'. \<not> authenticated (se_auth env) r (sv_auth s) \<longrightarrow> public_body (rs_Body w) \<longrightarrow>
     h r (w, s) = (w', s') \<longrightarrow> s' = s \<and> public_body (rs_Body w'))"

lemma guarded_auth: "guarded env (authMiddleware env h)"
  using sv_auth_lens.middleware_rejects by (fastforce simp: guarded_def)

lemma authenticated_cong:
  "rq_Cookies r' = rq_Cookies r \<Longrightarrow> authenticated ae r' st = authenticated ae r st"
  by (simp add: authenticated_def request_Cookie_def)

lemma guarded_limitBody: "guarded env h \<Longrightarrow> guarded env (limitBody h)"
  unfolding guarded_def limitBody_def
  by (metis (no_types, lifting) authenticated_cong http_request.select_convs(7) http_request.surjective http_request.update_convs(12))

lemma guarded_spa: "guarded env (spaHandler webFS)"
  by (auto simp: guarded_def spaHandler_def write_body_def aborted_def Let_def)

lemma top_mux_guarded:
  "p \<in> set (top_mux env cfg) \<Longrightarrow>
     guarded env (rt_Handler p) \<or> p = mk_route ''POST'' (api_path [Lit ''login'']) (login_handler env cfg)"
  unfolding top_mux_def shell_routes_def mirror_routes_def mk_route_def Let_def
  by (auto simp: guarded_auth guarded_limitBody guarded_spa)

text \<open>What the sign-in route touches.\<close>

lemma handleLogin_frame:
  "handleLogin env ck r (w, s) = (w', s') \<Longrightarrow> sv_rows s' = sv_rows s \<and> sv_agent s' = sv_agent s
     \<and> sv_pending s' = sv_pending s \<and> sv_local s' = sv_local s
     \<and> ((\<exists>t. rs_Body w' = TextBody t) \<or> rs_Body w' = JsonBody status_ok)"
  by (auto simp: handleLogin_def Let_def writeJSON_def write_body_def split: option.splits if_splits sum.splits prod.splits)

lemma login_handler_frame:
  assumes "login_handler env cfg r (w, s) = (w', s')"
  shows "sv_rows s' = sv_rows s \<and> sv_agent s' = sv_agent s \<and> sv_pending s' = sv_pending s \<and> sv_local s' = sv_local s
     \<and> ((\<exists>t. rs_Body w' = TextBody t) \<or> rs_Body w' = JsonBody status_ok)"
  using assms
  by (auto simp: login_handler_def limitBody_def requireJSON_def rl_middleware_def put_limiter_def
      split: if_splits prod.splits dest!: handleLogin_frame)

text \<open>A sign-in that does not know the password touches nothing but the rate limiter.\<close>

definition password_offered :: "server_env \<Rightarrow> http_request \<Rightarrow> auth_store \<Rightarrow> bool" where
  "password_offered env r st \<longleftrightarrow>
     (\<exists>p. Option.bind (Option.bind (rq_Json r) struct_fields) (string_field ''password'') = Some p
        \<and> CheckPassword (ae_faults (se_auth env)) (ae_bc_cmp (se_auth env)) p st = Ok True)"

lemma decode_body_Json: "decode_body r = Some j \<Longrightarrow> rq_Json r = Some j"
  by (auto simp: decode_body_def split: option.splits if_splits)

lemma handleLogin_refused:
  assumes "\<not> password_offered env r (sv_auth s)"
  shows "snd (handleLogin env ck r (w, s)) = s"
proof (cases "decode_struct r (string_field ''password'')")
  case (Some p)
  then obtain j where "decode_body r = Some j" "Option.bind (struct_fields j) (string_field ''password'') = Some p"
    by (auto simp: decode_struct_def split: Option.bind_splits)
  then have "CheckPassword (ae_faults (se_auth env)) (ae_bc_cmp (se_auth env)) p (sv_auth s) \<noteq> Ok True"
    using assms decode_body_Json [of r j] by (auto simp: password_offered_def)
  then show ?thesis using Some by (simp add: handleLogin_def Let_def)
qed (simp add: handleLogin_def Let_def)

lemma login_handler_refused:
  assumes "\<not> password_offered env r (sv_auth s)"
  shows "\<exists>rl. snd (login_handler env cfg r (w, s)) = put_limiter rl s"
proof -
  have "s = put_limiter (sv_limiter s) s" by (simp add: put_limiter_def)
  moreover have "snd (handleLogin env ck (r\<lparr>rq_BodyLimit := l\<rparr>) (w, put_limiter rl s)) = put_limiter rl s" for ck l w rl
    using assms by (intro handleLogin_refused) (simp add: password_offered_def put_limiter_def)
  ultimately show ?thesis
    by (auto simp: login_handler_def limitBody_def requireJSON_def rl_middleware_def split: prod.splits)
qed

text \<open>Without a session a request either runs into a guard or reaches the sign-in route.\<close>

definition login_path :: "http_request \<Rightarrow> bool" where
  "login_path r \<longleftrightarrow> rq_Method r = ''POST'' \<and> map pathUnescape (path_segs (rq_EscapedPath r)) = [''api'', ''login'']"

lemma top_mux_unauthenticated:
  assumes "mux_ServeHTTP (top_mux env cfg) r (w0, s) = (w, s')" "public_body (rs_Body w0)"
    "\<not> authenticated (se_auth env) r (sv_auth s)"
  shows "s' = s \<and> public_body (rs_Body w)
     \<or> login_path r \<and> (\<exists>bs. login_handler env cfg (r\<lparr>rq_PathValues := bs\<rparr>) (w0, s) = (w, s'))"
  using assms(1)
proof (cases rule: mux_ServeHTTP_cases)
  case (route p bs)
  from top_mux_guarded [OF route(1)] show ?thesis
  proof
    assume g: "guarded env (rt_Handler p)"
    have "\<not> authenticated (se_auth env) (r\<lparr>rq_PathValues := bs\<rparr>) (sv_auth s)"
      using assms(3) authenticated_cong [of "r\<lparr>rq_PathValues := bs\<rparr>" r] by simp
    then have "s' = s \<and> public_body (rs_Body w)"
      using g route(2) assms(2) unfolding guarded_def by blast
    then show ?thesis ..
  next
    assume p: "p = mk_route ''POST'' (api_path [Lit ''login'']) (login_handler env cfg)"
    have "segs_match [Lit ''api'', Lit ''login''] (path_segs (rq_EscapedPath r))" "rq_Method r = ''POST''"
      using route(3,4) by (simp_all add: p mk_route_def api_path_def)
    moreover have "segs_match [Lit a, Lit b] xs \<Longrightarrow> map pathUnescape xs = [a, b]" for a b xs
      by (cases xs; cases "tl xs"; cases "tl (tl xs)") auto
    ultimately show ?thesis using route(2) by (auto simp: p mk_route_def login_path_def)
  qed
qed (use assms(2) in auto)

text \<open>The headers of the dashboard, set before the multiplexer runs.\<close>

definition secured :: "bool \<Rightarrow> string \<Rightarrow> http_response \<Rightarrow> http_response" where
  "secured httpMode domain w = fst (securityHeaders httpMode domain (\<lambda>_ ws. ws) undefined (w, ()))"

lemma rs_Body_secured [simp]: "rs_Body (secured m d w) = rs_Body w"
  by (simp add: secured_def securityHeaders_def Let_def)

lemma dashboard_secured:
  "dashboard env cfg r (w0, s) = mux_ServeHTTP (top_mux env cfg) r (secured (cf_HTTPMode cfg) (cf_BaseDomain cfg) w0, s)"
  by (simp add: dashboard_def secured_def securityHeaders_def Let_def)

lemma dashboard_mux:
  "dashboard env cfg r (w0, s) = (w, s') \<Longrightarrow>
     mux_ServeHTTP (top_mux env cfg) r (secured (cf_HTTPMode cfg) (cf_BaseDomain cfg) w0, s) = (w, s')"
  by (simp add: dashboard_secured)

section \<open>Facts: which port a host label addresses\<close>

definition addresses :: "project_row \<Rightarrow> string \<Rightarrow> int \<Rightarrow> bool" where
  "addresses row label port \<longleftrightarrow> port \<noteq> 0
     \<and> (label = r_name row \<and> r_assigned_port row = Some port
        \<or> label = r_name row @ ''-dev'' \<and> r_dev_port row = Some port)"

lemma subdomain_handler_hit:
  assumes "rows_ok (sv_rows s)" "\<not> se_project_faults env StSelectByName" "row \<in> set (sv_rows s)"
    "addresses row label port"
  shows "subdomain_handler env cfg label r (w, s) = authMiddleware env (subdomain_proxy env (cf_HTTPMode cfg) port) r (w, s)"
proof -
  have "\<not> HasSuffix (r_name row) ''-dev''"
    using assms(1,3) by (intro valid_name_no_dev) (auto simp: rows_ok_def list_all_iff)
  then show ?thesis
    using assms(4) GetByName_mem [of "sv_rows s" row "se_project_faults env", OF assms(1,3,2)]
    by (auto simp: subdomain_handler_def addresses_def Let_def scanInto_def)
qed

lemma subdomain_handler_miss:
  assumes "\<And>row port. row \<in> set (sv_rows s) \<Longrightarrow> \<not> addresses row label port"
  shows "\<exists>msg. subdomain_handler env cfg label r (w, s) = (http_Error w msg 404, s)"
proof (cases "store_GetByName (se_project_faults env) (TrimSuffix label ''-dev'') (sv_rows s)")
  case (Inl e)
  then show ?thesis by (auto simp: subdomain_handler_def Let_def)
next
  case (Inr proj)
  then obtain row where row: "row \<in> set (sv_rows s)" "r_name row = TrimSuffix label ''-dev''" "proj = scanInto row"
    using GetByName_OkD by blast
  have "(if HasSuffix label ''-dev'' then p_DevPort proj else p_AssignedPort proj) = 0"
    using assms [OF row(1), of "p_DevPort proj"] assms [OF row(1), of "p_AssignedPort proj"] row(2,3)
    by (auto simp: addresses_def scanInto_def HasSuffix_iff split: option.splits)
  then show ?thesis using Inr by (auto simp: subdomain_handler_def Let_def)
qed

lemma NewRouter_subdomain:
  assumes "stripPort (rq_Host r) = label @ ''.'' @ cf_BaseDomain cfg" "cf_BaseDomain cfg \<noteq> []" "label \<noteq> []"
    "stripPort (rq_Host r) \<notin> set (cf_HostAliases cfg)"
  shows "NewRouter env cfg r ws = subdomain_handler env cfg label r ws"
proof -
  let ?suffix = "''.'' @ cf_BaseDomain cfg"
  have "stripPort (rq_Host r) \<noteq> cf_BaseDomain cfg" using assms(1) by auto
  moreover have "HasSuffix (stripPort (rq_Host r)) ?suffix" "TrimSuffix (stripPort (rq_Host r)) ?suffix = label"
    unfolding assms(1) by (rule HasSuffix_append, rule TrimSuffix_append)
  ultimately show ?thesis using assms(2-4) by (simp add: NewRouter_def Let_def)
qed

definition proxied :: "server_env \<Rightarrow> string \<Rightarrow> http_request \<Rightarrow> http_response \<Rightarrow> bool" where
  "proxied env target r w \<longleftrightarrow>
     (\<exists>fwd. rq_Host fwd = target \<and> rq_Cookies fwd = [] \<and> rq_Method fwd = rq_Method r
        \<and> rq_EscapedPath fwd = rq_EscapedPath r \<and> rq_Query fwd = rq_Query r \<and> rq_Json fwd = rq_Json r
        \<and> (case se_roundTrip env (''http://'' @ target) fwd of
             None \<Rightarrow> rs_status w = 502 \<and> rs_Body w = NoBody
           | Some code \<Rightarrow> rs_status w = code \<and> rs_Body w = Upstream (''http://'' @ target) fwd))"

lemma subdomain_proxy_proxied:
  assumes "subdomain_proxy env m port r (w0, s) = (w, s')" "rs_Sent w0 = None" "rs_Body w0 = NoBody"
  shows "s' = s \<and> proxied env (''127.0.0.1:'' @ Itoa port) r w"
proof -
  let ?t = "''127.0.0.1:'' @ Itoa port"
  let ?out = "subdomain_director ?t r"
  let ?fwd = "?out\<lparr>rq_Header := outgoing_header (rq_RemoteAddr r) (rq_Header ?out)\<rparr>"
  show ?thesis
    using assms unfolding proxied_def
    by (intro conjI exI [of _ ?fwd])
      (auto simp: subdomain_proxy_def reverse_proxy_def subdomain_director_def Let_def http_defs split: option.splits if_splits)
qed


section \<open>Facts: requests without a session\<close>

lemma NewRouter_unauthenticated:
  assumes "NewRouter env cfg r (w0, s) = (w, s')" "rs_Body w0 = NoBody"
    "\<not> authenticated (se_auth env) r (sv_auth s)"
  shows "s' = s \<and> public_body (rs_Body w)
     \<or> login_path r \<and> (\<exists>w1 bs. rs_Body w1 = NoBody \<and> login_handler env cfg (r\<lparr>rq_PathValues := bs\<rparr>) (w1, s) = (w, s'))"
proof -
  have dash: ?thesis if d: "dashboard env cfg r (w0, s) = (w, s')"
    using top_mux_unauthenticated [OF dashboard_mux [OF d] _ assms(3)] assms(2) rs_Body_secured
    by (metis public_body.simps(1))
  have sub: "s' = s \<and> public_body (rs_Body w)" if d: "subdomain_handler env cfg name r (w0, s) = (w, s')" for name
  proof -
    have "authMiddleware env (subdomain_proxy env (cf_HTTPMode cfg) port) r (w0, s) = (reject_unauthenticated w0, s)" for port
      using assms(3) by (rule sv_auth_lens.middleware_rejects)
    then show ?thesis using d by (auto simp: subdomain_handler_def Let_def split: sum.splits if_splits)
  qed
  show ?thesis
    using assms(1) dash sub by (auto simp: NewRouter_def Let_def split: if_splits)
qed

lemma NewRouter_outsider:
  assumes "NewRouter env cfg r (w0, s) = (w, s')" "rs_Body w0 = NoBody"
    "\<not> authenticated (se_auth env) r (sv_auth s)" "\<not> password_offered env r (sv_auth s)"
  shows "\<exists>rl. s' = put_limiter rl s"
proof -
  have "\<not> password_offered env (r\<lparr>rq_PathValues := bs\<rparr>) (sv_auth s)" for bs
    using assms(4) by (simp add: password_offered_def)
  then have "\<exists>rl. snd (login_handler env cfg (r\<lparr>rq_PathValues := bs\<rparr>) (w1, s)) = put_limiter rl s" for bs w1
    by (rule login_handler_refused)
  moreover have "s = put_limiter (sv_limiter s) s" by (simp add: put_limiter_def)
  ultimately show ?thesis using NewRouter_unauthenticated [OF assms(1-3)] by (metis snd_conv)
qed

section \<open>Facts: contracts of the whole router\<close>

lemma subdomain_proxy_state [simp]: "snd (subdomain_proxy env m port r (w, s)) = s"
  by (simp add: subdomain_proxy_def reverse_proxy_def Let_def split: option.splits)

text \<open>A contract that the routes of the dashboard meet is met by the router.\<close>

context handler_contract
begin

lemma dashboard: "meets q p R (mux_ServeHTTP (top_mux env cfg)) \<Longrightarrow> meets q p R (dashboard env cfg)"
  by (simp add: meets_def dashboard_secured)

lemma subdomain: "meets q p R (subdomain_handler env cfg name)"
proof (rule meetsI)
  fix r :: http_request and w and s :: "'a server_state"
  assume rs: "q r" "p s"
  have "meets q p R (authMiddleware env (subdomain_proxy env (cf_HTTPMode cfg) port))" for port
    by (rule auth) (simp add: meets_def unchanged)
  then have "R s (snd (authMiddleware env (subdomain_proxy env (cf_HTTPMode cfg) port) r (w, s)))" for port
    using rs unfolding meets_def by blast
  then show "R s (snd (subdomain_handler env cfg name r (w, s)))"
    using rs by (auto simp: subdomain_handler_def Let_def unchanged split: sum.splits)
qed

lemma router: "meets q p R (mux_ServeHTTP (top_mux env cfg)) \<Longrightarrow> meets q p R (NewRouter env cfg)"
  using dashboard subdomain by (simp add: meets_def NewRouter_def Let_def unchanged)

end

text \<open>The handlers that hold the routes' own logic, without the middleware around them.\<close>

definition own_handlers :: "server_env \<Rightarrow> 'a server_config \<Rightarrow> 'a server_state handler list" where
  "own_handlers env cfg =
     [handleListProjects env cfg, handleCreateProject env cfg, handleGetProject env cfg, handleDeleteProject env cfg,
      handleChangePassword env (cf_Cookie cfg), handleGetTerminalBufferSize env, handleSetTerminalBufferSize env,
      handleGetConfig (cf_BaseDomain cfg), handleLogout env (cf_Cookie cfg), handleLogin env (cf_Cookie cfg),
      handleGetEgressLog env, handleGetAllowlist, handleSetAllowlist env, handleGetEgressPending env,
      resolve_reply env True, resolve_reply env False,
      handleShellCreate env, handleShellResize env, handleShellConnect env, handleProjectShellCreate env cfg,
      agentServerProxyHandler env (agent_url cfg) (cf_AgentServerToken cfg),
      agentServerMirrorHandler env (agent_url cfg) (cf_AgentServerToken cfg), spaHandler (cf_webFS cfg)]"

text \<open>A contract of all of them is a contract of the whole router.\<close>

context limited_contract
begin

lemma api:
  assumes "\<And>h. h \<in> set (own_handlers env cfg) \<Longrightarrow> meets q p R h"
  shows "meets q p R (mux_ServeHTTP (api_mux env cfg))"
proof (rule mux, rule assms)
  have "rt_Handler ` set (api_mux env cfg) \<subseteq> set (own_handlers env cfg)"
    by (cases "cf_HasPending cfg") (simp_all add: own_handlers_def api_mux_def project_routes_def settings_routes_def egress_routes_def agent_routes_def
        mk_route_def handleApproveEgressRequest_def handleDenyEgressRequest_def)
  then show "rt \<in> set (api_mux env cfg) \<Longrightarrow> rt_Handler rt \<in> set (own_handlers env cfg)" for rt by blast
qed

lemma all_routes:
  assumes "\<And>h. h \<in> set (own_handlers env cfg) \<Longrightarrow> meets q p R h"
  shows "meets q p R (NewRouter env cfg)"
proof (rule router, rule mux)
  have "\<forall>h \<in> set (own_handlers env cfg). meets q p R h" using assms by blast
  then have own: "meets q p R (handleLogin env (cf_Cookie cfg))" "meets q p R (handleShellCreate env)"
      "meets q p R (handleShellResize env)" "meets q p R (handleShellConnect env)" "meets q p R (handleProjectShellCreate env cfg)"
      "meets q p R (agentServerMirrorHandler env (agent_url cfg) (cf_AgentServerToken cfg))" "meets q p R (spaHandler (cf_webFS cfg))"
    by (simp_all add: own_handlers_def)
  have api: "meets q p R (mux_ServeHTTP (api_mux env cfg))" by (rule api) (rule assms)
  fix rt
  assume "rt \<in> set (top_mux env cfg)"
  then show "meets q p R (rt_Handler rt)"
    by (auto simp: top_mux_def login_handler_def shell_routes_def mirror_routes_def mk_route_def Let_def own api
        intro!: auth limit json limiter)
qed

end

section \<open>Facts: requests without a JSON body\<close>

definition same_data :: "'a server_state \<Rightarrow> 'a server_state \<Rightarrow> bool" where
  "same_data s s' \<longleftrightarrow> sv_rows s' = sv_rows s \<and> sv_agent s' = sv_agent s \<and> sv_pending s' = sv_pending s
     \<and> sv_limiter s' = sv_limiter s \<and> as_settings (sv_auth s') = as_settings (sv_auth s)"

definition form_like :: "http_request \<Rightarrow> bool" where
  "form_like r \<longleftrightarrow> rq_Method r \<notin> {''GET'', ''HEAD'', ''OPTIONS''}
     \<and> \<not> HasPrefix (header_Get (rq_Header r) ''Content-Type'') ''application/json''"

lemma same_data_refl [simp]: "same_data s s"
  by (simp add: same_data_def)

lemma same_data_local [simp]: "same_data s (put_local lm s)"
  by (simp add: same_data_def put_local_def)

lemma form_like_update [simp]:
  "form_like (r\<lparr>rq_BodyLimit := b\<rparr>) = form_like r" "form_like (r\<lparr>rq_PathValues := p\<rparr>) = form_like r"
  by (simp_all add: form_like_def)

text \<open>A form-like request changes no data; it opens a terminal at most if \<open>l\<close>.\<close>

definition data_kept :: "bool \<Rightarrow> 'a server_state \<Rightarrow> 'a server_state \<Rightarrow> bool" where
  "data_kept l s s' \<longleftrightarrow> same_data s s' \<and> (sv_local s' = sv_local s \<or> l)"

abbreviation keeps :: "bool \<Rightarrow> 'a server_state handler \<Rightarrow> bool" where
  "keeps l \<equiv> meets form_like (\<lambda>_. True) (data_kept l)"

interpretation kept: handler_contract form_like "\<lambda>_. True" "data_kept l" for l
  by unfold_locales (auto simp: same_data_def data_kept_def)

lemma keeps_requireJSON: "keeps l (requireJSON h)"
  by (rule meetsI) (simp add: requireJSON_def form_like_def data_kept_def)

lemma keeps_spa: "keeps l (spaHandler webFS)"
  by (rule meetsI) (simp add: spaHandler_def data_kept_def Let_def)

lemma keeps_handlers:
  "keeps True (handleShellCreate env)" "keeps True (handleProjectShellCreate env cfg)"
  "keeps l (handleShellConnect env)" "keeps l (agentServerMirrorHandler env url token)"
  by (auto intro!: meetsI simp: data_kept_def handleShellCreate_def handleProjectShellCreate_def handleShellConnect_def
      agentServerMirrorHandler_def invalid_backend_def Let_def reverse_proxy_def split: sum.splits prod.splits option.splits)

lemma keeps_login: "keeps l (login_handler env cfg)"
  unfolding login_handler_def by (intro kept.limit keeps_requireJSON)

lemma segs_match_lits:
  "segs_match [Lit a, Lit b] xs \<Longrightarrow> map pathUnescape xs = [a, b]"
  "segs_match [Lit a, Lit b, Wild n, Lit c] xs \<Longrightarrow> \<exists>x. map pathUnescape xs = [a, b, x, c]"
  by (auto elim!: segs_match.elims)

definition shell_path :: "http_request \<Rightarrow> bool" where
  "shell_path r \<longleftrightarrow> rq_Method r = ''POST'' \<and>
     (\<exists>x. map pathUnescape (path_segs (rq_EscapedPath r)) \<in> {[''api'', ''shell''], [''api'', ''projects'', x, ''shell'']})"

lemma top_mux_keeps:
  "p \<in> set (top_mux env cfg) \<Longrightarrow> keeps False (rt_Handler p)
     \<or> keeps True (rt_Handler p) \<and> rt_Method p = ''POST''
       \<and> rt_Segs p \<in> {api_path [Lit ''shell''], api_path [Lit ''projects'', Wild ''id'', Lit ''shell'']}"
  unfolding top_mux_def shell_routes_def mirror_routes_def mk_route_def Let_def
  by (auto simp: kept.auth kept.limit keeps_requireJSON keeps_spa keeps_handlers keeps_login)

lemma top_mux_form_like:
  assumes "mux_ServeHTTP (top_mux env cfg) r (w0, s) = (w, s')" "form_like r"
  shows "same_data s s' \<and> (sv_local s' = sv_local s \<or> shell_path r)"
  using assms(1)
proof (cases rule: mux_ServeHTTP_cases)
  case (route p bs)
  have f: "form_like (r\<lparr>rq_PathValues := bs\<rparr>)" using assms(2) by simp
  from top_mux_keeps [OF route(1)] show ?thesis
  proof
    assume "keeps False (rt_Handler p)"
    from meetsD [OF this f TrueI route(2)] show ?thesis by (simp add: data_kept_def)
  next
    assume k: "keeps True (rt_Handler p) \<and> rt_Method p = ''POST''
       \<and> rt_Segs p \<in> {api_path [Lit ''shell''], api_path [Lit ''projects'', Wild ''id'', Lit ''shell'']}"
    then have "rq_Method r = ''POST''" using route(3) by auto
    moreover have "\<exists>x. map pathUnescape (path_segs (rq_EscapedPath r)) \<in> {[''api'', ''shell''], [''api'', ''projects'', x, ''shell'']}"
      using k route(4) segs_match_lits(1) [of _ _ "path_segs (rq_EscapedPath r)"] segs_match_lits(2) [of _ _ _ _ "path_segs (rq_EscapedPath r)"] by (auto simp: api_path_def)
    ultimately show ?thesis using meetsD [OF conjunct1 [OF k] f TrueI route(2)] by (simp add: shell_path_def data_kept_def)
  qed
qed simp_all

section \<open>Properties\<close>

text \<open>
  C2: The gate. A request without a valid session - whatever its method, host, path and body, and
  whether it is aimed at the dashboard or at a project's subdomain - changes nothing in the server
  and gets nothing but an error text, a redirect or a static file; the only exception is POST
  /api/login, which can change the rate limiter and, if it carries the right password, the sessions,
  but no project, no pending egress request, no allowlist and no terminal, and at best answers that
  the sign-in worked.
\<close>

theorem unauthenticated_confined:
  assumes "NewRouter env cfg r (w0, s) = (w, s')" "rs_Body w0 = NoBody"
    "\<not> authenticated (se_auth env) r (sv_auth s)"
  shows "s' = s \<and> public_body (rs_Body w)
     \<or> rq_Method r = ''POST'' \<and> map pathUnescape (path_segs (rq_EscapedPath r)) = [''api'', ''login'']
       \<and> sv_rows s' = sv_rows s \<and> sv_agent s' = sv_agent s \<and> sv_pending s' = sv_pending s \<and> sv_local s' = sv_local s
       \<and> (public_body (rs_Body w) \<or> rs_Body w = JsonBody status_ok)
       \<and> (password_offered env r (sv_auth s) \<or> sv_auth s' = sv_auth s)"
proof -
  have "sv_auth s' = sv_auth s" if "\<not> password_offered env r (sv_auth s)"
    using NewRouter_outsider [OF assms that] by (auto simp: put_limiter_def)
  then show ?thesis
    using NewRouter_unauthenticated [OF assms] unfolding login_path_def by (auto dest!: login_handler_frame)
qed

definition list_request :: http_request where
  "list_request = base_request\<lparr>rq_Host := ''appx.test'', rq_Path := ''/api/projects'', rq_EscapedPath := ''/api/projects''\<rparr>"

theorem unauthenticated_confined_witness:
  "snd (NewRouter demo_env demo_config list_request (new_response, agent_server)) = agent_server"
proof -
  let ?p = "NewRouter demo_env demo_config list_request (new_response, agent_server)"
  have "?p = (fst ?p, snd ?p)" "rs_Body new_response = NoBody"
    "\<not> authenticated (se_auth demo_env) list_request (sv_auth agent_server)"
    by (simp_all add: new_response_def authenticated_def request_Cookie_def list_request_def base_request_def)
  from unauthenticated_confined [OF this] show ?thesis by (auto simp: list_request_def base_request_def)
qed

text \<open>
  C18: Subdomains. For a request to \<open>label\<close>.base-domain, with a consistent project table: if the label is
  the name of a project, or that name followed by -dev, and the addressed environment has a port, an
  authenticated request is forwarded to 127.0.0.1 on exactly that port - production or development -
  with the same method, path, query and body, without the client's cookies, and the answer is the
  upstream's (502 when the upstream cannot be reached); an unauthenticated one gets the sign-in
  answer. Every other label gets 404. No project record changes.
\<close>

theorem subdomain_routing:
  assumes "NewRouter env cfg r (w0, s) = (w, s')" "rs_Sent w0 = None" "rs_Body w0 = NoBody"
    "stripPort (rq_Host r) = label @ ''.'' @ cf_BaseDomain cfg" "cf_BaseDomain cfg \<noteq> []" "label \<noteq> []"
    "stripPort (rq_Host r) \<notin> set (cf_HostAliases cfg)"
    "rows_ok (sv_rows s)" "\<not> se_project_faults env StSelectByName"
  shows "(\<forall>row \<in> set (sv_rows s). \<forall>port. addresses row label port \<longrightarrow>
      (if authenticated (se_auth env) r (sv_auth s)
       then proxied env (''127.0.0.1:'' @ Itoa port) r w \<and> sv_rows s' = sv_rows s
       else w = reject_unauthenticated w0 \<and> s' = s))
    \<and> ((\<forall>row \<in> set (sv_rows s). \<forall>port. \<not> addresses row label port) \<longrightarrow> rs_status w = 404 \<and> s' = s)"
proof (intro conjI ballI allI impI)
  have h: "subdomain_handler env cfg label r (w0, s) = (w, s')"
    using assms(1) NewRouter_subdomain [OF assms(4-7)] by simp
  fix row port
  assume "row \<in> set (sv_rows s)" "addresses row label port"
  then have a: "authMiddleware env (subdomain_proxy env (cf_HTTPMode cfg) port) r (w0, s) = (w, s')"
    using h subdomain_handler_hit [OF assms(8,9)] by metis
  show "if authenticated (se_auth env) r (sv_auth s)
       then proxied env (''127.0.0.1:'' @ Itoa port) r w \<and> sv_rows s' = sv_rows s
       else w = reject_unauthenticated w0 \<and> s' = s"
  proof (cases "authenticated (se_auth env) r (sv_auth s)")
    case True
    with a subdomain_proxy_proxied [OF _ assms(2,3)] show ?thesis
      by (fastforce simp: sv_auth_lens.middleware_accepts [OF True])
  next
    case False
    with a sv_auth_lens.middleware_rejects [OF False] show ?thesis by simp
  qed
next
  assume "\<forall>row \<in> set (sv_rows s). \<forall>port. \<not> addresses row label port"
  with subdomain_handler_miss [of s label env cfg r w0] assms(1,2) NewRouter_subdomain [OF assms(4-7)]
  show "rs_status w = 404" "s' = s" by auto
qed

definition session_cookie :: "(string \<times> string) list" where
  "session_cookie = [(''appx_session'', [CHR 0x01])]"

definition shop_dev_request :: http_request where
  "shop_dev_request = base_request\<lparr>rq_Host := ''shop-dev.appx.test:443'', rq_Cookies := session_cookie\<rparr>"

theorem subdomain_routing_witness:
  "\<exists>fwd. rs_Body (fst (NewRouter demo_env demo_config shop_dev_request (new_response, agent_server))) =
       Upstream ''http://127.0.0.1:10001'' fwd \<and> rq_Cookies fwd = []"
proof -
  let ?p = "NewRouter demo_env demo_config shop_dev_request (new_response, agent_server)"
  let ?row = "new_row ''u7'' ''shop'' 10000 10001 0"
  have b: "cf_BaseDomain demo_config = ''appx.test''" "cf_HostAliases demo_config = []"
    "se_project_faults demo_env = no_faults" "rs_Sent new_response = None" "rs_Body new_response = NoBody"
    by (simp_all add: demo_config_def demo_env_def new_response_def)
  have h: "stripPort (rq_Host shop_dev_request) = ''shop-dev.appx.test''" by code_simp
  have "?p = (fst ?p, snd ?p)" "rs_Sent new_response = None" "rs_Body new_response = NoBody"
    "stripPort (rq_Host shop_dev_request) = ''shop-dev'' @ ''.'' @ cf_BaseDomain demo_config"
    "cf_BaseDomain demo_config \<noteq> []" "''shop-dev'' \<noteq> []"
    "stripPort (rq_Host shop_dev_request) \<notin> set (cf_HostAliases demo_config)"
    by (simp_all add: b h)
  note route = subdomain_routing [OF this agent_server_rows]
  have "addresses ?row ''shop-dev'' 10001" "?row \<in> set (sv_rows agent_server)"
    by (simp_all add: addresses_def agent_server_def)
  moreover have "authenticated (se_auth demo_env) shop_dev_request (sv_auth agent_server)" by code_simp
  moreover have "digit_char 0 = CHR ''0''" "digit_char 1 = CHR ''1''" by code_simp+
  then have "Itoa 10001 = ''10001''" by (simp add: Itoa_def nat_digits.simps)
  moreover have "se_roundTrip demo_env x f = Some 200" for x f by (simp add: demo_env_def)
  ultimately show ?thesis using route by (fastforce simp: b no_faults_def proxied_def)
qed


definition form_delete :: http_request where
  "form_delete = base_request\<lparr>rq_Method := ''DELETE'', rq_Host := ''appx.test'', rq_Path := ''/api/projects/u7'',
     rq_EscapedPath := ''/api/projects/u7'', rq_Cookies := session_cookie\<rparr>"


end
