(* ===== verification/Container_Spec.thy ===== *)
theory Container_Spec
  imports Project_Model "HOL-Library.Char_ord" "HOL-Library.List_Lexorder"
begin

text \<open>
  The outer container (\<^verbatim>\<open>internal/containerruntime/spec.go\<close>, the configuration and \<open>BuildSpec\<close> of
  \<^verbatim>\<open>config.go\<close>, the drift check of \<^verbatim>\<open>supervisor.go\<close>, the pinned release of \<^verbatim>\<open>agentversion.go\<close>). The
  environment of a container is a Go map; \<open>order\<close> is the order in which a loop over it happens to
  visit its keys.
\<close>

section \<open>The pinned release\<close>

definition agentVersionFile :: string where
  "agentVersionFile = ''0.3.0'' @ [CHR 0x0A]"

definition AgentVersion :: string where
  "AgentVersion = TrimSpace agentVersionFile"

definition AgentImageRepo :: string where
  "AgentImageRepo = ''ghcr.io/appx-org/agent-server''"

definition AgentImage :: string where
  "AgentImage = AgentImageRepo @ '':'' @ AgentVersion"

section \<open>The container\<close>

record volume_mount =
  vm_Name :: string
  vm_Dest :: string

record container_spec =
  sp_Image :: string
  sp_Name :: string
  sp_SeccompProfilePath :: string
  sp_APIBindHost :: string
  sp_APIPort :: int
  sp_AppBindHost :: string
  sp_AppPortStart :: int
  sp_AppPortEnd :: int
  sp_Volumes :: "volume_mount list"
  sp_Env :: "string \<rightharpoonup> string"
  sp_EnvPassthrough :: "string list"
  sp_AddHosts :: "string list"
  sp_Memory :: string
  sp_CPUs :: string
  sp_ReadinessURL :: string
  sp_RestartPolicy :: string

definition sortedEnv :: "string list \<Rightarrow> (string \<rightharpoonup> string) \<Rightarrow> string list" where
  "sortedEnv order env = map (\<lambda>k. k @ ''='' @ (case env k of Some v \<Rightarrow> v | None \<Rightarrow> [])) (sort order)"

definition opt_flag :: "string \<Rightarrow> string \<Rightarrow> string list" where
  "opt_flag f v = (if v \<noteq> [] then [f, v] else [])"

definition each_flag :: "string \<Rightarrow> string list \<Rightarrow> string list" where
  "each_flag f vs = concat (map (\<lambda>v. [f, v]) vs)"

definition RunArgs :: "string list \<Rightarrow> container_spec \<Rightarrow> string list" where
  "RunArgs order s =
     [''run'', ''-d'', ''--name'', sp_Name s,
      ''--device'', ''/dev/net/tun'',
      ''--security-opt'', ''seccomp='' @ sp_SeccompProfilePath s,
      ''--security-opt'', ''apparmor=unconfined'',
      ''--security-opt'', ''systempaths=unconfined'']
     @ opt_flag ''--restart'' (sp_RestartPolicy s)
     @ opt_flag ''--memory'' (sp_Memory s)
     @ opt_flag ''--cpus'' (sp_CPUs s)
     @ each_flag ''--add-host'' (sp_AddHosts s)
     @ each_flag ''-e'' (sp_EnvPassthrough s)
     @ each_flag ''-e'' (sortedEnv order (sp_Env s))
     @ each_flag ''-v'' (map (\<lambda>v. vm_Name v @ '':'' @ vm_Dest v) (sp_Volumes s))
     @ [''-p'', sp_APIBindHost s @ '':'' @ Itoa (sp_APIPort s) @ '':'' @ Itoa (sp_APIPort s)]
     @ [''-p'', sp_AppBindHost s @ '':'' @ Itoa (sp_AppPortStart s) @ ''-'' @ Itoa (sp_AppPortEnd s)
                @ '':'' @ Itoa (sp_AppPortStart s) @ ''-'' @ Itoa (sp_AppPortEnd s)]
     @ [sp_Image s]"

text \<open>The fields that \<open>Validate\<close> finds missing; the error carries this list.\<close>

definition Validate :: "container_spec \<Rightarrow> string list" where
  "Validate s =
     (if sp_Image s = [] then [''image''] else [])
     @ (if sp_Name s = [] then [''name''] else [])
     @ (if sp_SeccompProfilePath s = [] then [''seccomp profile path''] else [])
     @ (if sp_APIPort s = 0 then [''API port''] else [])
     @ (if sp_AppPortStart s = 0 \<or> sp_AppPortEnd s = 0 then [''app port range''] else [])
     @ (if sp_ReadinessURL s = [] then [''readiness URL''] else [])"

section \<open>The configuration\<close>

record container_config =
  oc_Image :: string
  oc_Name :: string
  oc_SeccompProfilePath :: string
  oc_APIBindHost :: string
  oc_APIPort :: int
  oc_AppBindHost :: string
  oc_AppPortStart :: int
  oc_AppPortEnd :: int
  oc_WorkspaceVolume :: string
  oc_PodmanVolume :: string
  oc_Token :: string
  oc_EnvPassthrough :: "string list"
  oc_HostGateway :: string
  oc_EgressProxyURL :: string
  oc_NoProxy :: string
  oc_Memory :: string
  oc_CPUs :: string
  oc_ReadinessURL :: string
  oc_RestartPolicy :: string

definition DefaultImage :: string where
  "DefaultImage = AgentImage"

definition DefaultName :: string where
  "DefaultName = ''builder-outer''"

definition DefaultWorkspaceVolume :: string where
  "DefaultWorkspaceVolume = ''builder-workspace''"

definition DefaultPodmanVolume :: string where
  "DefaultPodmanVolume = ''builder-podman-storage''"

definition DefaultPodmanDest :: string where
  "DefaultPodmanDest = ''/home/builder/.local/share/containers''"

definition DefaultWorkspaceDest :: string where
  "DefaultWorkspaceDest = ''/workspace''"

definition DefaultBindHost :: string where
  "DefaultBindHost = ''127.0.0.1''"

definition DefaultRestartPolicy :: string where
  "DefaultRestartPolicy = ''unless-stopped''"

definition DefaultMemory :: string where
  "DefaultMemory = ''4g''"

definition DefaultCPUs :: string where
  "DefaultCPUs = ''2.0''"

definition UnlimitedResources :: string where
  "UnlimitedResources = ''unlimited''"

definition or_default :: "string \<Rightarrow> string \<Rightarrow> string" where
  "or_default v d = (if v = [] then d else v)"

definition ceiling_or :: "string \<Rightarrow> string \<Rightarrow> string" where
  "ceiling_or v d = (let v1 = or_default v d in if v1 = UnlimitedResources then [] else v1)"

definition container_env :: "container_config \<Rightarrow> string \<rightharpoonup> string" where
  "container_env cfg =
     (let e0 = [''WORKSPACE_DIR'' \<mapsto> DefaultWorkspaceDest];
          e1 = (if oc_Token cfg \<noteq> [] then e0(''AGENT_SERVER_TOKEN'' \<mapsto> oc_Token cfg) else e0) in
      if oc_EgressProxyURL cfg \<noteq> [] then
        let e2 = e1(''HTTPS_PROXY'' \<mapsto> oc_EgressProxyURL cfg, ''NODE_USE_ENV_PROXY'' \<mapsto> ''1'') in
        (if oc_NoProxy cfg \<noteq> [] then e2(''NO_PROXY'' \<mapsto> oc_NoProxy cfg) else e2)
      else e1)"

definition BuildSpec :: "container_config \<Rightarrow> container_spec" where
  "BuildSpec cfg =
     \<lparr>sp_Image = or_default (oc_Image cfg) DefaultImage,
      sp_Name = or_default (oc_Name cfg) DefaultName,
      sp_SeccompProfilePath = oc_SeccompProfilePath cfg,
      sp_APIBindHost = or_default (oc_APIBindHost cfg) DefaultBindHost,
      sp_APIPort = oc_APIPort cfg,
      sp_AppBindHost = or_default (oc_AppBindHost cfg) DefaultBindHost,
      sp_AppPortStart = oc_AppPortStart cfg,
      sp_AppPortEnd = oc_AppPortEnd cfg,
      sp_Volumes = [\<lparr>vm_Name = or_default (oc_WorkspaceVolume cfg) DefaultWorkspaceVolume, vm_Dest = DefaultWorkspaceDest\<rparr>,
                    \<lparr>vm_Name = or_default (oc_PodmanVolume cfg) DefaultPodmanVolume, vm_Dest = DefaultPodmanDest\<rparr>],
      sp_Env = container_env cfg,
      sp_EnvPassthrough = oc_EnvPassthrough cfg,
      sp_AddHosts = (if oc_HostGateway cfg \<noteq> [] then [''host.docker.internal:'' @ oc_HostGateway cfg] else []),
      sp_Memory = ceiling_or (oc_Memory cfg) DefaultMemory,
      sp_CPUs = ceiling_or (oc_CPUs cfg) DefaultCPUs,
      sp_ReadinessURL = oc_ReadinessURL cfg,
      sp_RestartPolicy = or_default (oc_RestartPolicy cfg) DefaultRestartPolicy\<rparr>"

section \<open>Drift\<close>

text \<open>What is observed of a container; \<open>st_PublishedPorts\<close> holds the keys that map to true.\<close>

record container_status =
  st_Exists :: bool
  st_Running :: bool
  st_State :: string
  st_Image :: string
  st_ImageID :: string
  st_PublishedPorts :: "string list"

datatype drift_reason = ImageDrift string string | PortNotPublished string

definition port_key :: "int \<Rightarrow> string" where
  "port_key p = Itoa p @ ''/tcp''"

definition driftReasons :: "container_spec \<Rightarrow> container_status \<Rightarrow> drift_reason list" where
  "driftReasons s status =
     (if st_Image status \<noteq> sp_Image s then [ImageDrift (st_Image status) (sp_Image s)] else [])
     @ map (\<lambda>p. PortNotPublished (port_key p))
         (filter (\<lambda>p. port_key p \<notin> set (st_PublishedPorts status)) [sp_APIPort s, sp_AppPortStart s, sp_AppPortEnd s])"

section \<open>Facts: reading the command line\<close>

text \<open>
  How docker reads the arguments after \<^verbatim>\<open>run\<close>: \<^verbatim>\<open>-d\<close> takes no value, any other option takes the next
  argument as its value, and the first argument that is no option is the image; what follows it
  is the command. The result lists the options with their values, and the rest.
\<close>

fun read_options :: "string list \<Rightarrow> (string \<times> string) list \<times> string list" where
  "read_options (f # v # rest) =
     (if \<not> HasPrefix f ''-'' then ([], f # v # rest)
      else if f = ''-d'' then (case read_options (v # rest) of (fs, r) \<Rightarrow> ((f, []) # fs, r))
      else (case read_options rest of (fs, r) \<Rightarrow> ((f, v) # fs, r)))"
| "read_options rest = ([], rest)"

definition value_option :: "string \<Rightarrow> bool" where
  "value_option f \<longleftrightarrow> HasPrefix f ''-'' \<and> f \<noteq> ''-d''"

lemma read_value_option:
  "value_option f \<Longrightarrow> read_options (f # v # rest) = ((f, v) # fst (read_options rest), snd (read_options rest))"
  by (simp add: value_option_def split: prod.splits)

lemma read_opt_flag:
  "value_option f \<Longrightarrow> read_options (opt_flag f v @ rest) =
     ((if v \<noteq> [] then [(f, v)] else []) @ fst (read_options rest), snd (read_options rest))"
  by (simp add: opt_flag_def read_value_option del: read_options.simps)

lemma read_each_flag:
  "value_option f \<Longrightarrow> read_options (each_flag f vs @ rest) =
     (map (Pair f) vs @ fst (read_options rest), snd (read_options rest))"
  by (induction vs) (simp_all add: each_flag_def read_value_option del: read_options.simps)

lemma value_options:
  "value_option ''--name''" "value_option ''--device''" "value_option ''--security-opt''" "value_option ''--restart''"
  "value_option ''--memory''" "value_option ''--cpus''" "value_option ''--add-host''" "value_option ''-e''"
  "value_option ''-v''" "value_option ''-p''"
  by (simp_all add: value_option_def HasPrefix_def)

text \<open>All options of the command, as docker reads them.\<close>

definition run_options :: "string list \<Rightarrow> container_spec \<Rightarrow> (string \<times> string) list" where
  "run_options order s = fst (read_options (tl (RunArgs order s)))"

definition option_values :: "string \<Rightarrow> (string \<times> string) list \<Rightarrow> string list" where
  "option_values f opts = map snd (filter (\<lambda>p. fst p = f) opts)"

definition set_values :: "string \<Rightarrow> string list" where
  "set_values v = (if v \<noteq> [] then [v] else [])"

lemma read_RunArgs:
  assumes "\<not> HasPrefix (sp_Image s) ''-''"
  shows "read_options (tl (RunArgs order s)) =
    ([(''-d'', []), (''--name'', sp_Name s), (''--device'', ''/dev/net/tun''),
      (''--security-opt'', ''seccomp='' @ sp_SeccompProfilePath s), (''--security-opt'', ''apparmor=unconfined''),
      (''--security-opt'', ''systempaths=unconfined'')]
     @ map (Pair ''--restart'') (set_values (sp_RestartPolicy s))
     @ map (Pair ''--memory'') (set_values (sp_Memory s)) @ map (Pair ''--cpus'') (set_values (sp_CPUs s))
     @ map (Pair ''--add-host'') (sp_AddHosts s) @ map (Pair ''-e'') (sp_EnvPassthrough s @ sortedEnv order (sp_Env s))
     @ map (Pair ''-v'') (map (\<lambda>v. vm_Name v @ '':'' @ vm_Dest v) (sp_Volumes s))
     @ map (Pair ''-p'') [sp_APIBindHost s @ '':'' @ Itoa (sp_APIPort s) @ '':'' @ Itoa (sp_APIPort s),
          sp_AppBindHost s @ '':'' @ Itoa (sp_AppPortStart s) @ ''-'' @ Itoa (sp_AppPortEnd s)
                @ '':'' @ Itoa (sp_AppPortStart s) @ ''-'' @ Itoa (sp_AppPortEnd s)],
     [sp_Image s])"
proof -
  have d: "read_options (''-d'' # v # rest) = ((''-d'', []) # fst (read_options (v # rest)), snd (read_options (v # rest)))"
    for v rest by (simp add: HasPrefix_def split: prod.splits)
  note read = d read_value_option [OF value_options(1)] read_value_option [OF value_options(2)]
    read_value_option [OF value_options(3)] read_value_option [OF value_options(10)]
    read_opt_flag [OF value_options(4)] read_opt_flag [OF value_options(5)] read_opt_flag [OF value_options(6)]
    read_each_flag [OF value_options(7)] read_each_flag [OF value_options(8)] read_each_flag [OF value_options(9)]
  show ?thesis
    by (simp add: RunArgs_def set_values_def read del: read_options.simps(1))
qed

lemma sortedEnv_order:
  "distinct order \<Longrightarrow> distinct order' \<Longrightarrow> set order = set order' \<Longrightarrow> sortedEnv order env = sortedEnv order' env"
proof -
  assume "distinct order" "distinct order'" "set order = set order'"
  then have "sort order = sort order'" by (intro sorted_distinct_set_unique) auto
  then show ?thesis by (simp add: sortedEnv_def)
qed

lemma Validate_Nil:
  "Validate s = [] \<longleftrightarrow> sp_Image s \<noteq> [] \<and> sp_Name s \<noteq> [] \<and> sp_SeccompProfilePath s \<noteq> [] \<and> sp_APIPort s \<noteq> 0
     \<and> sp_AppPortStart s \<noteq> 0 \<and> sp_AppPortEnd s \<noteq> 0 \<and> sp_ReadinessURL s \<noteq> []"
  by (auto simp: Validate_def)

lemma option_values_append [simp]: "option_values f (a @ b) = option_values f a @ option_values f b"
  by (simp add: option_values_def)

lemma option_values_Pair_map [simp]: "option_values f (map (Pair g \<circ> h) vs) = (if f = g then map h vs else [])"
  by (induction vs) (auto simp: option_values_def)

lemma option_values_Pair [simp]: "option_values f (map (Pair g) vs) = (if f = g then vs else [])"
  using option_values_Pair_map [of f g "\<lambda>x. x" vs] by (simp add: comp_def)

lemma option_values_Cons [simp]:
  "option_values f ((g, v) # opts) = (if f = g then [v] else []) @ option_values f opts"
  by (simp add: option_values_def)

lemma option_values_Nil [simp]: "option_values f [] = []"
  by (simp add: option_values_def)

lemma sortedEnv_mem: "set order = dom env \<Longrightarrow> env k = Some v \<Longrightarrow> k @ ''='' @ v \<in> set (sortedEnv order env)"
  by (force simp: sortedEnv_def)

lemma run_options_env:
  "\<not> HasPrefix (sp_Image s) ''-'' \<Longrightarrow>
     option_values ''-e'' (run_options order s) = sp_EnvPassthrough s @ sortedEnv order (sp_Env s)"
  unfolding run_options_def read_RunArgs by simp

section \<open>Properties\<close>


end
