(* ===== verification/Container_Docker.thy ===== *)
theory Container_Docker
  imports Container_Spec Go_Http
begin

text \<open>
  Supervision of the outer container through the docker command line
  (\<^verbatim>\<open>internal/containerruntime/docker.go\<close>, errors of \<^verbatim>\<open>supervisor.go\<close>). Running a command is an argument,
  the \<open>runner\<close>, over the state \<open>'d\<close> of the container runtime; so are the JSON parser, the transport of
  the readiness probe, and the clock. Logging is left out.
\<close>

section \<open>Commands\<close>

record run_result =
  rr_Stdout :: string
  rr_Stderr :: string
  rr_Err :: "string option"

type_synonym 'd runner = "string \<Rightarrow> string list \<Rightarrow> 'd \<Rightarrow> run_result \<times> 'd"

text \<open>A probe of a URL at an instant: an error or none, and how long it took.\<close>

type_synonym probe = "string \<Rightarrow> instant \<Rightarrow> string option \<times> duration"

datatype container_error =
    IncompleteSpec "string list" | DaemonUnavailable string | ImageMissing string string
  | Unhealthy string string string | SpecDrift string "drift_reason list"
  | CommandFailed string string string | ParseFailed

record 'd docker_supervisor =
  ds_bin :: string
  ds_runner :: "'d runner"
  ds_ping :: "probe option"
  ds_readyTimeout :: duration
  ds_pollInterval :: duration

type_synonym 'd ds_option = "'d docker_supervisor \<Rightarrow> 'd docker_supervisor"

definition WithRunner :: "'d runner \<Rightarrow> 'd ds_option" where
  "WithRunner r d = d\<lparr>ds_runner := r\<rparr>"

definition WithPing :: "probe \<Rightarrow> 'd ds_option" where
  "WithPing p d = d\<lparr>ds_ping := Some p\<rparr>"

definition WithReadyTimeout :: "duration \<Rightarrow> 'd ds_option" where
  "WithReadyTimeout t d = d\<lparr>ds_readyTimeout := t\<rparr>"

definition WithPollInterval :: "duration \<Rightarrow> 'd ds_option" where
  "WithPollInterval t d = d\<lparr>ds_pollInterval := t\<rparr>"

text \<open>Any HTTP response counts as an answer; \<open>get\<close> is the transport with the five-second timeout.\<close>

definition defaultPing :: "(string \<Rightarrow> instant \<Rightarrow> (string, int) result \<times> duration) \<Rightarrow> probe" where
  "defaultPing get url now =
     (case get url now of (Inl e, t) \<Rightarrow> (Some e, t) | (Inr code, t) \<Rightarrow> (None, t))"

definition NewDockerSupervisor ::
  "'d runner \<Rightarrow> (string \<Rightarrow> instant \<Rightarrow> (string, int) result \<times> duration) \<Rightarrow> string \<Rightarrow> 'd ds_option list
     \<Rightarrow> 'd docker_supervisor" where
  "NewDockerSupervisor execRunner get bin opts =
     (let d = foldl (\<lambda>d oo. oo d)
                \<lparr>ds_bin = bin, ds_runner = execRunner, ds_ping = None, ds_readyTimeout = 90 * second,
                 ds_pollInterval = second\<rparr> opts in
      case ds_ping d of None \<Rightarrow> d\<lparr>ds_ping := Some (defaultPing get)\<rparr> | Some _ \<Rightarrow> d)"

section \<open>Reading error output\<close>

definition isDaemonUnavailable :: "string \<Rightarrow> bool" where
  "isDaemonUnavailable stderr =
     (let s = ToLower stderr in
      Contains s ''cannot connect to the docker daemon'' \<or> Contains s ''is the docker daemon running''
      \<or> Contains s ''cannot connect to podman'' \<or> Contains s ''permission denied while trying to connect''
      \<or> Contains s ''command not found'' \<or> Contains s ''executable file not found'')"

definition isNoSuchObject :: "string \<Rightarrow> bool" where
  "isNoSuchObject stderr =
     (let s = ToLower stderr in Contains s ''no such object'' \<or> Contains s ''no such container'')"

definition isImageMissing :: "string \<Rightarrow> bool" where
  "isImageMissing stderr =
     (let s = ToLower stderr in
      Contains s ''unable to find image'' \<or> Contains s ''manifest unknown'' \<or> Contains s ''no such image''
      \<or> Contains s ''image not known'' \<or> Contains s ''pull access denied'')"

section \<open>Inspecting\<close>

text \<open>Decoding into nested structs: several values of one field are decoded into the same struct.\<close>

fun all_objects :: "json list \<Rightarrow> (string \<times> json) list option" where
  "all_objects [] = Some []"
| "all_objects (JObj fs # js) = map_option (\<lambda>r. fs @ r) (all_objects js)"
| "all_objects (_ # js) = None"

definition object_field :: "string \<Rightarrow> (string \<times> json) list \<Rightarrow> (string \<times> json) list option" where
  "object_field k fs = all_objects (map snd (filter (\<lambda>p. ToLower (fst p) = ToLower k \<and> snd p \<noteq> JNull) fs))"

definition bool_field :: "string \<Rightarrow> (string \<times> json) list \<Rightarrow> bool option" where
  "bool_field k fs =
     (case json_field k fs of None \<Rightarrow> Some False | Some (JBool b) \<Rightarrow> Some b | Some _ \<Rightarrow> None)"

definition binding_ok :: "json \<Rightarrow> bool" where
  "binding_ok j =
     (case struct_fields j of
        None \<Rightarrow> False | Some fs \<Rightarrow> string_field ''HostIp'' fs \<noteq> None \<and> string_field ''HostPort'' fs \<noteq> None)"

fun binding_count :: "json \<Rightarrow> nat option" where
  "binding_count JNull = Some 0"
| "binding_count (JArr js) = (if list_all binding_ok js then Some (length js) else None)"
| "binding_count _ = None"

fun port_bindings :: "(string \<times> json) list \<Rightarrow> (string \<times> nat) list option" where
  "port_bindings [] = Some []"
| "port_bindings ((k, j) # fs) =
     Option.bind (binding_count j) (\<lambda>n. map_option (\<lambda>r. (k, n) # r) (port_bindings fs))"

definition published :: "(string \<times> nat) list \<Rightarrow> string list" where
  "published bs = filter (\<lambda>k. map_of (rev bs) k \<noteq> Some 0) (map fst bs)"

definition decode_inspect :: "json \<Rightarrow> container_status option" where
  "decode_inspect j =
     Option.bind (struct_fields j) (\<lambda>fs.
     Option.bind (object_field ''State'' fs) (\<lambda>state.
     Option.bind (string_field ''Status'' state) (\<lambda>status.
     Option.bind (bool_field ''Running'' state) (\<lambda>running.
     Option.bind (object_field ''Config'' fs) (\<lambda>config.
     Option.bind (string_field ''Image'' config) (\<lambda>image.
     Option.bind (string_field ''Image'' fs) (\<lambda>imageID.
     Option.bind (object_field ''HostConfig'' fs) (\<lambda>host.
     Option.bind (object_field ''PortBindings'' host) (\<lambda>ports.
     map_option (\<lambda>bs. \<lparr>st_Exists = True, st_Running = running, st_State = status, st_Image = image,
          st_ImageID = imageID, st_PublishedPorts = published bs\<rparr>) (port_bindings ports))))))))))"

fun decode_all :: "json list \<Rightarrow> container_status list option" where
  "decode_all [] = Some []"
| "decode_all (j # js) = Option.bind (decode_inspect j) (\<lambda>s. map_option (\<lambda>r. s # r) (decode_all js))"

definition decode_inspected :: "json option \<Rightarrow> container_status list option" where
  "decode_inspected j =
     (case j of Some (JArr js) \<Rightarrow> decode_all js | Some JNull \<Rightarrow> Some [] | _ \<Rightarrow> None)"

definition absent :: container_status where
  "absent = \<lparr>st_Exists = False, st_Running = False, st_State = [], st_Image = [], st_ImageID = [], st_PublishedPorts = []\<rparr>"

definition docker_Status ::
  "(string \<Rightarrow> json option) \<Rightarrow> 'd docker_supervisor \<Rightarrow> string \<Rightarrow> 'd \<Rightarrow> (container_error, container_status) result \<times> 'd" where
  "docker_Status unmarshal ds name d =
     (case ds_runner ds (ds_bin ds) [''inspect'', ''--type'', ''container'', name] d of (r, d1) \<Rightarrow>
        (case rr_Err r of
           Some err \<Rightarrow>
             (let msg = rr_Stderr r in
              if isDaemonUnavailable msg then Err (DaemonUnavailable (TrimSpace msg))
              else if isNoSuchObject msg then Ok absent
              else Err (CommandFailed ''inspect'' err (TrimSpace msg)))
         | None \<Rightarrow>
             (case decode_inspected (unmarshal (rr_Stdout r)) of
                None \<Rightarrow> Err ParseFailed
              | Some [] \<Rightarrow> Ok absent
              | Some (st # _) \<Rightarrow> Ok st), d1))"

section \<open>Creating, starting, waiting\<close>

definition docker_create ::
  "'d docker_supervisor \<Rightarrow> string list \<Rightarrow> container_spec \<Rightarrow> 'd \<Rightarrow> container_error option \<times> 'd" where
  "docker_create ds order spec d =
     (case ds_runner ds (ds_bin ds) (RunArgs order spec) d of (r, d1) \<Rightarrow>
        (case rr_Err r of
           None \<Rightarrow> None
         | Some err \<Rightarrow>
             (let msg = rr_Stderr r in
              if isDaemonUnavailable msg then Some (DaemonUnavailable (TrimSpace msg))
              else if isImageMissing msg then Some (ImageMissing (sp_Image spec) (TrimSpace msg))
              else Some (CommandFailed ''run'' err (TrimSpace msg))), d1))"

definition docker_start :: "'d docker_supervisor \<Rightarrow> string \<Rightarrow> 'd \<Rightarrow> container_error option \<times> 'd" where
  "docker_start ds name d =
     (case ds_runner ds (ds_bin ds) [''start'', name] d of (r, d1) \<Rightarrow>
        (case rr_Err r of
           None \<Rightarrow> None
         | Some err \<Rightarrow>
             (let msg = rr_Stderr r in
              if isDaemonUnavailable msg then Some (DaemonUnavailable (TrimSpace msg))
              else Some (CommandFailed ''start'' err (TrimSpace msg))), d1))"

text \<open>
  The polling loop from instant \<open>t\<close> on. A probe that fails at \<open>t1\<close> is followed by a \<^verbatim>\<open>select\<close> between
  the deadline and the timer of the poll interval: the one that is ready first is taken, and
  \<open>pick t1\<close> decides when both are. The timer branch probes again.
\<close>

partial_function (option) wait_loop ::
  "(instant \<Rightarrow> string option \<times> duration) \<Rightarrow> duration \<Rightarrow> instant \<Rightarrow> (instant \<Rightarrow> bool) \<Rightarrow> instant
     \<Rightarrow> (string, unit) result option" where
  "wait_loop ping interval deadline pick t =
     (case ping t of
        (None, _) \<Rightarrow> Some (Ok ())
      | (Some e, dur) \<Rightarrow>
          let t1 = t + dur; fire = max t1 (t1 + interval); done = max t1 deadline in
          if fire < done \<or> (fire = done \<and> pick t1) then wait_loop ping interval deadline pick fire
          else Some (Err e))"

text \<open>\<open>parent\<close> is the deadline of the caller's context.\<close>

definition waitHealthy ::
  "'d docker_supervisor \<Rightarrow> container_spec \<Rightarrow> instant \<Rightarrow> (instant \<Rightarrow> bool) \<Rightarrow> instant
     \<Rightarrow> (container_error, unit) result option" where
  "waitHealthy ds spec parent pick now =
     map_option (\<lambda>r. case r of Inl e \<Rightarrow> Err (Unhealthy (sp_Name spec) (sp_ReadinessURL spec) e) | Inr u \<Rightarrow> Ok u)
       (wait_loop (the (ds_ping ds) (sp_ReadinessURL spec)) (ds_pollInterval ds)
          (min parent (now + ds_readyTimeout ds)) pick now)"

section \<open>The state machine\<close>

text \<open>The clock, the caller's deadline and the ready branches of one call.\<close>

record call_env =
  cl_now :: instant
  cl_parent :: instant
  cl_pick :: "instant \<Rightarrow> bool"
  cl_order :: "string list"

definition EnsureRunning ::
  "(string \<Rightarrow> json option) \<Rightarrow> 'd docker_supervisor \<Rightarrow> container_spec \<Rightarrow> call_env \<Rightarrow> 'd
     \<Rightarrow> ((container_error, unit) result \<times> 'd) option" where
  "EnsureRunning unmarshal ds spec ce d =
     (if Validate spec \<noteq> [] then Some (Err (IncompleteSpec (Validate spec)), d)
      else (case docker_Status unmarshal ds (sp_Name spec) d of
              (Inl e, d1) \<Rightarrow> Some (Err e, d1)
            | (Inr status, d1) \<Rightarrow>
                if \<not> st_Exists status then
                  (case docker_create ds (cl_order ce) spec d1 of
                     (Some e, d2) \<Rightarrow> Some (Err e, d2)
                   | (None, d2) \<Rightarrow> map_option (\<lambda>r. (r, d2)) (waitHealthy ds spec (cl_parent ce) (cl_pick ce) (cl_now ce)))
                else if driftReasons spec status \<noteq> [] then
                  Some (Err (SpecDrift (sp_Name spec) (driftReasons spec status)), d1)
                else if \<not> st_Running status then
                  (case docker_start ds (sp_Name spec) d1 of
                     (Some e, d2) \<Rightarrow> Some (Err e, d2)
                   | (None, d2) \<Rightarrow> map_option (\<lambda>r. (r, d2)) (waitHealthy ds spec (cl_parent ce) (cl_pick ce) (cl_now ce)))
                else map_option (\<lambda>r. (r, d1)) (waitHealthy ds spec (cl_parent ce) (cl_pick ce) (cl_now ce))))"

definition Recreate ::
  "'d docker_supervisor \<Rightarrow> container_spec \<Rightarrow> call_env \<Rightarrow> 'd \<Rightarrow> ((container_error, unit) result \<times> 'd) option" where
  "Recreate ds spec ce d =
     (if Validate spec \<noteq> [] then Some (Err (IncompleteSpec (Validate spec)), d)
      else (case ds_runner ds (ds_bin ds) [''rm'', ''-f'', sp_Name spec] d of (r, d1) \<Rightarrow>
        let msg = rr_Stderr r in
        if rr_Err r \<noteq> None \<and> isDaemonUnavailable msg then Some (Err (DaemonUnavailable (TrimSpace msg)), d1)
        else if rr_Err r \<noteq> None \<and> \<not> isNoSuchObject msg
          then Some (Err (CommandFailed ''rm -f'' (the (rr_Err r)) (TrimSpace msg)), d1)
        else (case docker_create ds (cl_order ce) spec d1 of
                (Some e, d2) \<Rightarrow> Some (Err e, d2)
              | (None, d2) \<Rightarrow> map_option (\<lambda>r. (r, d2)) (waitHealthy ds spec (cl_parent ce) (cl_pick ce) (cl_now ce)))))"

section \<open>Facts: the polling loop\<close>

definition next_probe :: "(instant \<Rightarrow> string option \<times> duration) \<Rightarrow> duration \<Rightarrow> instant \<Rightarrow> instant" where
  "next_probe ping interval t = t + snd (ping t) + interval"

fun probe_at :: "(instant \<Rightarrow> string option \<times> duration) \<Rightarrow> duration \<Rightarrow> instant \<Rightarrow> nat \<Rightarrow> instant" where
  "probe_at ping interval t 0 = t"
| "probe_at ping interval t (Suc i) = probe_at ping interval (next_probe ping interval t) i"

lemma wait_loop_ok: "ping t = (None, dur) \<Longrightarrow> wait_loop ping interval deadline pick t = Some (Ok ())"
  by (subst wait_loop.simps) simp

lemma wait_loop_failed:
  assumes "ping t = (Some e, dur)" "0 < interval" "0 \<le> dur"
  shows "wait_loop ping interval deadline pick t =
    (let n = next_probe ping interval t in
     if n < deadline \<or> (n = deadline \<and> pick (t + dur)) then wait_loop ping interval deadline pick n else Some (Err e))"
  using assms by (subst wait_loop.simps) (auto simp: next_probe_def Let_def max_def)

lemma wait_loop_result:
  assumes pos: "0 < interval" "\<And>t. 0 \<le> snd (ping t)"
  shows "\<exists>k r. wait_loop ping interval deadline pick t = Some r \<and> int k * interval \<le> max 0 (deadline - t)
    \<and> (\<forall>i < k. fst (ping (probe_at ping interval t i)) \<noteq> None)
    \<and> (case r of Inr _ \<Rightarrow> fst (ping (probe_at ping interval t k)) = None
        | Inl e \<Rightarrow> fst (ping (probe_at ping interval t k)) = Some e \<and> deadline \<le> probe_at ping interval t (Suc k))"
proof (induction "nat (deadline - t)" arbitrary: t rule: less_induct)
  case less
  let ?n = "next_probe ping interval t"
  obtain res dur where p: "ping t = (res, dur)" by fastforce
  show ?case
  proof (cases res)
    case None
    then show ?thesis using p wait_loop_ok [of ping t] by (intro exI [of _ 0]) auto
  next
    case (Some e)
    have dur: "0 \<le> dur" using pos(2) [of t] p by simp
    note step = wait_loop_failed [of ping t e dur interval deadline pick, OF p [unfolded Some] pos(1) dur]
    show ?thesis
    proof (cases "?n < deadline \<or> (?n = deadline \<and> pick (t + dur))")
      case True
      then have n: "t + interval \<le> ?n" "?n \<le> deadline" using dur p by (auto simp: next_probe_def)
      then have "nat (deadline - ?n) < nat (deadline - t)" using pos(1) by linarith
      from less [OF this] obtain k r where k: "wait_loop ping interval deadline pick ?n = Some r"
        "int k * interval \<le> max 0 (deadline - ?n)" "\<forall>i < k. fst (ping (probe_at ping interval ?n i)) \<noteq> None"
        "case r of Inr _ \<Rightarrow> fst (ping (probe_at ping interval ?n k)) = None
          | Inl e \<Rightarrow> fst (ping (probe_at ping interval ?n k)) = Some e \<and> deadline \<le> probe_at ping interval ?n (Suc k)"
        by blast
      have "int (Suc k) * interval = int k * interval + interval" by (simp add: algebra_simps)
      then have "int (Suc k) * interval \<le> max 0 (deadline - t)" using k(2) n by linarith
      moreover have "\<forall>i < Suc k. fst (ping (probe_at ping interval t i)) \<noteq> None"
        using k(3) p Some by (auto simp: less_Suc_eq_0_disj)
      ultimately show ?thesis
        using k(1,4) step True by (intro exI [of _ "Suc k"] exI [of _ r]) (cases r; simp add: Let_def)
    next
      case False
      then show ?thesis using step p Some by (intro exI [of _ 0] exI [of _ "Inl e"]) (auto simp: Let_def)
    qed
  qed
qed

section \<open>Facts: one call of the supervisor\<close>

definition runs_as_specified :: "container_spec \<Rightarrow> container_status \<Rightarrow> bool" where
  "runs_as_specified spec st \<longleftrightarrow> st_Exists st \<and> st_Running st \<and> driftReasons spec st = []"

lemma driftReasons_Nil:
  "driftReasons spec st = [] \<longleftrightarrow> st_Image st = sp_Image spec
     \<and> (\<forall>p \<in> {sp_APIPort spec, sp_AppPortStart spec, sp_AppPortEnd spec}. port_key p \<in> set (st_PublishedPorts st))"
  by (auto simp: driftReasons_def)

lemma snd_docker_Status:
  "snd (docker_Status um ds name d) = snd (ds_runner ds (ds_bin ds) [''inspect'', ''--type'', ''container'', name] d)"
  by (simp add: docker_Status_def split: prod.splits)

lemma snd_docker_create: "snd (docker_create ds order spec d) = snd (ds_runner ds (ds_bin ds) (RunArgs order spec) d)"
  by (simp add: docker_create_def split: prod.splits)

lemma snd_docker_start: "snd (docker_start ds name d) = snd (ds_runner ds (ds_bin ds) [''start'', name] d)"
  by (simp add: docker_start_def split: prod.splits)

text \<open>What a call has done when it returns: it inspected, and then created, started or did nothing.\<close>

lemma EnsureRunning_outcomes:
  assumes "EnsureRunning um ds spec ce d = Some (res, d1)"
  obtains (incomplete) "res = Err (IncompleteSpec (Validate spec))" "Validate spec \<noteq> []" "d1 = d"
  | (failed) e where "docker_Status um ds (sp_Name spec) d = (Err e, d1)" "res = Err e"
  | (create) st d2 where "docker_Status um ds (sp_Name spec) d = (Ok st, d2)" "\<not> st_Exists st"
      "docker_create ds (cl_order ce) spec d2 = (None, d1) \<or> (\<exists>e. docker_create ds (cl_order ce) spec d2 = (Some e, d1) \<and> res = Err e)"
  | (drift) st where "docker_Status um ds (sp_Name spec) d = (Ok st, d1)" "st_Exists st" "driftReasons spec st \<noteq> []"
      "res = Err (SpecDrift (sp_Name spec) (driftReasons spec st))"
  | (start) st d2 where "docker_Status um ds (sp_Name spec) d = (Ok st, d2)" "st_Exists st" "driftReasons spec st = []"
      "docker_start ds (sp_Name spec) d2 = (None, d1) \<or> (\<exists>e. docker_start ds (sp_Name spec) d2 = (Some e, d1) \<and> res = Err e)"
  | (running) st where "docker_Status um ds (sp_Name spec) d = (Ok st, d1)" "runs_as_specified spec st"
proof (cases "Validate spec = []")
  case False
  then show ?thesis using assms by (intro incomplete) (auto simp: EnsureRunning_def)
next
  case True
  obtain sr d2 where s: "docker_Status um ds (sp_Name spec) d = (sr, d2)" by fastforce
  show ?thesis
  proof (cases sr)
    case (Inl e)
    then show ?thesis using assms s True by (intro failed) (auto simp: EnsureRunning_def)
  next
    case (Inr st)
    show ?thesis
    proof (cases "st_Exists st")
      case False
      then show ?thesis using assms s True Inr
        by (intro create [of st d2]) (auto simp: EnsureRunning_def split: prod.splits option.splits)
    next
      case ex: True
      show ?thesis
      proof (cases "driftReasons spec st = []")
        case False
        then show ?thesis using assms s True Inr ex by (intro drift [of st]) (auto simp: EnsureRunning_def)
      next
        case nd: True
        show ?thesis
        proof (cases "st_Running st")
          case False
          then show ?thesis using assms s True Inr ex nd
            by (intro start [of st d2]) (auto simp: EnsureRunning_def split: prod.splits option.splits)
        next
          case True
          then show ?thesis using assms s \<open>Validate spec = []\<close> Inr ex nd
            by (intro running [of st]) (auto simp: EnsureRunning_def runs_as_specified_def)
        qed
      qed
    qed
  qed
qed

lemma EnsureRunning_again:
  assumes "docker_Status um ds (sp_Name spec) d = (Ok st, d)" "runs_as_specified spec st" "Validate spec = []"
  shows "EnsureRunning um ds spec ce d =
    map_option (\<lambda>r. (r, d)) (waitHealthy ds spec (cl_parent ce) (cl_pick ce) (cl_now ce))"
  using assms by (simp add: EnsureRunning_def runs_as_specified_def)

lemma EnsureRunning_Ok_valid: "EnsureRunning um ds spec ce d = Some (Ok u, d1) \<Longrightarrow> Validate spec = []"
  by (auto simp: EnsureRunning_def split: if_splits)

text \<open>
  A missing docker binary is reported by the runner's error and not on stderr, so it is not
  classified as an unavailable runtime.
\<close>

lemma missing_binary_unclassified:
  assumes "ds_runner ds (ds_bin ds) [''inspect'', ''--type'', ''container'', name] d =
      (\<lparr>rr_Stdout = [], rr_Stderr = [], rr_Err = Some ''executable file not found in $PATH''\<rparr>, d)"
  shows "docker_Status um ds name d = (Err (CommandFailed ''inspect'' ''executable file not found in $PATH'' []), d)"
proof -
  have "\<not> isDaemonUnavailable []" "\<not> isNoSuchObject []" "TrimSpace [] = []" by code_simp+
  then show ?thesis by (simp add: docker_Status_def assms)
qed

section \<open>Properties\<close>

text \<open>
  C25: Waiting ends. With a positive poll interval, whatever the probes do and however long they take,
  \<open>waitHealthy\<close> returns: after at most timeout / interval failed probes one succeeds and the result is
  success, or the last one fails and the next would come at the deadline or later; then the result is
  the error of that last probe.
\<close>

theorem waitHealthy_terminates:
  assumes "ds_ping ds = Some ping" "0 < ds_pollInterval ds" "\<And>url t. 0 \<le> snd (ping url t)" "0 \<le> ds_readyTimeout ds"
  shows "\<exists>k r. waitHealthy ds spec parent pick now = Some r \<and> int k * ds_pollInterval ds \<le> ds_readyTimeout ds
    \<and> (let probe = (\<lambda>i. probe_at (ping (sp_ReadinessURL spec)) (ds_pollInterval ds) now i);
           answers = (\<lambda>i. fst (ping (sp_ReadinessURL spec) (probe i))) in
       (\<forall>i < k. answers i \<noteq> None)
     \<and> (r = Ok () \<and> answers k = None
        \<or> (\<exists>e. r = Err (Unhealthy (sp_Name spec) (sp_ReadinessURL spec) e) \<and> answers k = Some e
             \<and> min parent (now + ds_readyTimeout ds) \<le> probe (Suc k))))"
proof -
  let ?p = "ping (sp_ReadinessURL spec)" and ?d = "min parent (now + ds_readyTimeout ds)"
  obtain k r where k: "wait_loop ?p (ds_pollInterval ds) ?d pick now = Some r"
    "int k * ds_pollInterval ds \<le> max 0 (?d - now)"
    "\<forall>i < k. fst (?p (probe_at ?p (ds_pollInterval ds) now i)) \<noteq> None"
    "case r of Inr _ \<Rightarrow> fst (?p (probe_at ?p (ds_pollInterval ds) now k)) = None
      | Inl e \<Rightarrow> fst (?p (probe_at ?p (ds_pollInterval ds) now k)) = Some e \<and> ?d \<le> probe_at ?p (ds_pollInterval ds) now (Suc k)"
    using wait_loop_result [of "ds_pollInterval ds" ?p ?d pick now] assms(2,3) by blast
  have "int k * ds_pollInterval ds \<le> ds_readyTimeout ds" using k(2) assms(4) by linarith
  note k = this k
  show ?thesis
  proof (cases r)
    case (Inl e)
    then show ?thesis
      using k assms(1) by (intro exI [of _ k] exI [of _ "Err (Unhealthy (sp_Name spec) (sp_ReadinessURL spec) e)"])
        (simp add: waitHealthy_def Let_def)
  next
    case (Inr u)
    then show ?thesis using k assms(1) by (intro exI [of _ k] exI [of _ "Ok ()"]) (simp add: waitHealthy_def Let_def)
  qed
qed

text \<open>A container is never removed behind the user's back: only \<^verbatim>\<open>docker rm\<close> could.\<close>

lemma EnsureRunning_keeps_container:
  assumes call: "EnsureRunning um ds spec ce d = Some (res, d1)"
    and inspect: "\<And>name d. snd (ds_runner ds (ds_bin ds) [''inspect'', ''--type'', ''container'', name] d) = d"
    and kept: "\<And>args d i. args \<noteq> [] \<Longrightarrow> hd args \<noteq> ''rm'' \<Longrightarrow> container d = Some i \<Longrightarrow>
      container (snd (ds_runner ds (ds_bin ds) args d)) = Some i"
    and i: "container d = Some i"
  shows "container d1 = Some i"
proof -
  have same: "docker_Status um ds (sp_Name spec) x = (a, y) \<Longrightarrow> y = x" for x a y
    using inspect snd_docker_Status by (metis snd_conv)
  have RunArgs: "RunArgs order spec \<noteq> []" "hd (RunArgs order spec) = ''run''" for order by (simp_all add: RunArgs_def)
  show ?thesis
    using call
  proof (cases rule: EnsureRunning_outcomes)
    case (create st d2)
    then have "snd (docker_create ds (cl_order ce) spec d2) = d1" by auto
    then show ?thesis using kept [OF RunArgs(1) _ i, of "cl_order ce"] RunArgs(2) same [OF create(1)]
      by (simp add: snd_docker_create)
  next
    case (start st d2)
    then have "snd (docker_start ds (sp_Name spec) d2) = d1" by auto
    then show ?thesis using kept [OF _ _ i, of "[''start'', sp_Name spec]"] same [OF start(1)]
      by (simp add: snd_docker_start)
  qed (use i same in auto)
qed


text \<open>
  An instance: a container runtime that holds at most the one container, running or stopped, and a
  server that answers at its second probe.
\<close>

definition demo_container_config :: container_config where
  "demo_container_config = \<lparr>oc_Image = [], oc_Name = [], oc_SeccompProfilePath = ''/etc/seccomp.json'', oc_APIBindHost = [],
     oc_APIPort = 81, oc_AppBindHost = [], oc_AppPortStart = 90, oc_AppPortEnd = 99, oc_WorkspaceVolume = [],
     oc_PodmanVolume = [], oc_Token = ''t0k'', oc_EnvPassthrough = [''ANTHROPIC_API_KEY''], oc_HostGateway = ''host-gateway'',
     oc_EgressProxyURL = [], oc_NoProxy = [], oc_Memory = [], oc_CPUs = ''unlimited'', oc_ReadinessURL = ''http://127.0.0.1:81/'',
     oc_RestartPolicy = []\<rparr>"

abbreviation demo_spec :: container_spec where
  "demo_spec \<equiv> BuildSpec demo_container_config"

definition demo_order :: "string list" where
  "demo_order = [''WORKSPACE_DIR'', ''AGENT_SERVER_TOKEN'']"

text \<open>The state is the container, if there is one, and whether it runs.\<close>

definition demo_runner :: "bool option runner" where
  "demo_runner bin args d =
     (if hd args = ''inspect'' then
        (case d of
           None \<Rightarrow> \<lparr>rr_Stdout = [], rr_Stderr = ''Error: No such object: builder-outer'', rr_Err = Some ''exit status 1''\<rparr>
         | Some up \<Rightarrow> \<lparr>rr_Stdout = (if up then ''up'' else ''down''), rr_Stderr = [], rr_Err = None\<rparr>, d)
      else (\<lparr>rr_Stdout = [], rr_Stderr = [], rr_Err = None\<rparr>, if hd args = ''rm'' then None else Some True))"

definition demo_inspect_json :: "string \<Rightarrow> json option" where
  "demo_inspect_json s = Some (JArr [JObj
     [(''State'', JObj [(''Status'', JStr (if s = ''up'' then ''running'' else ''exited'')), (''Running'', JBool (s = ''up''))]),
      (''Config'', JObj [(''Image'', JStr (sp_Image demo_spec))]),
      (''HostConfig'', JObj [(''PortBindings'', JObj
         (map (\<lambda>k. (k, JArr [JObj [(''HostIp'', JStr ''127.0.0.1'')]])) [''81/tcp'', ''90/tcp'', ''99/tcp'']))])]])"

definition demo_probe :: probe where
  "demo_probe url t = (if t < 1 then Some ''connection refused'' else None, 0)"

definition demo_docker :: "bool option docker_supervisor" where
  "demo_docker = NewDockerSupervisor demo_runner (\<lambda>_ _. (Inr 200, 0)) ''docker'' [WithPing demo_probe]"

definition demo_call :: call_env where
  "demo_call = \<lparr>cl_now = 0, cl_parent = 120 * second, cl_pick = (\<lambda>_. False), cl_order = demo_order\<rparr>"


theorem waitHealthy_terminates_witness:
  "\<exists>r. waitHealthy demo_docker demo_spec (120 * second) (\<lambda>_. False) 0 = Some r"
proof -
  have "ds_ping demo_docker = Some demo_probe" "0 < ds_pollInterval demo_docker" "0 \<le> snd (demo_probe url t)"
    "0 \<le> ds_readyTimeout demo_docker" for url t
    by (simp_all add: demo_docker_def NewDockerSupervisor_def WithPing_def demo_probe_def second_def)
  from waitHealthy_terminates [OF this] show ?thesis by blast
qed

lemma demo_Status:
  "docker_Status demo_inspect_json demo_docker name d =
     (Ok (case d of None \<Rightarrow> absent | Some up \<Rightarrow>
        \<lparr>st_Exists = True, st_Running = up, st_State = (if up then ''running'' else ''exited''), st_Image = sp_Image demo_spec,
         st_ImageID = [], st_PublishedPorts = [''81/tcp'', ''90/tcp'', ''99/tcp'']\<rparr>), d)"
proof -
  have j: "decode_inspected (Some (JArr [JObj
     [(''State'', JObj [(''Status'', JStr status), (''Running'', JBool b)]), (''Config'', JObj [(''Image'', JStr image)]),
      (''HostConfig'', JObj [(''PortBindings'', JObj
         (map (\<lambda>k. (k, JArr [JObj [(''HostIp'', JStr ''127.0.0.1'')]])) [''81/tcp'', ''90/tcp'', ''99/tcp'']))])]])) =
      Some [\<lparr>st_Exists = True, st_Running = b, st_State = status, st_Image = image,
         st_ImageID = [], st_PublishedPorts = [''81/tcp'', ''90/tcp'', ''99/tcp'']\<rparr>]" for status image b
    by code_simp
  have k: "decode_inspected (demo_inspect_json s) =
      Some [\<lparr>st_Exists = True, st_Running = (s = ''up''), st_State = (if s = ''up'' then ''running'' else ''exited''),
         st_Image = sp_Image demo_spec, st_ImageID = [], st_PublishedPorts = [''81/tcp'', ''90/tcp'', ''99/tcp'']\<rparr>]" for s
    unfolding demo_inspect_json_def by (rule j)
  have m: "\<not> isDaemonUnavailable ''Error: No such object: builder-outer''" "isNoSuchObject ''Error: No such object: builder-outer''"
    by code_simp+
  have r: "ds_runner demo_docker = demo_runner" by (simp add: demo_docker_def NewDockerSupervisor_def WithPing_def)
  show ?thesis
    by (cases d) (simp_all add: docker_Status_def r demo_runner_def m k)
qed

lemma demo_wait_loop: "wait_loop (demo_probe u) second (90 * second) pick 0 = Some (Ok ())"
proof -
  have p: "demo_probe u 0 = (Some ''connection refused'', 0)" "demo_probe u second = (None, 0)" "0 < second"
    by (simp_all add: demo_probe_def second_def)
  have "next_probe (demo_probe u) second 0 = second" by (simp add: next_probe_def p)
  then show ?thesis
    using wait_loop_failed [of "demo_probe u" 0 "''connection refused''" 0 second "90 * second" pick, OF p(1,3)] wait_loop_ok [of "demo_probe u" second] p by simp
qed


end
