(* ===== verification/Container_Token.thy ===== *)
theory Container_Token
  imports Container_Docker Auth_Store
begin

text \<open>
  What container mode needs before the container exists (\<^verbatim>\<open>internal/containerruntime/config.go\<close>): the
  agent token, the choice of the command line tool and the gateway of the bridge network. The file
  system maps paths to contents and permission bits; what a failing call leaves behind is an argument.
\<close>

section \<open>The token\<close>

record disk_file =
  fl_data :: string
  fl_mode :: nat

type_synonym file_system = "string \<rightharpoonup> disk_file"

definition owner_only :: nat where
  "owner_only = 6 * 64"

text \<open>
  \<open>te_writeErr\<close> is an error of \<^verbatim>\<open>os.WriteFile\<close> with the file it leaves at the path. The random source
  is that of the auth store.
\<close>

record token_env =
  te_readErr :: "string option"
  te_rnd :: random
  te_writeErr :: "(string \<times> disk_file option) option"
  te_chmodOk :: bool

datatype token_error = TokenRead string | TokenRandom | TokenWrite string

definition os_Chmod :: "bool \<Rightarrow> string \<Rightarrow> file_system \<Rightarrow> file_system" where
  "os_Chmod ok path fs =
     (case fs path of
        None \<Rightarrow> fs | Some f \<Rightarrow> if ok then fs(path \<mapsto> f\<lparr>fl_mode := owner_only\<rparr>) else fs)"

definition os_WriteFile :: "string \<Rightarrow> string \<Rightarrow> file_system \<Rightarrow> file_system" where
  "os_WriteFile path data fs =
     fs(path \<mapsto> (case fs path of
                   None \<Rightarrow> \<lparr>fl_data = data, fl_mode = owner_only\<rparr> | Some f \<Rightarrow> f\<lparr>fl_data := data\<rparr>))"

definition create_token :: "token_env \<Rightarrow> string \<Rightarrow> file_system \<Rightarrow> (token_error, string) result \<times> file_system" where
  "create_token env path fs =
     (case te_rnd env 32 of
        None \<Rightarrow> (Err TokenRandom, fs)
      | Some buf \<Rightarrow>
          let tok = hex_EncodeToString buf in
          (case te_writeErr env of
             Some (e, left) \<Rightarrow> (Err (TokenWrite e), fs(path := left))
           | None \<Rightarrow> (Ok tok, os_Chmod (te_chmodOk env) path (os_WriteFile path (tok @ [CHR 0x0A]) fs))))"

definition LoadOrCreateToken ::
  "token_env \<Rightarrow> string \<Rightarrow> file_system \<Rightarrow> (token_error, string) result \<times> file_system" where
  "LoadOrCreateToken env path fs =
     (case te_readErr env of
        Some e \<Rightarrow> (Err (TokenRead e), fs)
      | None \<Rightarrow>
          (case fs path of
             None \<Rightarrow> create_token env path fs
           | Some f \<Rightarrow>
               let tok = TrimSpace (fl_data f) in
               if tok \<noteq> [] then (Ok tok, os_Chmod (te_chmodOk env) path fs)
               else create_token env path fs))"

section \<open>The command line tool and the gateway\<close>

definition DetectBin :: "string \<Rightarrow> (string \<Rightarrow> bool) \<Rightarrow> string" where
  "DetectBin override lookPath =
     (if override \<noteq> [] then override
      else (case List.find lookPath [''docker'', ''podman''] of Some cand \<Rightarrow> cand | None \<Rightarrow> ''docker''))"

definition array_field :: "string \<Rightarrow> (string \<times> json) list \<Rightarrow> json list option" where
  "array_field k fs = (case json_field k fs of None \<Rightarrow> Some [] | Some (JArr js) \<Rightarrow> Some js | Some _ \<Rightarrow> None)"

fun gateways :: "json list \<Rightarrow> string list option" where
  "gateways [] = Some []"
| "gateways (j # js) =
     Option.bind (struct_fields j) (\<lambda>fs.
     Option.bind (string_field ''Gateway'' fs) (\<lambda>g. map_option (\<lambda>gs. g # gs) (gateways js)))"

fun net_gateways :: "json list \<Rightarrow> string list option" where
  "net_gateways [] = Some []"
| "net_gateways (j # js) =
     Option.bind (struct_fields j) (\<lambda>fs.
     Option.bind (object_field ''IPAM'' fs) (\<lambda>ipam.
     Option.bind (Option.bind (array_field ''Config'' ipam) gateways) (\<lambda>cs.
     Option.bind (Option.bind (array_field ''Subnets'' fs) gateways) (\<lambda>ss.
     map_option (\<lambda>r. cs @ ss @ r) (net_gateways js)))))"

definition first_gateway :: "json option \<Rightarrow> string" where
  "first_gateway j =
     (case (case j of Some (JArr js) \<Rightarrow> net_gateways js | _ \<Rightarrow> None) of
        None \<Rightarrow> []
      | Some gs \<Rightarrow> (case List.find (\<lambda>g. g \<noteq> []) gs of None \<Rightarrow> [] | Some g \<Rightarrow> g))"

definition parseGatewayJSON :: "(string \<Rightarrow> json option) \<Rightarrow> string \<Rightarrow> 'd runner \<Rightarrow> 'd \<Rightarrow> string \<times> 'd" where
  "parseGatewayJSON unmarshal bin runner d =
     (case runner bin [''network'', ''inspect'', ''bridge''] d of (r, d1) \<Rightarrow>
        (if rr_Err r \<noteq> None then [] else first_gateway (unmarshal (rr_Stdout r)), d1))"

datatype gateway_error = NetworkInspect string string | NoGateway

definition BridgeGateway ::
  "(string \<Rightarrow> json option) \<Rightarrow> string \<Rightarrow> 'd runner \<Rightarrow> 'd \<Rightarrow> (gateway_error, string) result \<times> 'd" where
  "BridgeGateway unmarshal bin runner d =
     (case runner bin [''network'', ''inspect'', ''bridge'', ''--format'', ''{{range .IPAM.Config}}{{.Gateway}}{{end}}''] d of
        (r, d1) \<Rightarrow>
          (case rr_Err r of
             Some e \<Rightarrow> (Err (NetworkInspect e (TrimSpace (rr_Stderr r))), d1)
           | None \<Rightarrow>
               let gw = TrimSpace (rr_Stdout r) in
               if gw \<noteq> [] then (Ok gw, d1)
               else (case parseGatewayJSON unmarshal bin runner d1 of (gw2, d2) \<Rightarrow>
                       (if gw2 = [] then Err NoGateway else Ok gw2, d2))))"

section \<open>Facts\<close>

lemma BridgeGateway_nonempty: "BridgeGateway um bin runner d = (Ok gw, d') \<Longrightarrow> gw \<noteq> []"
  by (auto simp: BridgeGateway_def Let_def split: prod.splits option.splits if_splits)

lemma create_token_Ok:
  assumes "create_token env path fs = (Ok tok, fs')" "\<And>n b. te_rnd env n = Some b \<Longrightarrow> length b = n"
  shows "length tok = 64" "\<forall>c \<in> set tok. \<not> is_space c"
    "fs' = os_Chmod (te_chmodOk env) path (os_WriteFile path (tok @ [CHR 0x0A]) fs)"
  using assms hex_not_space by (auto simp: create_token_def Let_def split: option.splits prod.splits)

lemma os_Chmod_facts:
  "map_option fl_data (os_Chmod ok path fs path) = map_option fl_data (fs path)"
  "ok \<Longrightarrow> fs path \<noteq> None \<Longrightarrow> map_option fl_mode (os_Chmod ok path fs path) = Some owner_only"
  "q \<noteq> path \<Longrightarrow> os_Chmod ok path fs q = fs q"
  by (auto simp: os_Chmod_def split: option.splits)

lemma os_WriteFile_facts:
  "map_option fl_data (os_WriteFile path data fs path) = Some data" "os_WriteFile path data fs path \<noteq> None"
  "q \<noteq> path \<Longrightarrow> os_WriteFile path data fs q = fs q"
  by (auto simp: os_WriteFile_def split: option.splits)

lemma LoadOrCreateToken_existing:
  assumes "te_readErr env = None" "map_option fl_data (fs path) = Some data" "TrimSpace data = tok" "tok \<noteq> []"
  shows "LoadOrCreateToken env path fs = (Ok tok, os_Chmod (te_chmodOk env) path fs)"
  using assms by (auto simp: LoadOrCreateToken_def Let_def)

section \<open>Properties\<close>

text \<open>
  C26: The token survives a restart. A token that \<open>LoadOrCreateToken\<close> has returned - found in the file or
  freshly written - is returned again by every later call that can read the file, without being
  replaced. It is never empty, a fresh one has 64 characters, the file is readable by its owner only
  when chmod works, and no other file changes.
\<close>

theorem token_survives_restart:
  assumes "LoadOrCreateToken env path fs = (Ok tok, fs')" "\<And>n b. te_rnd env n = Some b \<Longrightarrow> length b = n"
  shows "tok \<noteq> [] \<and> (fs path = None \<longrightarrow> length tok = 64)
    \<and> (te_chmodOk env \<longrightarrow> map_option fl_mode (fs' path) = Some owner_only)
    \<and> (\<forall>q. q \<noteq> path \<longrightarrow> fs' q = fs q)
    \<and> (\<forall>env' :: token_env. te_readErr env' = None \<longrightarrow> fst (LoadOrCreateToken env' path fs') = Ok tok
         \<and> map_option fl_data (snd (LoadOrCreateToken env' path fs') path) = map_option fl_data (fs' path))"
proof -
  have again: "\<forall>env' :: token_env. te_readErr env' = None \<longrightarrow> fst (LoadOrCreateToken env' path fs') = Ok tok
         \<and> map_option fl_data (snd (LoadOrCreateToken env' path fs') path) = map_option fl_data (fs' path)"
    if "map_option fl_data (fs' path) = Some data" "TrimSpace data = tok" "tok \<noteq> []" for data
  proof (intro allI impI)
    fix env' :: token_env assume "te_readErr env' = None"
    note LoadOrCreateToken_existing [of env' fs' path data tok, OF this that]
    then show "fst (LoadOrCreateToken env' path fs') = Ok tok
         \<and> map_option fl_data (snd (LoadOrCreateToken env' path fs') path) = map_option fl_data (fs' path)"
      by (simp add: os_Chmod_facts(1))
  qed
  have re: "te_readErr env = None" using assms(1) by (auto simp: LoadOrCreateToken_def split: option.splits)
  show ?thesis
  proof (cases "\<exists>f. fs path = Some f \<and> TrimSpace (fl_data f) \<noteq> []")
    case True
    then obtain f where f: "fs path = Some f" "TrimSpace (fl_data f) \<noteq> []" by blast
    then have "tok = TrimSpace (fl_data f)" "fs' = os_Chmod (te_chmodOk env) path fs"
      using assms(1) re by (auto simp: LoadOrCreateToken_def Let_def)
    then show ?thesis using f os_Chmod_facts again [of "fl_data f"] by simp
  next
    case False
    then have "create_token env path fs = (Ok tok, fs')"
      using assms(1) re by (auto simp: LoadOrCreateToken_def Let_def split: option.splits)
    note new = create_token_Ok [OF this assms(2)]
    then have "tok \<noteq> []" by auto
    then show ?thesis
      using new os_WriteFile_facts [where path = path and fs = fs and data = "tok @ [CHR 0x0A]"] os_Chmod_facts
        again [of "tok @ [CHR 0x0A]"] TrimSpace_newline [OF new(2)] by simp
  qed
qed

definition demo_token_env :: token_env where
  "demo_token_env = \<lparr>te_readErr = None, te_rnd = (\<lambda>n. Some (replicate n 7)), te_writeErr = None, te_chmodOk = True\<rparr>"

theorem token_survives_restart_witness:
  "fst (LoadOrCreateToken demo_token_env ''/data/token'' (snd (LoadOrCreateToken demo_token_env ''/data/token'' Map.empty)))
     = fst (LoadOrCreateToken demo_token_env ''/data/token'' Map.empty)"
proof -
  let ?r = "LoadOrCreateToken demo_token_env ''/data/token'' Map.empty"
  have ok: "?r = (Ok (hex_EncodeToString (replicate 32 7)), snd ?r)"
    by (simp add: LoadOrCreateToken_def create_token_def demo_token_env_def Let_def)
  have "te_rnd demo_token_env n = Some b \<Longrightarrow> length b = n" for n b by (auto simp: demo_token_env_def)
  note again = token_survives_restart [OF ok this]
  have "te_readErr demo_token_env = None" by (simp add: demo_token_env_def)
  then have "fst (LoadOrCreateToken demo_token_env ''/data/token'' (snd ?r)) = Ok (hex_EncodeToString (replicate 32 7))"
    using again by blast
  moreover have "fst ?r = Ok (hex_EncodeToString (replicate 32 7))" using ok by (metis fst_conv)
  ultimately show ?thesis by simp
qed

end
