(* ===== verification/Tls_SelfSigned.thy ===== *)
theory Tls_SelfSigned
  imports Go_Net Container_Token "HOL-Library.AList"
begin

text \<open>
  The self-signed certificate (\<^verbatim>\<open>internal/tls/selfsigned.go\<close>). The cryptography is an argument: loading a
  key pair from two PEM files, the expiry of a loaded certificate, key generation, signing a template
  and encoding a key. The maps of the source are association lists here; Go visits them in an
  arbitrary order, so nothing below depends on the order of the names.
\<close>

section \<open>Writing an address\<close>

fun hex_nat :: "nat \<Rightarrow> string" where
  "hex_nat n = (if n < 16 then [hex_digit n] else hex_nat (n div 16) @ [hex_digit (n mod 16)])"

declare hex_nat.simps [simp del]

fun v6_groups :: "byte list \<Rightarrow> nat list" where
  "v6_groups (a # b # bs) = (256 * unat a + unat b) # v6_groups bs"
| "v6_groups _ = []"

text \<open>The first longest run of at least two zero groups: its start and its length.\<close>

fun zero_run :: "nat \<Rightarrow> nat list \<Rightarrow> nat \<times> nat \<Rightarrow> nat \<times> nat" where
  "zero_run i [] best = best"
| "zero_run i (g # gs) best =
     (let l = length (takeWhile (\<lambda>x. x = 0) (g # gs)) in
      zero_run (Suc i) gs (if 2 \<le> l \<and> snd best < l then (i, l) else best))"

definition ip_String :: "ip \<Rightarrow> string" where
  "ip_String a =
     (case To4 a of
        Some b \<Rightarrow> Join ''.'' (map (\<lambda>x. Itoa (uint x)) b)
      | None \<Rightarrow>
          let gs = v6_groups a; (s, l) = zero_run 0 gs (0, 0) in
          if l = 0 then Join '':'' (map hex_nat gs)
          else Join '':'' (map hex_nat (take s gs)) @ ''::'' @ Join '':'' (map hex_nat (drop (s + l) gs)))"

section \<open>Subject alternative names\<close>

record net_iface =
  if_Up :: bool
  if_Loopback :: bool
  if_Addrs :: "ip option list option"

text \<open>
  An interface address is \<open>Some\<close> for an \<^verbatim>\<open>IPNet\<close> or \<^verbatim>\<open>IPAddr\<close> and \<open>None\<close> for any other type; the
  outer options are the errors of \<^verbatim>\<open>net.Interfaces\<close> and \<^verbatim>\<open>Addrs\<close>.
\<close>

type_synonym san = "(string \<times> ip) list \<times> string list"

definition add_host :: "string \<Rightarrow> san \<Rightarrow> san" where
  "add_host h sn =
     (case ParseIP h of
        Some a \<Rightarrow> (AList.update h a (fst sn), snd sn)
      | None \<Rightarrow> (fst sn, List.insert (''*.'' @ h) (List.insert h (snd sn))))"

definition add_addr :: "ip option \<Rightarrow> (string \<times> ip) list \<Rightarrow> (string \<times> ip) list" where
  "add_addr addr ips =
     (case addr of
        None \<Rightarrow> ips
      | Some a \<Rightarrow> if IsLoopback a then ips else AList.update (ip_String a) a ips)"

definition add_iface :: "net_iface \<Rightarrow> (string \<times> ip) list \<Rightarrow> (string \<times> ip) list" where
  "add_iface i ips =
     (if \<not> if_Up i \<or> if_Loopback i then ips
      else (case if_Addrs i of None \<Rightarrow> ips | Some addrs \<Rightarrow> fold add_addr addrs ips))"

definition base_san :: san where
  "base_san = ([(''127.0.0.1'', the (ParseIP ''127.0.0.1''))], [''localhost'', ''*.localhost''])"

definition collectSANs :: "net_iface list option \<Rightarrow> string list \<Rightarrow> ip list \<times> string list" where
  "collectSANs ifaces hosts =
     (let sn = fold add_host hosts base_san;
          ips = (case ifaces of None \<Rightarrow> fst sn | Some is \<Rightarrow> fold add_iface is (fst sn))
      in (map snd ips, snd sn))"

section \<open>Loading and generating\<close>

record cert_template =
  ct_Serial :: int
  ct_Organization :: string
  ct_NotBefore :: instant
  ct_NotAfter :: instant
  ct_IPAddresses :: "ip list"
  ct_DNSNames :: "string list"

record ('k, 'c) tls_env =
  tv_loadPair :: "string \<Rightarrow> string \<Rightarrow> 'c option"
  tv_notAfter :: "'c \<Rightarrow> instant option"
  tv_now :: instant
  tv_key :: "'k option"
  tv_serial :: "int option"
  tv_createPEM :: "cert_template \<Rightarrow> 'k \<Rightarrow> string option"
  tv_keyPEM :: "'k \<Rightarrow> string option"
  tv_ifaces :: "net_iface list option"
  tv_mkdirOk :: bool
  tv_writeErr :: "string \<Rightarrow> disk_file option option"

datatype tls_error = GenerateKey | GenerateSerial | CreateCertificate | MarshalKey | CreateDir | WriteFailed string | BadPair

definition day :: duration where
  "day = 24 * hour"

text \<open>Writing fails for the paths where \<open>tv_writeErr\<close> says so, with the file it leaves there.\<close>

definition write_pem ::
  "('k, 'c) tls_env \<Rightarrow> string \<Rightarrow> string \<Rightarrow> file_system \<Rightarrow> bool \<times> file_system" where
  "write_pem env path data fs =
     (case tv_writeErr env path of
        Some left \<Rightarrow> (False, fs(path := left))
      | None \<Rightarrow> (True, os_WriteFile path data fs))"

definition cert_template_for :: "('k, 'c) tls_env \<Rightarrow> int \<Rightarrow> string list \<Rightarrow> cert_template" where
  "cert_template_for env serial hosts =
     (case collectSANs (tv_ifaces env) hosts of (ips, dns) \<Rightarrow>
        \<lparr>ct_Serial = serial, ct_Organization = ''Appx Self-Signed'', ct_NotBefore = tv_now env,
         ct_NotAfter = tv_now env + 365 * day, ct_IPAddresses = ips, ct_DNSNames = dns\<rparr>)"

definition generateAndSave ::
  "('k, 'c) tls_env \<Rightarrow> string \<Rightarrow> string \<Rightarrow> string list \<Rightarrow> file_system \<Rightarrow> (tls_error, 'c) result \<times> file_system" where
  "generateAndSave env certPath keyPath hosts fs =
     (case tv_key env of
        None \<Rightarrow> (Err GenerateKey, fs)
      | Some key \<Rightarrow>
          (case tv_serial env of
             None \<Rightarrow> (Err GenerateSerial, fs)
           | Some serial \<Rightarrow>
               (case tv_createPEM env (cert_template_for env serial hosts) key of
                  None \<Rightarrow> (Err CreateCertificate, fs)
                | Some certPEM \<Rightarrow>
                    (case tv_keyPEM env key of
                       None \<Rightarrow> (Err MarshalKey, fs)
                     | Some keyPEM \<Rightarrow>
                         if \<not> tv_mkdirOk env then (Err CreateDir, fs)
                         else (case write_pem env certPath certPEM fs of
                                 (False, fs1) \<Rightarrow> (Err (WriteFailed ''cert''), fs1)
                               | (True, fs1) \<Rightarrow>
                                   (case write_pem env keyPath keyPEM fs1 of
                                      (False, fs2) \<Rightarrow> (Err (WriteFailed ''key''), fs2)
                                    | (True, fs2) \<Rightarrow>
                                        (case tv_loadPair env certPEM keyPEM of
                                           None \<Rightarrow> (Err BadPair, fs2) | Some c \<Rightarrow> (Ok c, fs2))))))))"

definition load_pair :: "('k, 'c) tls_env \<Rightarrow> string \<Rightarrow> string \<Rightarrow> file_system \<Rightarrow> 'c option" where
  "load_pair env certPath keyPath fs =
     (case (fs certPath, fs keyPath) of
        (Some c, Some k) \<Rightarrow> tv_loadPair env (fl_data c) (fl_data k)
      | _ \<Rightarrow> None)"

definition LoadOrGenerateSelfSigned ::
  "('k, 'c) tls_env \<Rightarrow> string \<Rightarrow> string list \<Rightarrow> file_system \<Rightarrow> (tls_error, 'c) result \<times> file_system" where
  "LoadOrGenerateSelfSigned env dataDir hosts fs =
     (let certPath = path_Join [dataDir, ''cert.pem'']; keyPath = path_Join [dataDir, ''key.pem''] in
      case load_pair env certPath keyPath fs of
        None \<Rightarrow> generateAndSave env certPath keyPath hosts fs
      | Some cert \<Rightarrow>
          (case tv_notAfter env cert of
             None \<Rightarrow> generateAndSave env certPath keyPath hosts fs
           | Some notAfter \<Rightarrow>
               if tv_now env + 7 * day < notAfter then (Ok cert, fs)
               else generateAndSave env certPath keyPath hosts fs))"

section \<open>Facts\<close>

lemma fold_add_host_dns:
  "d \<in> set (snd sn) \<Longrightarrow> d \<in> set (snd (fold add_host hosts sn))"
  by (induction hosts arbitrary: sn) (auto simp: add_host_def split: option.splits)

lemma fold_add_host_name:
  "h \<in> set hosts \<Longrightarrow> ParseIP h = None \<Longrightarrow> {h, ''*.'' @ h} \<subseteq> set (snd (fold add_host hosts sn))"
proof (induction hosts arbitrary: sn)
  case (Cons x hosts)
  show ?case
  proof (cases "x = h")
    case True
    then have "{h, ''*.'' @ h} \<subseteq> set (snd (add_host x sn))" using Cons.prems(2) by (simp add: add_host_def)
    then show ?thesis using fold_add_host_dns [of _ "add_host x sn" hosts] by auto
  next
    case False
    then show ?thesis using Cons by simp
  qed
qed simp

text \<open>The names in every certificate: localhost and all host names given, each with its subdomains.\<close>

lemma collectSANs_names:
  "{''localhost'', ''*.localhost''} \<union> {n. \<exists>h \<in> set hosts. ParseIP h = None \<and> (n = h \<or> n = ''*.'' @ h)}
     \<subseteq> set (snd (collectSANs ifaces hosts))"
  using fold_add_host_dns [of _ base_san hosts] fold_add_host_name [of _ hosts base_san]
  by (auto simp: collectSANs_def Let_def base_san_def)

lemma os_WriteFile_load:
  assumes "certPath \<noteq> keyPath" "write_pem env certPath c fs = (True, fs1)" "write_pem env keyPath k fs1 = (True, fs2)"
  shows "load_pair env certPath keyPath fs2 = tv_loadPair env c k"
  using assms by (auto simp: write_pem_def load_pair_def os_WriteFile_def split: option.splits)

lemma generateAndSave_Ok:
  assumes "generateAndSave env certPath keyPath hosts fs = (Ok c, fs')" "certPath \<noteq> keyPath"
  obtains key serial certPEM keyPEM where
    "tv_createPEM env (cert_template_for env serial hosts) key = Some certPEM" "tv_keyPEM env key = Some keyPEM"
    "tv_loadPair env certPEM keyPEM = Some c" "load_pair env certPath keyPath fs' = Some c"
proof -
  obtain key serial certPEM keyPEM fs1 where
    g: "tv_createPEM env (cert_template_for env serial hosts) key = Some certPEM" "tv_keyPEM env key = Some keyPEM"
      "write_pem env certPath certPEM fs = (True, fs1)" "write_pem env keyPath keyPEM fs1 = (True, fs')"
      "tv_loadPair env certPEM keyPEM = Some c"
    using assms(1) unfolding generateAndSave_def
    by (auto split: option.splits if_splits prod.splits bool.splits)
  then show ?thesis using os_WriteFile_load [OF assms(2) g(3,4)] that by simp
qed

section \<open>Properties\<close>


text \<open>An instance: a certificate is the instant at which it expires, written in its file.\<close>

definition demo_tls_env :: "(unit, instant) tls_env" where
  "demo_tls_env = \<lparr>tv_loadPair = (\<lambda>pem kp. Some (digits_value pem)), tv_notAfter = Some, tv_now = 0, tv_key = Some (),
     tv_serial = Some 1, tv_createPEM = (\<lambda>t k. if 0 \<le> ct_NotAfter t then Some (Itoa (ct_NotAfter t)) else None),
     tv_keyPEM = (\<lambda>_. Some ''key''), tv_ifaces = None, tv_mkdirOk = True, tv_writeErr = (\<lambda>_. None)\<rparr>"


end
