(* ===== verification/Server_Run.thy ===== *)
theory Server_Run
  imports Router Tls_SelfSigned
begin

text \<open>
  Starting the server (\<^verbatim>\<open>internal/server/server.go\<close>): the session cookie, the periodic clean-up, the
  choice of the listener and the end of the process. The ACME client and the signals are arguments;
  the listener itself is outside.
\<close>

section \<open>Configuration\<close>

record 'a run_config =
  rc_Port :: int
  rc_InternalsDir :: string
  rc_Manager :: manager
  rc_Agent :: "'a registrar option"
  rc_WebFS :: "string \<Rightarrow> bool"
  rc_TLSHosts :: "string list"
  rc_Domain :: string
  rc_CloudflareToken :: string
  rc_HTTPMode :: bool
  rc_BaseDomain :: string
  rc_HostAliases :: "string list"
  rc_AgentServerURL :: string
  rc_AgentServerToken :: string
  rc_HasEgressStore :: bool
  rc_HasPending :: bool
  rc_ProjectShell :: "container_shell option"

definition run_cookie :: "'a run_config \<Rightarrow> cookie_config" where
  "run_cookie cfg =
     (let a = auth_New;
          a1 = (if rc_BaseDomain cfg \<noteq> [] \<and> ParseIP (rc_BaseDomain cfg) = None
                then a\<lparr>cc_Domain := ''.'' @ rc_BaseDomain cfg\<rparr> else a)
      in a1\<lparr>cc_Secure := \<not> rc_HTTPMode cfg\<rparr>)"

definition router_config :: "'a run_config \<Rightarrow> 'a server_config" where
  "router_config cfg =
     \<lparr>cf_Cookie = run_cookie cfg, cf_Manager = rc_Manager cfg, cf_Agent = rc_Agent cfg, cf_HTTPMode = rc_HTTPMode cfg,
      cf_BaseDomain = rc_BaseDomain cfg, cf_HostAliases = rc_HostAliases cfg, cf_AgentServerURL = rc_AgentServerURL cfg,
      cf_AgentServerToken = rc_AgentServerToken cfg, cf_ProjectShell = rc_ProjectShell cfg,
      cf_HasPending = rc_HasPending cfg, cf_webFS = rc_WebFS cfg\<rparr>"

section \<open>Listeners\<close>

datatype 'c tls_source = NoTLS | Static 'c | Managed "string list"

record 'c http_server =
  hs_Addr :: string
  hs_TLS :: "'c tls_source"
  hs_MinTLS13 :: bool
  hs_ReadHeaderTimeout :: duration
  hs_WriteTimeout :: duration
  hs_IdleTimeout :: duration

datatype run_error =
    HTTPWithDomain | NeedsCloudflareToken | TLSSetup tls_error | CertMagicFailed string | ListenFailed string | CloseFailed string

definition http_server_on :: "string \<Rightarrow> 'c tls_source \<Rightarrow> bool \<Rightarrow> 'c http_server" where
  "http_server_on addr tls tls13 =
     \<lparr>hs_Addr = addr, hs_TLS = tls, hs_MinTLS13 = tls13, hs_ReadHeaderTimeout = 10 * second, hs_WriteTimeout = 60 * second,
      hs_IdleTimeout = 90 * second\<rparr>"

text \<open>With and without TLS: the listener ends, or a signal closes it.\<close>

datatype exit_event = ListenerEnds string | Signal

definition serve :: "string option \<Rightarrow> exit_event \<Rightarrow> run_error option" where
  "serve closeErr ev =
     (case ev of
        ListenerEnds e \<Rightarrow> Some (ListenFailed e)
      | Signal \<Rightarrow> (case closeErr of None \<Rightarrow> None | Some e \<Rightarrow> Some (CloseFailed e)))"

definition serveHTTP :: "string option \<Rightarrow> exit_event \<Rightarrow> run_error option" where
  "serveHTTP closeErr ev =
     (case ev of
        ListenerEnds e \<Rightarrow> Some (ListenFailed e)
      | Signal \<Rightarrow> (case closeErr of None \<Rightarrow> None | Some e \<Rightarrow> Some (CloseFailed e)))"

record ('k, 'c) run_env =
  rn_auth :: auth_env
  rn_egress_faults :: egress_faults
  rn_tls :: "('k, 'c) tls_env"
  rn_manageErr :: "string option"
  rn_exit :: exit_event
  rn_closeErr :: "string option"

type_synonym ('a, 'c) run_result = "run_error option \<times> 'c http_server option \<times> 'a server_state \<times> file_system"

definition runWithCertMagic :: "('k, 'c) run_env \<Rightarrow> 'a run_config \<Rightarrow> 'a server_state \<Rightarrow> file_system \<Rightarrow> ('a, 'c) run_result" where
  "runWithCertMagic env cfg s fs =
     (case rn_manageErr env of
        Some e \<Rightarrow> (Some (CertMagicFailed e), None, s, fs)
      | None \<Rightarrow>
          (serve (rn_closeErr env) (rn_exit env),
           Some (http_server_on ('':'' @ Itoa (rc_Port cfg)) (Managed [rc_Domain cfg, ''*.'' @ rc_Domain cfg]) True), s, fs))"

definition runWithSelfSigned :: "('k, 'c) run_env \<Rightarrow> 'a run_config \<Rightarrow> 'a server_state \<Rightarrow> file_system \<Rightarrow> ('a, 'c) run_result" where
  "runWithSelfSigned env cfg s fs =
     (case LoadOrGenerateSelfSigned (rn_tls env) (rc_InternalsDir cfg) (rc_TLSHosts cfg) fs of
        (Inl e, fs1) \<Rightarrow> (Some (TLSSetup e), None, s, fs1)
      | (Inr cert, fs1) \<Rightarrow>
          (serve (rn_closeErr env) (rn_exit env),
           Some (http_server_on ('':'' @ Itoa (rc_Port cfg)) (Static cert) True), s, fs1))"

definition runHTTP :: "('k, 'c) run_env \<Rightarrow> 'a run_config \<Rightarrow> 'a server_state \<Rightarrow> file_system \<Rightarrow> ('a, 'c) run_result" where
  "runHTTP env cfg s fs =
     (serveHTTP (rn_closeErr env) (rn_exit env),
      Some (http_server_on (''127.0.0.1:'' @ Itoa (rc_Port cfg)) NoTLS False), s, fs)"

definition clean_sessions :: "auth_env \<Rightarrow> 'a server_state \<Rightarrow> 'a server_state" where
  "clean_sessions ae s = put_auth (CleanExpiredSessions (ae_faults ae) (ae_now ae) (sv_auth s)) s"

text \<open>One tick of the hourly clean-up.\<close>

definition cleanup_tick :: "auth_env \<Rightarrow> egress_faults \<Rightarrow> 'a run_config \<Rightarrow> 'a server_state \<Rightarrow> 'a server_state" where
  "cleanup_tick ae fl cfg s =
     (let s1 = clean_sessions ae s in
      if rc_HasEgressStore cfg
      then put_egress (snd (PruneLog fl (ae_now ae) (30 * 24 * hour) (egress_of s1))) s1 else s1)"

text \<open>
  \<open>Run\<close>: its error, the server that listened - with \<open>NewRouter\<close> over \<open>router_config\<close> as its handler -
  and the state at the moment it started to listen.
\<close>

definition Run :: "('k, 'c) run_env \<Rightarrow> 'a run_config \<Rightarrow> 'a server_state \<Rightarrow> file_system \<Rightarrow> ('a, 'c) run_result" where
  "Run env cfg s fs =
     (if rc_HTTPMode cfg \<and> rc_Domain cfg \<noteq> [] then (Some HTTPWithDomain, None, s, fs)
      else
        let s1 = clean_sessions (rn_auth env) s in
        if rc_HTTPMode cfg then runHTTP env cfg s1 fs
        else if rc_Domain cfg \<noteq> [] then
          (if rc_CloudflareToken cfg = [] then (Some NeedsCloudflareToken, None, s1, fs)
           else runWithCertMagic env cfg s1 fs)
        else runWithSelfSigned env cfg s1 fs)"

section \<open>Facts: where a cookie goes\<close>

text \<open>
  The rules of RFC 6265 that browsers follow: a cookie with a Domain attribute is accepted only from
  a host that matches the domain and is sent to every host that does; without one it is sent to the
  host that set it. Host names are compared in lower case, as requests carry them.
\<close>

definition domain_match :: "string \<Rightarrow> string \<Rightarrow> bool" where
  "domain_match host d \<longleftrightarrow> host = d \<or> (HasSuffix host (''.'' @ d) \<and> ParseIP host = None)"

definition cookie_accepted :: "cookie \<Rightarrow> string \<Rightarrow> bool" where
  "cookie_accepted c origin \<longleftrightarrow> ck_Domain c = [] \<or> domain_match origin (TrimPrefix (ck_Domain c) ''.'')"

definition cookie_sent :: "cookie \<Rightarrow> string \<Rightarrow> string \<Rightarrow> bool" where
  "cookie_sent c origin host \<longleftrightarrow> cookie_accepted c origin \<and>
     (if ck_Domain c = [] then host = origin else domain_match host (TrimPrefix (ck_Domain c) ''.''))"

definition session_cookie_of :: "'a run_config \<Rightarrow> string \<Rightarrow> cookie" where
  "session_cookie_of cfg token = last (rs_SetCookies (SetSessionCookie (run_cookie cfg) token new_response))"

lemma session_cookie_of_simps [simp]:
  "ck_Domain (session_cookie_of cfg token) =
     (if rc_BaseDomain cfg \<noteq> [] \<and> ParseIP (rc_BaseDomain cfg) = None then ''.'' @ rc_BaseDomain cfg else [])"
  "ck_Secure (session_cookie_of cfg token) = (\<not> rc_HTTPMode cfg)" "ck_HttpOnly (session_cookie_of cfg token)"
  "ck_SameSiteLax (session_cookie_of cfg token)" "ck_Value (session_cookie_of cfg token) = token"
  by (simp_all add: session_cookie_of_def SetSessionCookie_def SetCookie_def new_response_def run_cookie_def auth_New_def Let_def)

lemma TrimPrefix_dot: "TrimPrefix (''.'' @ d) ''.'' = d"
  by (rule TrimPrefix_append)

lemma Run_listens:
  assumes "Run env cfg s fs = (res, Some srv, s', fs')"
  shows "s' = clean_sessions (rn_auth env) s" "\<not> (rc_HTTPMode cfg \<and> rc_Domain cfg \<noteq> [])"
    "if rc_HTTPMode cfg then srv = http_server_on (''127.0.0.1:'' @ Itoa (rc_Port cfg)) NoTLS False
     else if rc_Domain cfg \<noteq> []
       then srv = http_server_on ('':'' @ Itoa (rc_Port cfg)) (Managed [rc_Domain cfg, ''*.'' @ rc_Domain cfg]) True
     else \<exists>cert. srv = http_server_on ('':'' @ Itoa (rc_Port cfg)) (Static cert) True
            \<and> LoadOrGenerateSelfSigned (rn_tls env) (rc_InternalsDir cfg) (rc_TLSHosts cfg) fs = (Ok cert, fs')"
  using assms
  by (auto simp: Run_def Let_def runHTTP_def runWithCertMagic_def runWithSelfSigned_def
      split: if_splits option.splits prod.splits sum.splits)

section \<open>Properties\<close>

text \<open>
  C28: What is exposed. A server that listens without TLS listens on 127.0.0.1 only, and only in HTTP
  mode; every other server speaks TLS 1.3 and marks the session cookie Secure. The handler it runs uses
  the same cookie settings. When it starts to listen no expired session is left, unless the statement
  that removes them failed, and neither projects nor the allowlist have changed.
\<close>

theorem run_exposure:
  assumes "Run env cfg s fs = (res, Some srv, s', fs')"
  shows "(hs_TLS srv = NoTLS \<longleftrightarrow> rc_HTTPMode cfg)
    \<and> (hs_TLS srv = NoTLS \<longrightarrow> hs_Addr srv = ''127.0.0.1:'' @ Itoa (rc_Port cfg))
    \<and> (hs_TLS srv \<noteq> NoTLS \<longrightarrow> hs_MinTLS13 srv \<and> cc_Secure (cf_Cookie (router_config cfg)))
    \<and> (\<forall>h e. \<not> ae_faults (rn_auth env) AsCleanExpired \<and> as_sessions (sv_auth s') h = Some e
         \<longrightarrow> ae_now (rn_auth env) \<le> e \<and> as_sessions (sv_auth s) h = Some e)
    \<and> sv_rows s' = sv_rows s \<and> sv_pending s' = sv_pending s \<and> as_settings (sv_auth s') = as_settings (sv_auth s)"
proof -
  note r = Run_listens [OF assms]
  have "as_sessions (sv_auth s') h = Some e \<Longrightarrow> \<not> ae_faults (rn_auth env) AsCleanExpired \<Longrightarrow>
      ae_now (rn_auth env) \<le> e \<and> as_sessions (sv_auth s) h = Some e" for h e
    by (auto simp: r(1) clean_sessions_def CleanExpiredSessions_def split: option.splits if_splits)
  moreover have "sv_rows s' = sv_rows s" "sv_pending s' = sv_pending s" "as_settings (sv_auth s') = as_settings (sv_auth s)"
    by (simp_all add: r(1) clean_sessions_def CleanExpiredSessions_def)
  moreover have "cc_Secure (cf_Cookie (router_config cfg)) = (\<not> rc_HTTPMode cfg)"
    by (simp add: router_config_def run_cookie_def Let_def)
  ultimately show ?thesis using r(3) by (auto simp: http_server_on_def split: if_splits)
qed

text \<open>
  Where the session cookie goes. When the base domain is a host name, a browser accepts the cookie
  from the dashboard and sends it to the dashboard and to every project subdomain, and to no host
  outside the base domain; a host alias outside it serves the dashboard, but a browser does not accept
  the cookie from there, so nobody can sign in through the alias. When the base domain is an address
  the cookie stays with the host that set it. Scripts cannot read the cookie.
\<close>

theorem session_cookie_scope:
  assumes "rc_BaseDomain cfg = base" "base \<noteq> []"
  shows "ck_HttpOnly (session_cookie_of cfg token)
    \<and> (ParseIP base = None \<longrightarrow>
         cookie_accepted (session_cookie_of cfg token) base \<and> cookie_sent (session_cookie_of cfg token) base base
       \<and> (\<forall>label. ParseIP (label @ ''.'' @ base) = None \<longrightarrow>
            cookie_sent (session_cookie_of cfg token) base (label @ ''.'' @ base))
       \<and> (\<forall>host. host \<noteq> base \<and> \<not> HasSuffix host (''.'' @ base) \<longrightarrow>
            \<not> cookie_sent (session_cookie_of cfg token) base host \<and> \<not> cookie_accepted (session_cookie_of cfg token) host))
    \<and> (ParseIP base \<noteq> None \<longrightarrow>
         (\<forall>origin host. cookie_sent (session_cookie_of cfg token) origin host \<longleftrightarrow> host = origin))"
proof (cases "ParseIP base")
  case None
  let ?c = "session_cookie_of cfg token"
  have d: "ck_Domain ?c = ''.'' @ base" using assms None by simp
  have acc: "cookie_accepted ?c origin \<longleftrightarrow> domain_match origin base" for origin
    unfolding cookie_accepted_def d TrimPrefix_dot by simp
  have sent: "cookie_sent ?c origin host \<longleftrightarrow> domain_match origin base \<and> domain_match host base" for origin host
    unfolding cookie_sent_def acc d TrimPrefix_dot by simp
  have "HasSuffix (label @ ''.'' @ base) (''.'' @ base)" for label by (rule HasSuffix_append)
  then show ?thesis unfolding acc sent by (simp add: domain_match_def None)
next
  case (Some a)
  then show ?thesis using assms by (auto simp: cookie_accepted_def cookie_sent_def)
qed

definition demo_run_config :: "unit run_config" where
  "demo_run_config = \<lparr>rc_Port = 443, rc_InternalsDir = ''/d'', rc_Manager = cf_Manager demo_config, rc_Agent = None,
     rc_WebFS = (\<lambda>_. False), rc_TLSHosts = [], rc_Domain = [], rc_CloudflareToken = [], rc_HTTPMode = False,
     rc_BaseDomain = ''appx.test'', rc_HostAliases = [''203.0.113.7''], rc_AgentServerURL = [], rc_AgentServerToken = [],
     rc_HasEgressStore = True, rc_HasPending = True, rc_ProjectShell = None\<rparr>"

theorem session_cookie_scope_witness:
  "cookie_sent (session_cookie_of demo_run_config ''t'') ''appx.test'' ''shop-dev.appx.test''
   \<and> \<not> cookie_accepted (session_cookie_of demo_run_config ''t'') ''203.0.113.7''"
proof -
  have scope: "cookie_sent (session_cookie_of cfg token) base (label @ ''.'' @ base) \<and> \<not> cookie_accepted (session_cookie_of cfg token) host"
    if "rc_BaseDomain cfg = base" "base \<noteq> []" "ParseIP base = None" "ParseIP (label @ ''.'' @ base) = None" "host \<noteq> base"
      "\<not> HasSuffix host (''.'' @ base)" for cfg :: "unit run_config" and token base label host
    using session_cookie_scope [OF that(1,2), of token] that(3-6) by blast
  have b: "rc_BaseDomain demo_run_config = ''appx.test''" "''appx.test'' \<noteq> []" by (simp_all add: demo_run_config_def)
  have p: "ParseIP ''appx.test'' = None" "ParseIP (''shop-dev'' @ ''.'' @ ''appx.test'') = None"
    "''203.0.113.7'' \<noteq> ''appx.test''" "\<not> HasSuffix ''203.0.113.7'' (''.'' @ ''appx.test'')" by code_simp+
  from scope [OF b p] show ?thesis by simp
qed

definition demo_run_env :: "(unit, instant) run_env" where
  "demo_run_env = \<lparr>rn_auth = demo_auth_env, rn_egress_faults = no_egress_faults, rn_tls = demo_tls_env, rn_manageErr = None,
     rn_exit = Signal, rn_closeErr = None\<rparr>"

theorem run_exposure_witness:
  "hs_TLS (the (fst (snd (Run demo_run_env (demo_run_config\<lparr>rc_HTTPMode := True\<rparr>) demo_server Map.empty)))) = NoTLS
   \<and> hs_Addr (the (fst (snd (Run demo_run_env (demo_run_config\<lparr>rc_HTTPMode := True\<rparr>) demo_server Map.empty))))
       = ''127.0.0.1:'' @ Itoa 443"
proof -
  let ?cfg = "demo_run_config\<lparr>rc_HTTPMode := True\<rparr>"
  have c: "rc_HTTPMode ?cfg" "rc_Domain ?cfg = []" "rc_Port ?cfg = 443" by (simp_all add: demo_run_config_def)
  obtain s' fs' res srv where r: "Run demo_run_env ?cfg demo_server Map.empty = (res, Some srv, s', fs')"
    by (simp add: Run_def Let_def runHTTP_def demo_run_config_def)
  from run_exposure [OF this] c r show ?thesis by simp
qed

end
