(* ===== verification/Egress_Proxy.thy ===== *)
theory Egress_Proxy
  imports Egress_Store Go_Http
begin

text \<open>
  The egress CONNECT proxy (\<^verbatim>\<open>internal/egress/proxy.go\<close>). One request is a function of the
  request, the store and what the network does: \<open>dial\<close> gives the remote address of an
  established connection, \<open>hijack\<close> what taking over the client connection does. Besides the reply
  and the new store it returns the network actions in order.
\<close>

section \<open>Handler\<close>

datatype hijack = NoHijacker | HijackFails | Hijacked

datatype net_action = Dial string | CloseDest | StartTunnel ip

record connect_env =
  ce_dial :: "string \<Rightarrow> ip option"
  ce_hijack :: hijack
  ce_now :: instant
  ce_faults :: egress_faults

definition proxy_ServeHTTP ::
  "connect_env \<Rightarrow> bool \<Rightarrow> http_request \<Rightarrow> http_response \<times> egress_store
     \<Rightarrow> http_response \<times> egress_store \<times> net_action list" where
  "proxy_ServeHTTP env allowInternal r ws =
     (case ws of (w, s) \<Rightarrow>
      if rq_Method r \<noteq> ''CONNECT'' then (http_Error w ''only CONNECT is supported'' 405, s, [])
      else (case SplitHostPort (rq_Host r) of
        None \<Rightarrow> (http_Error w ''invalid host:port'' 400, s, [])
      | Some (host, portStr) \<Rightarrow>
        (case Atoi portStr of
          None \<Rightarrow> (http_Error w ''invalid port'' 400, s, [])
        | Some port \<Rightarrow>
          let allowed = IsAllowed host port s;
              s' = snd (LogEntry (ce_faults env) (ce_now env) host port allowed s) in
          if \<not> allowed then (http_Error w ''destination not in allowlist'' 403, s', [])
          else (case ce_dial env (rq_Host r) of
            None \<Rightarrow> (http_Error w ''failed to connect to destination'' 502, s', [Dial (rq_Host r)])
          | Some addr \<Rightarrow>
              if \<not> allowInternal \<and> (IsLoopback addr \<or> IsPrivate addr \<or> IsLinkLocalUnicast addr)
              then (http_Error w ''destination resolved to internal address'' 403, s',
                    [Dial (rq_Host r), CloseDest])
              else (case ce_hijack env of
                NoHijacker \<Rightarrow> (http_Error w ''hijack not supported'' 500, s', [Dial (rq_Host r), CloseDest])
              | HijackFails \<Rightarrow> (w, s', [Dial (rq_Host r), CloseDest])
              | Hijacked \<Rightarrow> (w, s', [Dial (rq_Host r), StartTunnel addr]))))))"

section \<open>The tunnel\<close>

text \<open>
  Two goroutines copy one direction each and close their target when their copy ends. A copy ends
  when its source is at its end or closed, its target is closed, or the deadline has passed. The
  state: whether each connection was closed on our side, and whether each copier is done.
\<close>

record tunnel =
  tn_client_closed :: bool
  tn_dest_closed :: bool
  tn_up_done :: bool
  tn_down_done :: bool

definition new_tunnel :: tunnel where
  "new_tunnel = \<lparr>tn_client_closed = False, tn_dest_closed = False, tn_up_done = False, tn_down_done = False\<rparr>"

text \<open>\<open>ceof\<close> and \<open>deof\<close>: the peer ended its side; \<open>late\<close>: the deadline has passed.\<close>

inductive tunnel_step :: "bool \<Rightarrow> bool \<Rightarrow> bool \<Rightarrow> tunnel \<Rightarrow> tunnel \<Rightarrow> bool" for ceof deof late where
  up_ends: "\<not> tn_up_done t \<Longrightarrow> ceof \<or> late \<or> tn_client_closed t \<or> tn_dest_closed t \<Longrightarrow>
     tunnel_step ceof deof late t (t\<lparr>tn_up_done := True, tn_dest_closed := True\<rparr>)"
| down_ends: "\<not> tn_down_done t \<Longrightarrow> deof \<or> late \<or> tn_client_closed t \<or> tn_dest_closed t \<Longrightarrow>
     tunnel_step ceof deof late t (t\<lparr>tn_down_done := True, tn_client_closed := True\<rparr>)"

definition tunnel_ok :: "tunnel \<Rightarrow> bool" where
  "tunnel_ok t \<longleftrightarrow> (tn_dest_closed t \<longleftrightarrow> tn_up_done t) \<and> (tn_client_closed t \<longleftrightarrow> tn_down_done t)"

lemma tunnel_ok_step: "tunnel_step ceof deof late t t' \<Longrightarrow> tunnel_ok t \<Longrightarrow> tunnel_ok t'"
  by (induction rule: tunnel_step.induct) (auto simp: tunnel_ok_def)

lemma tunnel_ok_run: "(tunnel_step ceof deof late)\<^sup>*\<^sup>* new_tunnel t \<Longrightarrow> tunnel_ok t"
proof (induction rule: rtranclp_induct)
  case base
  show ?case by (simp add: new_tunnel_def tunnel_ok_def)
qed (rule tunnel_ok_step)

text \<open>The number of copiers still running.\<close>

definition copiers :: "tunnel \<Rightarrow> nat" where
  "copiers t = of_bool (\<not> tn_up_done t) + of_bool (\<not> tn_down_done t)"

lemma copiers_step: "tunnel_step ceof deof late t t' \<Longrightarrow> copiers t' < copiers t"
  by (induction rule: tunnel_step.induct) (auto simp: copiers_def)

section \<open>Properties\<close>

text \<open>
  C4: What the proxy lets out. A connection attempt is made only for a CONNECT request to a
  destination on the allowlist; a tunnel is started only on a connection whose remote address is
  not loopback, private or link-local, so a name that resolves to an internal address at dial time
  is refused; a connection that is not tunnelled is closed; and the allowlist is not changed.
\<close>

theorem proxy_confines_egress:
  assumes "proxy_ServeHTTP env False r (w, s) = (w', s', acts)"
  shows "(acts \<noteq> [] \<longrightarrow> rq_Method r = ''CONNECT'' \<and> hd acts = Dial (rq_Host r)
            \<and> (\<exists>host portStr port. SplitHostPort (rq_Host r) = Some (host, portStr)
                 \<and> Atoi portStr = Some port \<and> IsAllowed host port s))
       \<and> (\<forall>addr. StartTunnel addr \<in> set acts \<longrightarrow> ce_dial env (rq_Host r) = Some addr
            \<and> \<not> IsLoopback addr \<and> \<not> IsPrivate addr \<and> \<not> IsLinkLocalUnicast addr)
       \<and> (\<forall>addr. ce_dial env (rq_Host r) = Some addr \<and> acts \<noteq> [] \<longrightarrow>
            last acts = CloseDest \<or> last acts = StartTunnel addr)
       \<and> (\<forall>host port. IsAllowed host port s' = IsAllowed host port s)"
  using assms eg.allowed_record
  by (auto simp: proxy_ServeHTTP_def Let_def split: if_splits option.splits prod.splits hijack.splits)

definition demo_env :: connect_env where
  "demo_env = \<lparr>ce_dial = (\<lambda>_. Some (v4InV6Prefix @ [192, 168, 1, 1])), ce_hijack = Hijacked, ce_now = 5,
     ce_faults = no_egress_faults\<rparr>"

definition connect_request :: "string \<Rightarrow> http_request" where
  "connect_request host = base_request\<lparr>rq_Method := ''CONNECT'', rq_Host := host, rq_Path := [],
     rq_RemoteAddr := ''172.17.0.2:40000''\<rparr>"

text \<open>An allowed name that resolves to 192.168.1.1 is dialled and dropped.\<close>

theorem proxy_confines_egress_witness:
  "snd (snd (proxy_ServeHTTP demo_env False (connect_request ''a.example.org:443'') (new_response, one_wildcard)))
     = [Dial ''a.example.org:443'', CloseDest]
   \<and> IsAllowed ''a.example.org'' 443
       (fst (snd (proxy_ServeHTTP demo_env False (connect_request ''a.example.org:443'')
          (new_response, one_wildcard))))"
proof -
  let ?p = "proxy_ServeHTTP demo_env False (connect_request ''a.example.org:443'') (new_response, one_wildcard)"
  have "snd (snd ?p) = [Dial ''a.example.org:443'', CloseDest]" "IsAllowed ''a.example.org'' 443 one_wildcard"
    by code_simp+
  moreover have "?p = (fst ?p, fst (snd ?p), snd (snd ?p))" by simp
  note proxy_confines_egress [OF this]
  ultimately show ?thesis by blast
qed

text \<open>
  Every attempt is on record. A CONNECT request with a readable destination appends exactly
  one log entry, with the host, the port, the verdict and the time; other requests append none.
\<close>

theorem proxy_logs_every_attempt:
  assumes "proxy_ServeHTTP env allowInternal r (w, s) = (w', s', acts)" "\<not> ce_faults env EgInsertLog"
  shows "eg_log s' = eg_log s @
    (if rq_Method r \<noteq> ''CONNECT'' then []
     else (case SplitHostPort (rq_Host r) of
             None \<Rightarrow> []
           | Some (host, portStr) \<Rightarrow>
               (case Atoi portStr of
                  None \<Rightarrow> []
                | Some port \<Rightarrow>
                    [\<lparr>le_ID = eg_next_id s, le_Destination = host, le_Port = port,
                      le_Allowed = IsAllowed host port s, le_Timestamp = ce_now env\<rparr>])))"
  using assms
  by (auto simp: proxy_ServeHTTP_def LogEntry_def Let_def
      split: if_splits option.splits prod.splits hijack.splits)

theorem proxy_logs_every_attempt_witness:
  "map le_Destination (eg_log (fst (snd (proxy_ServeHTTP demo_env False
      (connect_request ''evil.com:443'') (new_response, one_wildcard))))) = [''evil.com'']"
proof -
  let ?p = "proxy_ServeHTTP demo_env False (connect_request ''evil.com:443'') (new_response, one_wildcard)"
  have "SplitHostPort ''evil.com:443'' = Some (''evil.com'', ''443'')" "Atoi ''443'' = Some 443"
    by code_simp+
  then show ?thesis
    using proxy_logs_every_attempt [of demo_env False "connect_request ''evil.com:443''" new_response one_wildcard
        "fst ?p" "fst (snd ?p)" "snd (snd ?p)"]
    by (simp add: demo_env_def no_egress_faults_def connect_request_def one_wildcard_def)
qed

text \<open>
  A tunnel is torn down on both sides: once either peer has ended its side or the deadline has
  passed, the tunnel can always take another step until both copiers are done and both
  connections are closed, and every step ends one of the two copiers, so the run is finite.
\<close>

theorem tunnel_closes_both:
  assumes "(tunnel_step ceof deof late)\<^sup>*\<^sup>* new_tunnel t" "ceof \<or> deof \<or> late"
  shows "((\<exists>t'. tunnel_step ceof deof late t t')
       \<or> (tn_client_closed t \<and> tn_dest_closed t \<and> tn_up_done t \<and> tn_down_done t))
     \<and> (\<forall>t'. tunnel_step ceof deof late t t' \<longrightarrow> copiers t' < copiers t)"
proof (intro conjI allI impI copiers_step)
  have ok: "tunnel_ok t" using assms(1) by (rule tunnel_ok_run)
  show "(\<exists>t'. tunnel_step ceof deof late t t')
       \<or> (tn_client_closed t \<and> tn_dest_closed t \<and> tn_up_done t \<and> tn_down_done t)"
  proof (cases "tn_up_done t \<and> tn_down_done t")
    case True
    then show ?thesis using ok by (simp add: tunnel_ok_def)
  next
    case False
    then consider "\<not> tn_up_done t" "ceof \<or> late \<or> tn_down_done t"
      | "\<not> tn_down_done t" "deof \<or> late \<or> tn_up_done t" using assms(2) by blast
    then show ?thesis
      using ok by cases (auto simp: tunnel_ok_def intro: tunnel_step.intros)
  qed
qed

theorem tunnel_closes_both_witness:
  "\<exists>t'. tunnel_step True False False new_tunnel t'"
  using tunnel_closes_both [of True False False new_tunnel] by (auto simp: new_tunnel_def)

end
