(* ===== verification/Egress_Listener.thy ===== *)
theory Egress_Listener
  imports Egress_Pending Egress_Proxy Go_Mux
begin

text \<open>
  The two listeners for the agent (\<^verbatim>\<open>internal/egress/listener.go\<close>, the constructor and \<^verbatim>\<open>Serve\<close> of
  \<^verbatim>\<open>internal/egress/proxy.go\<close>): their servers, the routing of the internal one and the whole life of
  one permission request. What happens to the registry while a handler waits is an argument.
\<close>

section \<open>Servers\<close>

record egress_server =
  es_Addr :: string
  es_ReadHeaderTimeout :: duration
  es_WriteTimeout :: "duration option"
  es_IdleTimeout :: "duration option"

definition ProxyPort :: string where
  "ProxyPort = ''9080''"

definition InternalPort :: string where
  "InternalPort = ''9081''"

definition InternalAddr :: string where
  "InternalAddr = ''127.0.0.1:9081''"

text \<open>The proxy without its store, which is part of the state.\<close>

record proxy_config =
  px_allowInternal :: bool

definition NewProxy :: proxy_config where
  "NewProxy = \<lparr>px_allowInternal = False\<rparr>"

text \<open>
  \<open>listenErr\<close> and \<open>serveErr\<close> are what \<^verbatim>\<open>net.Listen\<close> and \<^verbatim>\<open>Serve\<close> report; a listener that could not be
  opened serves nothing.
\<close>

definition proxy_Serve :: "string \<Rightarrow> string \<Rightarrow> string \<times> egress_server option" where
  "proxy_Serve serveErr addr =
     (serveErr, Some \<lparr>es_Addr = addr, es_ReadHeaderTimeout = 10 * second, es_WriteTimeout = Some (30 * second),
        es_IdleTimeout = Some (30 * second)\<rparr>)"

definition proxy_ListenAndServe :: "string option \<Rightarrow> string \<Rightarrow> string \<Rightarrow> string \<times> egress_server option" where
  "proxy_ListenAndServe listenErr serveErr addr =
     (case listenErr of Some e \<Rightarrow> (''egress proxy listen: '' @ e, None) | None \<Rightarrow> proxy_Serve serveErr addr)"

definition ListenAndServeInternalAddr :: "string option \<Rightarrow> string \<Rightarrow> string \<Rightarrow> string \<times> egress_server option" where
  "ListenAndServeInternalAddr listenErr serveErr addr =
     (case listenErr of
        Some e \<Rightarrow> (''egress internal listener: '' @ e, None)
      | None \<Rightarrow> (serveErr, Some \<lparr>es_Addr = addr, es_ReadHeaderTimeout = 10 * second, es_WriteTimeout = None,
                  es_IdleTimeout = None\<rparr>))"

definition ListenAndServeInternal :: "string option \<Rightarrow> string \<Rightarrow> string \<times> egress_server option" where
  "ListenAndServeInternal listenErr serveErr = ListenAndServeInternalAddr listenErr serveErr InternalAddr"

section \<open>A permission request\<close>

definition egress_body :: "http_request \<Rightarrow> (string \<times> int \<times> string) option" where
  "egress_body r =
     Option.bind (Option.bind (decode_body r) struct_fields) (\<lambda>fs.
     Option.bind (string_field ''host'' fs) (\<lambda>host.
     Option.bind (int_field ''port'' fs) (\<lambda>port.
     map_option (\<lambda>reason. (host, port, reason)) (string_field ''reason'' fs))))"

datatype wait_event = Received bool | ChanClosed | TimerFired

text \<open>
  One call of the handler. \<open>wait\<close> gives the branch its \<^verbatim>\<open>select\<close> takes and the registry at that moment.
  A resolution that would block for ever or panic leaves the response unsent.
\<close>

definition handleEgressRequest ::
  "egress_faults \<Rightarrow> marshal \<Rightarrow> byte list \<Rightarrow> instant \<Rightarrow> (pending_request \<Rightarrow> pending_state \<Rightarrow> wait_event \<times> pending_state)
     \<Rightarrow> pending_state handler" where
  "handleEgressRequest fl marshal rnd now wait r ws =
     (case ws of (w, st) \<Rightarrow>
        case egress_request_guard (egress_body r) of
          Inl (msg, code) \<Rightarrow> (http_Error w msg code, st)
        | Inr (host, port, reason) \<Rightarrow>
            (case pend_Add rnd now host port reason st of (req, st1) \<Rightarrow>
               (case wait req st1 of
                  (Received v, st2) \<Rightarrow> (egress_reply v False w, st2)
                | (ChanClosed, st2) \<Rightarrow> (egress_reply False False w, st2)
                | (TimerFired, st2) \<Rightarrow>
                    (case pend_Resolve fl marshal (pr_ID req) False st2 of
                       None \<Rightarrow> (w, st2) | Some (_, st3) \<Rightarrow> (egress_reply False True w, st3)))))"

definition newInternalHandler ::
  "egress_faults \<Rightarrow> marshal \<Rightarrow> byte list \<Rightarrow> instant \<Rightarrow> (pending_request \<Rightarrow> pending_state \<Rightarrow> wait_event \<times> pending_state)
     \<Rightarrow> pending_state handler" where
  "newInternalHandler fl marshal rnd now wait =
     mux_ServeHTTP [\<lparr>rt_Method = ''POST'', rt_Segs = [Lit ''egress'', Lit ''request''],
                     rt_Handler = handleEgressRequest fl marshal rnd now wait\<rparr>]"

section \<open>Facts\<close>

text \<open>The registry invariant survives the whole call, if what happens meanwhile keeps it.\<close>

lemma pend_Resolve_ok:
  assumes "reg_ok st" "own_ok st []"
  shows "\<exists>ok st'. pend_Resolve fl marshal rid approved st = Some (ok, st') \<and> reg_ok st' \<and> own_ok st' []
    \<and> pd_requests st' rid = None"
proof (cases "pend_take rid st")
  case None
  then have "pd_requests st rid = None" by (simp add: pend_take_def)
  then show ?thesis using assms None by (intro exI [of _ False] exI [of _ st]) (simp add: pend_Resolve_def)
next
  case (Some p)
  obtain req st1 where p: "pend_take rid st = Some (req, st1)" using Some by (cases p) simp
  define st2 where "st2 = (if approved then pend_grant fl marshal req st1 else st1)"
  have start: "reg_ok st1" "own_ok st1 [after_take req approved]"
    using take_inv [OF assms p, of approved] by simp_all
  have inv: "reg_ok st2 \<and> own_ok st2 [RSend req approved]"
  proof (cases approved)
    case True
    then show ?thesis using resolver_inv [OF start, of 0 fl marshal "RSend req True" st2] start
      by (simp add: st2_def after_take_def resolver_step.grant)
  qed (use start in \<open>simp add: st2_def after_take_def\<close>)
  then have "hist_ok st2" "undecided st2 req" by (auto simp: reg_ok_def own_ok_def)
  then obtain st3 where s3: "chan_send (pr_done req) approved st2 = Some st3" using undecided_send by blast
  have inv3: "reg_ok st3 \<and> own_ok st3 [RClose req]"
    using resolver_inv [of st2 "[RSend req approved]" 0 fl marshal "RClose req" st3] inv s3
    by (simp add: resolver_step.send)
  then obtain st4 where s4: "chan_close (pr_done req) st3 = Some st4" using open_close by (fastforce simp: own_ok_def)
  have "reg_ok st4 \<and> own_ok st4 [RDone]"
    using resolver_inv [of st3 "[RClose req]" 0 fl marshal RDone st4] inv3 s4 by (simp add: resolver_step.close)
  moreover have "pd_requests st4 rid = None"
    using chan_ops_requests(1) [OF s3] chan_ops_requests(2) [OF s4] p by (auto simp: st2_def pend_grant_def pend_take_def)
  ultimately show ?thesis
    using own_ok_front [of st4 "[]" RDone] p s3 s4
    by (intro exI [of _ True] exI [of _ st4]) (simp add: pend_Resolve_def st2_def [symmetric])
qed

lemma internal_route:
  assumes "newInternalHandler fl marshal rnd now wait r (w0, st) = (w, st')"
  obtains (request) bs where "rq_Method r = ''POST''" "map pathUnescape (path_segs (rq_EscapedPath r)) = [''egress'', ''request'']"
      "handleEgressRequest fl marshal rnd now wait (r\<lparr>rq_PathValues := bs\<rparr>) (w0, st) = (w, st')"
  | (other) "st' = st" "rs_Body w0 = NoBody \<longrightarrow> (\<nexists>v. rs_Body w = JsonBody v)"
  using assms [unfolded newInternalHandler_def]
proof (cases rule: mux_ServeHTTP_cases)
  case (route p bs)
  have "segs_match [Lit ''egress'', Lit ''request''] xs \<Longrightarrow> map pathUnescape xs = [''egress'', ''request'']" for xs
    by (auto elim!: segs_match.elims)
  then show ?thesis using route request by auto
next
  case (redirect l)
  then show ?thesis by (intro other) (auto simp: http_redirect_def Let_def http_defs split: if_splits option.splits)
next
  case (error msg code)
  then show ?thesis by (intro other) auto
next
  case bad
  then show ?thesis by (intro other) (auto simp: WriteHeader_def split: option.splits)
qed

lemma egress_body_PathValues [simp]: "egress_body (r\<lparr>rq_PathValues := bs\<rparr>) = egress_body r"
proof -
  have "decode_body (r\<lparr>rq_PathValues := bs\<rparr>) = decode_body r"
    by (cases "rq_BodyLimit r") (simp_all add: decode_body_def)
  then show ?thesis by (simp add: egress_body_def)
qed

section \<open>Properties\<close>

text \<open>
  C27: The agent's listener. Only POST /egress/request with a host and a port registers anything, and then
  exactly one request; everything else leaves the registry as it was. The reply says allowed only when
  the verdict received on the request's channel was positive, and timeout only when the timer fired,
  after which the request is no longer registered and the registry still works. Provided nobody else
  breaks the registry meanwhile, a registered request is always answered with 200.
\<close>

theorem listener_contract:
  assumes run: "newInternalHandler fl marshal rnd now wait r (w0, st) = (w, st')"
    and fresh: "rs_Sent w0 = None" "rs_Body w0 = NoBody" "pd_requests st (randomID rnd) = None"
    and ok: "reg_ok st" "own_ok st []"
    and others: "\<And>req st1 ev st2. reg_ok st1 \<Longrightarrow> own_ok st1 [] \<Longrightarrow> wait req st1 = (ev, st2) \<Longrightarrow> reg_ok st2 \<and> own_ok st2 []"
  shows "reg_ok st' \<and> own_ok st' []
    \<and> (st' = st \<and> (\<nexists>v. rs_Body w = JsonBody v)
       \<or> (\<exists>host port reason req st1 ev st2. rq_Method r = ''POST'' \<and> egress_body r = Some (host, port, reason) \<and> host \<noteq> [] \<and> port \<noteq> 0
            \<and> pend_Add rnd now host port reason st = (req, st1) \<and> wait req st1 = (ev, st2)
            \<and> rs_status w = 200
            \<and> rs_Body w = JsonBody (JObj [(''allowed'', JBool (ev = Received True)), (''timeout'', JBool (ev = TimerFired))])
            \<and> (ev = TimerFired \<longrightarrow> pd_requests st' (pr_ID req) = None) \<and> (ev \<noteq> TimerFired \<longrightarrow> st' = st2)))"
  using run
proof (cases rule: internal_route)
  case other
  then show ?thesis using ok fresh(2) by auto
next
  case (request bs)
  show ?thesis
  proof (cases "egress_request_guard (egress_body r)")
    case (Inl e)
    then show ?thesis using request(3) ok by (auto simp: handleEgressRequest_def split: prod.splits)
  next
    case (Inr g)
    obtain host port reason where b: "egress_body r = Some (host, port, reason)" "host \<noteq> []" "port \<noteq> 0" "g = (host, port, reason)"
      using Inr by (auto simp: egress_request_guard_def split: option.splits if_splits)
    obtain req st1 where a: "pend_Add rnd now host port reason st = (req, st1)" by fastforce
    obtain ev st2 where e: "wait req st1 = (ev, st2)" by fastforce
    have "reg_ok st1 \<and> own_ok st1 []" by (rule add_inv [OF ok fresh(3) a])
    then have ok2: "reg_ok st2" "own_ok st2 []" using others e by blast+
    obtain found st3 where r3: "pend_Resolve fl marshal (pr_ID req) False st2 = Some (found, st3)" "reg_ok st3" "own_ok st3 []"
      "pd_requests st3 (pr_ID req) = None"
      using pend_Resolve_ok [OF ok2] by blast
    have reply: "rs_status (egress_reply x y w0) = 200"
      "rs_Body (egress_reply x y w0) = JsonBody (JObj [(''allowed'', JBool x), (''timeout'', JBool y)])" for x y
      using fresh(1) by (simp_all add: egress_reply_def http_defs)
    have res: "(w, st') = (case ev of Received v \<Rightarrow> (egress_reply v False w0, st2) | ChanClosed \<Rightarrow> (egress_reply False False w0, st2)
        | TimerFired \<Rightarrow> (egress_reply False True w0, st3))"
      using request(3) Inr a e r3(1) by (auto simp: handleEgressRequest_def b split: wait_event.splits)
    show ?thesis
      using res reply ok2 r3 request(1) b a e by (cases ev) auto
  qed
qed

definition ask_request :: http_request where
  "ask_request = base_request\<lparr>rq_Method := ''POST'', rq_Path := ''/egress/request'', rq_EscapedPath := ''/egress/request'',
     rq_Json := Some (JObj [(''host'', JStr ''x.org''), (''port'', JNum 80)])\<rparr>"

theorem listener_contract_witness:
  "\<exists>w st'. newInternalHandler no_egress_faults lines_marshal [1] 0 (\<lambda>req st. (TimerFired, st)) ask_request
       (new_response, NewPendingRegistry one_wildcard) = (w, st')
     \<and> rs_Body w = JsonBody (JObj [(''allowed'', JBool False), (''timeout'', JBool True)]) \<and> pd_requests st' ''01'' = None"
proof -
  let ?wait = "\<lambda>(req :: pending_request) (st :: pending_state). (TimerFired, st)" and ?st = "NewPendingRegistry one_wildcard"
  let ?p = "newInternalHandler no_egress_faults lines_marshal [1] 0 ?wait ask_request (new_response, ?st)"
  have p: "?p = (fst ?p, snd ?p)" by simp
  have fresh: "rs_Sent new_response = None" "rs_Body new_response = NoBody" "pd_requests ?st (randomID [1]) = None"
    by (simp_all add: new_response_def NewPendingRegistry_def)
  have ok: "reg_ok ?st" "own_ok ?st []" using pend_inv_init [of one_wildcard] by (simp_all add: pend_inv_def pend_init_def)
  have others: "?wait req st1 = (ev, st2) \<Longrightarrow> reg_ok st1 \<Longrightarrow> own_ok st1 [] \<Longrightarrow> reg_ok st2 \<and> own_ok st2 []" for req st1 ev st2 by simp
  have body: "rs_Body (fst ?p) = JsonBody (JObj [(''allowed'', JBool False), (''timeout'', JBool True)])" by code_simp
  have id: "pr_ID req = ''01''" if "pend_Add [1] 0 host port reason ?st = (req, st1)" for host port reason req st1
  proof -
    have "randomID [1] = ''01''" by code_simp
    then show ?thesis using that by (auto simp: pend_Add_def Let_def)
  qed
  have "pd_requests (snd ?p) ''01'' = None"
    using listener_contract [OF p fresh ok others] body id by fastforce
  then show ?thesis using p body by blast
qed

end
