(* ===== verification/Server_Invariant.thy ===== *)
theory Server_Invariant
  imports Server_Run Egress_Listener
begin

text \<open>
  The well-formedness of the server's shared state - project table, approval registry, terminal
  registry. It is kept by every request through \<open>NewRouter\<close>, because every handler keeps it, and by
  everything that goes on beside the requests (\<open>background_step\<close>): connections of the agent to the proxy
  and the internal listener, the hourly and the limiter's clean-up, the goroutines of the terminals.
\<close>

section \<open>The approval registry\<close>

text \<open>
  Every registered request is filed under its identifier, with an open, empty channel of its own. The
  history in \<open>pd_sent\<close> plays no part.
\<close>

definition registry_ok :: "pending_state \<Rightarrow> bool" where
  "registry_ok st \<longleftrightarrow>
     (\<forall>rid req. pd_requests st rid = Some req \<longrightarrow>
        pr_ID req = rid \<and> chan_open st (pr_done req) \<and> ch_buf (pd_chans st ! pr_done req) = [])
   \<and> (\<forall>rid req rid' req'. pd_requests st rid = Some req \<longrightarrow> pd_requests st rid' = Some req' \<longrightarrow>
        pr_done req = pr_done req' \<longrightarrow> rid = rid')"

lemma registry_okD:
  assumes "registry_ok st" "pd_requests st rid = Some req"
  shows "pr_ID req = rid" "pr_done req < length (pd_chans st)" "\<not> ch_closed (pd_chans st ! pr_done req)"
    "ch_buf (pd_chans st ! pr_done req) = []"
    "pd_requests st rid' = Some req' \<Longrightarrow> pr_done req = pr_done req' \<Longrightarrow> rid = rid'"
  using assms by (auto simp: registry_ok_def chan_open_def)

lemma registry_okI:
  assumes "\<And>rid req. pd_requests st rid = Some req \<Longrightarrow>
      pr_ID req = rid \<and> pr_done req < length (pd_chans st) \<and> \<not> ch_closed (pd_chans st ! pr_done req)
      \<and> ch_buf (pd_chans st ! pr_done req) = []"
    "\<And>rid req rid' req'. pd_requests st rid = Some req \<Longrightarrow> pd_requests st rid' = Some req' \<Longrightarrow>
      pr_done req = pr_done req' \<Longrightarrow> rid = rid'"
  shows "registry_ok st"
  unfolding registry_ok_def chan_open_def using assms by blast

lemma registry_ok_new [inv_keep]: "registry_ok (NewPendingRegistry es)"
  by (simp add: registry_ok_def NewPendingRegistry_def)

lemma registry_ok_store [inv_keep]: "registry_ok st \<Longrightarrow> registry_ok (st\<lparr>pd_store := es\<rparr>)"
  by (simp add: registry_ok_def chan_open_def)

lemma registry_ok_add [inv_keep]:
  assumes "registry_ok st" "pd_requests st (randomID rnd) = None"
  shows "registry_ok (snd (pend_Add rnd now host port reason st))"
proof (rule registry_okI)
  let ?st' = "snd (pend_Add rnd now host port reason st)" and ?id = "randomID rnd" and ?n = "length (pd_chans st)"
  have chans: "length (pd_chans ?st') = Suc ?n" "pd_chans ?st' ! c = (if c = ?n then \<lparr>ch_buf = [], ch_closed = False\<rparr> else pd_chans st ! c)"
    if "c \<le> ?n" for c
    using that by (auto simp: pend_Add_def Let_def nth_append)
  have cases: "rid = ?id \<and> pr_ID req = ?id \<and> pr_done req = ?n \<or> pd_requests st rid = Some req"
    if "pd_requests ?st' rid = Some req" for rid req
    using that by (auto simp: pend_Add_def Let_def split: if_splits)
  fix rid req assume req: "pd_requests ?st' rid = Some req"
  show "pr_ID req = rid \<and> pr_done req < length (pd_chans ?st') \<and> \<not> ch_closed (pd_chans ?st' ! pr_done req)
      \<and> ch_buf (pd_chans ?st' ! pr_done req) = []"
    using cases [OF req] registry_okD(1-4) [OF assms(1), of rid req] chans [of "pr_done req"] by auto
  fix rid' req' assume req': "pd_requests ?st' rid' = Some req'" "pr_done req = pr_done req'"
  have "pd_requests st r = Some q \<Longrightarrow> pr_done q \<noteq> ?n" for r q using registry_okD(2) [OF assms(1), of r q] by auto
  then show "rid = rid'"
    using cases [OF req] cases [OF req'(1)] req'(2) registry_okD(5) [OF assms(1), of rid req rid' req'] by auto
qed

lemma registry_ok_drop:
  assumes "registry_ok st" "pd_requests st rid = Some req" "pd_requests st' = (pd_requests st)(rid := None)"
    "pd_chans st' = (pd_chans st)[pr_done req := ch]"
  shows "registry_ok st'"
proof -
  have old: "pd_requests st rid' = Some req' \<and> pr_done req' \<noteq> pr_done req" if "pd_requests st' rid' = Some req'" for rid' req'
    using that assms(3) registry_okD(5) [OF assms(1,2)] by (auto split: if_splits)
  show ?thesis
  proof (rule registry_okI)
    fix r q assume "pd_requests st' r = Some q"
    then show "pr_ID q = r \<and> pr_done q < length (pd_chans st') \<and> \<not> ch_closed (pd_chans st' ! pr_done q)
        \<and> ch_buf (pd_chans st' ! pr_done q) = []"
      using old [of r q] registry_okD(1-4) [OF assms(1), of r q] by (simp add: assms(4))
  next
    fix r q r' q' assume "pd_requests st' r = Some q" "pd_requests st' r' = Some q'" "pr_done q = pr_done q'"
    then show "r = r'" using old [of r q] old [of r' q'] registry_okD(5) [OF assms(1)] by blast
  qed
qed

lemma registry_ok_recv [inv_keep]:
  assumes "registry_ok st" "ch_buf (pd_chans st ! c) = v # rest"
  shows "registry_ok (st\<lparr>pd_chans := (pd_chans st)[c := (pd_chans st ! c)\<lparr>ch_buf := rest\<rparr>]\<rparr>)"
proof -
  have other: "pr_done req \<noteq> c" if "pd_requests st rid = Some req" for rid req
    using assms(2) registry_okD(4) [OF assms(1) that] by auto
  show ?thesis
  proof (rule registry_okI)
    fix r q assume "pd_requests (st\<lparr>pd_chans := (pd_chans st)[c := (pd_chans st ! c)\<lparr>ch_buf := rest\<rparr>]\<rparr>) r = Some q"
    then show "pr_ID q = r \<and> pr_done q < length (pd_chans (st\<lparr>pd_chans := (pd_chans st)[c := (pd_chans st ! c)\<lparr>ch_buf := rest\<rparr>]\<rparr>))
        \<and> \<not> ch_closed (pd_chans (st\<lparr>pd_chans := (pd_chans st)[c := (pd_chans st ! c)\<lparr>ch_buf := rest\<rparr>]\<rparr>) ! pr_done q)
        \<and> ch_buf (pd_chans (st\<lparr>pd_chans := (pd_chans st)[c := (pd_chans st ! c)\<lparr>ch_buf := rest\<rparr>]\<rparr>) ! pr_done q) = []"
      using other [of r q] registry_okD(1-4) [OF assms(1), of r q] by simp
  qed (use registry_okD(5) [OF assms(1)] in auto)
qed

lemma registry_send_close:
  assumes "registry_ok st" "pd_requests st rid = Some req" "pd_chans st1 = pd_chans st"
  shows "\<exists>st2 st3. chan_send (pr_done req) v st1 = Some st2 \<and> chan_close (pr_done req) st2 = Some st3
    \<and> pd_requests st3 = pd_requests st1 \<and> (\<exists>ch. pd_chans st3 = (pd_chans st)[pr_done req := ch])"
proof -
  have "\<not> ch_closed (pd_chans st1 ! pr_done req)" "ch_buf (pd_chans st1 ! pr_done req) = []"
    "pr_done req < length (pd_chans st1)"
    using assms by (auto simp: registry_ok_def chan_open_def)
  then show ?thesis using assms(3) by (auto simp: chan_send_def chan_close_def Let_def)
qed

lemma registry_ok_Resolve [inv_keep]:
  assumes "registry_ok st"
  shows "\<exists>ok st'. pend_Resolve fl marshal rid approved st = Some (ok, st') \<and> registry_ok st'"
proof (cases "pd_requests st rid")
  case None
  then show ?thesis using assms by (intro exI [of _ False] exI [of _ st]) (simp add: pend_Resolve_def pend_take_def)
next
  case (Some req)
  let ?st1 = "st\<lparr>pd_requests := (pd_requests st)(rid := None)\<rparr>"
  let ?st2 = "if approved then pend_grant fl marshal req ?st1 else ?st1"
  have "pd_chans ?st2 = pd_chans st" "pd_requests ?st2 = (pd_requests st)(rid := None)" by (simp_all add: pend_grant_def)
  with registry_send_close [OF assms Some] obtain st3 st4 ch where
    s: "chan_send (pr_done req) approved ?st2 = Some st3" "chan_close (pr_done req) st3 = Some st4"
      "pd_requests st4 = (pd_requests st)(rid := None)" "pd_chans st4 = (pd_chans st)[pr_done req := ch]" by metis
  then have "registry_ok st4" using registry_ok_drop [OF assms Some] by blast
  then show ?thesis using s(1,2) Some
    by (intro exI [of _ True] exI [of _ st4]) (simp add: pend_Resolve_def pend_take_def)
qed

lemma registry_ok_cleanup [inv_keep]: "registry_ok st \<Longrightarrow> \<exists>st'. pend_cleanup now ids st = Some st' \<and> registry_ok st'"
proof (induction now ids st rule: pend_cleanup.induct)
  case (2 now rid ids st)
  show ?case
  proof (cases "\<exists>req. pd_requests st rid = Some req \<and> pend_expired now req")
    case False
    then show ?thesis using 2 by (cases "pd_requests st rid") auto
  next
    case True
    then obtain req where req: "pd_requests st rid = Some req" "pend_expired now req" by blast
    obtain st2 st3 ch where s: "chan_send (pr_done req) False st = Some st2" "chan_close (pr_done req) st2 = Some st3"
      "pd_requests st3 = pd_requests st" "pd_chans st3 = (pd_chans st)[pr_done req := ch]"
      using registry_send_close [OF 2(4) req(1) refl] by metis
    have sent: "chan_try_send (pr_done req) False st = Some st2"
      using s(1) by (auto simp: chan_try_send_def chan_send_def Let_def split: if_splits)
    have "registry_ok (st3\<lparr>pd_requests := (pd_requests st3)(rid := None)\<rparr>)"
      using s(3,4) by (intro registry_ok_drop [OF 2(4) req(1), where ch = ch]) simp_all
    with 2(2) [OF req(1) req(2) sent s(2)] show ?thesis using req sent s(2) by simp
  qed
qed simp

section \<open>Well-formed server states\<close>

definition server_ok :: "'a server_state \<Rightarrow> bool" where
  "server_ok s \<longleftrightarrow> rows_ok (sv_rows s) \<and> registry_ok (sv_pending s) \<and> lm_ok (sv_local s)"

text \<open>The identifiers that one request draws at random are new.\<close>

definition fresh_ids :: "server_env \<Rightarrow> 'a server_state \<Rightarrow> bool" where
  "fresh_ids env s \<longleftrightarrow> lm_heap (sv_local s) (se_uuid env) = None"

lemma server_ok_update [simp]:
  "server_ok (put_auth st s) = server_ok s" "server_ok (put_limiter rl s) = server_ok s"
  "fresh_ids env (put_auth st s) = fresh_ids env s" "fresh_ids env (put_limiter rl s) = fresh_ids env s"
  by (simp_all add: server_ok_def fresh_ids_def put_auth_def put_limiter_def)

text \<open>The contract of every handler: the state stays well-formed.\<close>

abbreviation preserves :: "server_env \<Rightarrow> 'a server_state handler \<Rightarrow> bool" where
  "preserves env \<equiv> meets (\<lambda>_. True) (\<lambda>s. server_ok s \<and> fresh_ids env s) (\<lambda>_. server_ok)"

interpretation preserved: limited_contract "\<lambda>_. True" "\<lambda>s. server_ok s \<and> fresh_ids env s" "\<lambda>_. server_ok" for env
  by unfold_locales simp_all

lemma server_ok_egress [inv_keep]: "server_ok s \<Longrightarrow> server_ok (put_egress es s)"
  by (simp add: server_ok_def put_egress_def registry_ok_store)

lemma server_ok_pending [inv_keep]: "server_ok s \<Longrightarrow> registry_ok st \<Longrightarrow> server_ok (put_pending st s)"
  by (simp add: server_ok_def put_pending_def)

lemma server_ok_local [inv_keep]: "server_ok s \<Longrightarrow> lm_ok lm \<Longrightarrow> server_ok (put_local lm s)"
  by (simp add: server_ok_def put_local_def)

lemma server_ok_projects [inv_keep]: "server_ok s \<Longrightarrow> rows_ok rows \<Longrightarrow> server_ok (s\<lparr>sv_rows := rows, sv_agent := a\<rparr>)"
  by (simp add: server_ok_def)

section \<open>Every handler\<close>

lemma rows_ok_mgr_Create: "rows_ok rows \<Longrightarrow> mgr_Create ag m fl uuid now name (rows, a) = (res, rows', a') \<Longrightarrow> rows_ok rows'"
  using rows_ok_Create [of rows fl uuid now name] rows_ok_Delete
  by (auto simp: mgr_Create_def split: prod.splits sum.splits option.splits)

lemma rows_ok_mgr_Delete: "rows_ok rows \<Longrightarrow> mgr_Delete ag fl pid (rows, a) = (res, rows', a') \<Longrightarrow> rows_ok rows'"
  using rows_ok_Delete [of rows fl pid]
  by (auto simp: mgr_Delete_def split: prod.splits sum.splits option.splits)

lemma preserves_projects:
  "preserves env (handleListProjects env cfg)" "preserves env (handleGetProject env cfg)"
  "preserves env (handleCreateProject env cfg)" "preserves env (handleDeleteProject env cfg)"
proof -
  show "preserves env (handleListProjects env cfg)" "preserves env (handleGetProject env cfg)"
    by (auto intro!: meetsI simp: handleListProjects_def handleGetProject_def Let_def split: sum.splits)
  show "preserves env (handleCreateProject env cfg)"
    by (rule meetsI) (auto simp: handleCreateProject_def Let_def intro!: server_ok_projects
        dest: rows_ok_mgr_Create [rotated] split: option.splits prod.splits sum.splits simp: server_ok_def)
  show "preserves env (handleDeleteProject env cfg)"
    by (rule meetsI) (auto simp: handleDeleteProject_def Let_def intro!: server_ok_projects
        dest: rows_ok_mgr_Delete [rotated] split: option.splits prod.splits simp: server_ok_def)
qed

lemma preserves_settings:
  "preserves env (handleChangePassword env ck)" "preserves env (handleGetTerminalBufferSize env)"
  "preserves env (handleSetTerminalBufferSize env)" "preserves env (handleGetConfig domain)" "preserves env (handleLogout env ck)"
  "preserves env (handleLogin env ck)"
  by (auto intro!: meetsI simp: handleChangePassword_def handleGetTerminalBufferSize_def handleSetTerminalBufferSize_def
      handleGetConfig_def handleLogout_def handleLogin_def Let_def split: option.splits prod.splits sum.splits)

lemma preserves_egress:
  "preserves env (handleGetEgressLog env)" "preserves env handleGetAllowlist" "preserves env (handleSetAllowlist env)"
  by (auto intro!: meetsI server_ok_egress simp: handleGetEgressLog_def handleGetAllowlist_def handleSetAllowlist_def
      split: option.splits prod.splits)

lemma preserves_pending: "preserves env (handleGetEgressPending env :: 'a server_state handler)"
proof (rule meetsI)
  fix r :: http_request and w and s :: "'a server_state" assume "server_ok s \<and> fresh_ids env s"
  then have ok: "server_ok s" by simp
  then obtain st where "pend_cleanup (se_now env) (se_map_order env) (sv_pending s) = Some st" "registry_ok st"
    using registry_ok_cleanup unfolding server_ok_def by blast
  with ok show "server_ok (snd (handleGetEgressPending env r (w, s)))"
    by (simp add: handleGetEgressPending_def pend_List_def server_ok_pending)
qed

lemma preserves_resolve: "preserves env (resolve_reply env approved :: 'a server_state handler)"
proof (rule meetsI)
  fix r :: http_request and w and s :: "'a server_state" assume "server_ok s \<and> fresh_ids env s"
  then have ok: "server_ok s" by simp
  then obtain b st where "pend_Resolve (se_egress_faults env) (se_marshal env) (PathValue r ''id'') approved (sv_pending s) = Some (b, st)"
    "registry_ok st"
    using registry_ok_Resolve unfolding server_ok_def by blast
  with ok show "server_ok (snd (resolve_reply env approved r (w, s)))"
    by (simp add: resolve_reply_def Let_def server_ok_pending)
qed

lemma server_ok_CreateCommand:
  assumes "server_ok s" "fresh_ids env s"
    "CreateCommand os ptyOk (se_uuid env) now spec (sv_local s) = (res, lm)"
  shows "server_ok (put_local lm s)"
  using assms lm_ok_create [of "sv_local s" "se_uuid env" os ptyOk now spec]
  by (auto simp: server_ok_def fresh_ids_def put_local_def)

lemma server_ok_local_Create:
  assumes "server_ok s" "fresh_ids env s" "local_Create os ptyOk (se_uuid env) now cwd (sv_local s) = (res, lm)"
  shows "server_ok (put_local lm s)"
  using assms server_ok_CreateCommand [of s env os ptyOk now] by (auto simp: local_Create_def split: prod.splits)

lemma preserves_shell:
  "preserves env (handleShellCreate env)" "preserves env (handleShellResize env)" "preserves env (handleShellConnect env)"
  "preserves env (handleProjectShellCreate env cfg)"
proof -
  show "preserves env (handleShellResize env)" "preserves env (handleShellConnect env)"
    by (auto intro!: meetsI simp: handleShellResize_def handleShellConnect_def Let_def split: option.splits prod.splits sum.splits)
  show "preserves env (handleShellCreate env)"
    by (rule meetsI) (auto simp: handleShellCreate_def intro: server_ok_local_Create split: prod.splits sum.splits)
  show "preserves env (handleProjectShellCreate env cfg)"
    by (rule meetsI) (auto simp: handleProjectShellCreate_def open_project_shell_def Let_def
        intro: server_ok_local_Create server_ok_CreateCommand split: prod.splits sum.splits option.splits if_splits)
qed

lemma preserves_agent:
  "preserves env (agentServerProxyHandler env url token)" "preserves env (agentServerMirrorHandler env url token)"
  "preserves env (spaHandler webFS)"
  by (auto intro!: meetsI simp: agentServerProxyHandler_def agentServerReverseProxy_def agentServerMirrorHandler_def
      invalid_backend_def spaHandler_def reverse_proxy_def Let_def split: option.splits sum.splits prod.splits)

lemmas preserves_handlers = preserves_projects preserves_settings preserves_egress preserves_pending preserves_resolve
  preserves_shell preserves_agent

lemma preserves_router: "preserves env (NewRouter env cfg)"
  by (rule preserved.all_routes) (auto simp: own_handlers_def preserves_handlers)

section \<open>What goes on in the background\<close>

text \<open>
  What goes on without a browser's request: connections of the agent to the two listeners, the
  clean-ups, and the goroutines of open terminals with their WebSocket connections. A terminal is
  created by a request only.
\<close>

fun creates_terminal :: "lm_event \<Rightarrow> bool" where
  "creates_terminal (LmCreate os ptyOk uuid now spec) = True"
| "creates_terminal _ = False"

inductive background_step :: "'a server_state \<Rightarrow> 'a server_state \<Rightarrow> bool" where
  proxy: "proxy_ServeHTTP ce False r (w, egress_of s) = (w', es, acts) \<Longrightarrow> background_step s (put_egress es s)"
| agent_asks: "pd_requests (sv_pending s) (randomID rnd) = None \<Longrightarrow>
    background_step s (put_pending (snd (pend_Add rnd now host port reason (sv_pending s))) s)"
| agent_answered: "ch_buf (pd_chans (sv_pending s) ! c) = v # rest \<Longrightarrow>
    background_step s (put_pending ((sv_pending s)\<lparr>pd_chans := (pd_chans (sv_pending s))[c :=
      (pd_chans (sv_pending s) ! c)\<lparr>ch_buf := rest\<rparr>]\<rparr>) s)"
| agent_timer: "pend_Resolve fl marshal rid False (sv_pending s) = Some (found, st) \<Longrightarrow> background_step s (put_pending st s)"
| hourly: "background_step s (cleanup_tick ae fl rc s)"
| limiter: "background_step s (put_limiter (rl_cleanup now (sv_limiter s)) s)"
| terminal: "\<not> creates_terminal e \<Longrightarrow> lm_step e (sv_local s) = Some lm \<Longrightarrow> background_step s (put_local lm s)"

lemma lm_fresh_event: "\<not> creates_terminal e \<Longrightarrow> lm_fresh e m"
  by (cases e) simp_all

lemma server_ok_background: "background_step s s' \<Longrightarrow> server_ok s \<Longrightarrow> server_ok s'"
proof (induction rule: background_step.induct)
  case (agent_asks s rnd now host port reason)
  then show ?case by (intro server_ok_pending registry_ok_add) (simp_all add: server_ok_def)
next
  case (agent_answered s c v rest)
  then show ?case by (intro server_ok_pending registry_ok_recv) (simp_all add: server_ok_def)
next
  case (agent_timer fl marshal rid s found st)
  then have "registry_ok st" using registry_ok_Resolve [of "sv_pending s" fl marshal rid False] by (auto simp: server_ok_def)
  then show ?case using agent_timer(2) by (intro server_ok_pending)
next
  case (terminal e s lm)
  then have "lm_ok lm" using lm_ok_step [of "sv_local s" e] lm_fresh_event by (auto simp: server_ok_def)
  then show ?case using terminal(3) by (intro server_ok_local)
qed (auto simp: cleanup_tick_def clean_sessions_def Let_def intro: server_ok_egress)

lemma addresses_row: "addresses row label port \<Longrightarrow> port \<in> set (row_ports row)"
  by (auto simp: addresses_def row_ports_def)

lemma addresses_unique:
  assumes "rows_ok rows" "r1 \<in> set rows" "r2 \<in> set rows" "addresses r1 l1 p1" "addresses r2 l2 p2"
  shows "l1 = l2 \<longleftrightarrow> p1 = p2"
proof -
  have same_row: "r1 = r2" if "r_name r1 = r_name r2"
    using assms(1-3) that by (auto simp: rows_ok_def dest: inj_onD [OF distinct_map [THEN iffD1, THEN conjunct2]])
  have nodev: "r_name r1 \<noteq> r_name r2 @ ''-dev''" "r_name r2 \<noteq> r_name r1 @ ''-dev''"
    using assms(1-3) valid_name_no_dev HasSuffix_append unfolding rows_ok_def list_all_iff by metis+
  show ?thesis
  proof
    assume "l1 = l2"
    then have "r_name r1 = r_name r2" using assms(4,5) nodev by (auto simp: addresses_def)
    then show "p1 = p2" using same_row assms(4,5) \<open>l1 = l2\<close> nodev by (auto simp: addresses_def)
  next
    assume "p1 = p2"
    then have "r1 = r2" using rows_ok_ports_exclusive [OF assms(1-3)] assms(4,5) addresses_row by blast
    then show "l1 = l2"
      using assms(4,5) \<open>p1 = p2\<close> rows_ok_envs_distinct [OF assms(1,2)] by (auto simp: addresses_def row_ports_def)
  qed
qed

text \<open>What a well-formed state gives: nothing that can happen next gets stuck.\<close>

lemma server_ok_not_stuck:
  assumes "server_ok s"
  shows "rows_ok (sv_rows s)"
    "\<forall>r1 \<in> set (sv_rows s). \<forall>r2 \<in> set (sv_rows s). \<forall>l1 l2 p1 p2. addresses r1 l1 p1 \<and> addresses r2 l2 p2 \<longrightarrow> (l1 = l2 \<longleftrightarrow> p1 = p2)"
    "pend_Resolve fl marshal rid approved (sv_pending s) \<noteq> None" "pend_List now ids (sv_pending s) \<noteq> None"
    "lm_fresh e (sv_local s) \<Longrightarrow> lm_step e (sv_local s) \<noteq> None"
proof -
  have ok: "rows_ok (sv_rows s)" "registry_ok (sv_pending s)" "lm_ok (sv_local s)"
    using assms by (simp_all add: server_ok_def)
  show "rows_ok (sv_rows s)" by (rule ok)
  show "\<forall>r1 \<in> set (sv_rows s). \<forall>r2 \<in> set (sv_rows s). \<forall>l1 l2 p1 p2. addresses r1 l1 p1 \<and> addresses r2 l2 p2 \<longrightarrow> (l1 = l2 \<longleftrightarrow> p1 = p2)"
    using addresses_unique [OF ok(1)] by blast
  show "pend_Resolve fl marshal rid approved (sv_pending s) \<noteq> None"
    using registry_ok_Resolve [OF ok(2)] by (metis option.distinct(1))
  show "pend_List now ids (sv_pending s) \<noteq> None"
    using registry_ok_cleanup [OF ok(2), of now ids] by (auto simp: pend_List_def)
  show "lm_step e (sv_local s) \<noteq> None" if "lm_fresh e (sv_local s)" using lm_ok_step [OF ok(3) that] by auto
qed

end
