(* ===== verification/Db_Open.thy ===== *)
theory Db_Open
  imports Container_Token
begin

text \<open>
  Opening the database (\<^verbatim>\<open>internal/db/db.go\<close>). A \<^verbatim>\<open>sql.DB\<close> is a pool: a statement runs on an idle
  connection, or on a new one when none is idle, and a PRAGMA changes the connection it runs on. The
  failures of the driver and of the migration library are arguments; the migrations themselves are
  SQL.
\<close>

section \<open>The pool\<close>

text \<open>A connection is the list of the PRAGMAs run on it, the latest last.\<close>

type_synonym db_conn = "string list"

record sql_db =
  sd_idle :: "db_conn list"
  sd_closed :: bool

definition sql_Close :: "sql_db \<Rightarrow> sql_db" where
  "sql_Close db = db\<lparr>sd_idle := [], sd_closed := True\<rparr>"

definition take_conn :: "sql_db \<Rightarrow> db_conn \<times> sql_db" where
  "take_conn db = (case sd_idle db of [] \<Rightarrow> ([], db) | c # cs \<Rightarrow> (c, db\<lparr>sd_idle := cs\<rparr>))"

definition put_conn :: "db_conn \<Rightarrow> sql_db \<Rightarrow> sql_db" where
  "put_conn c db = db\<lparr>sd_idle := c # sd_idle db\<rparr>"

datatype up_result = UpDone | UpNoChange | UpFailed string

text \<open>
  \<open>de_execErr\<close> tells which statements fail, and what they leave at the path of the database;
  \<open>de_created\<close> is the file SQLite creates with its first statement when there is none.
\<close>

record db_env =
  de_mkdirErr :: bool
  de_openErr :: bool
  de_execErr :: "string \<Rightarrow> disk_file option option"
  de_created :: disk_file
  de_chmodErr :: bool
  de_sourceErr :: bool
  de_driverErr :: bool
  de_migratorErr :: bool
  de_up :: up_result

datatype migrate_error = MigrationSource | MigrationDriver | Migrator | RunMigrations string

datatype db_error = CreateDataDir | OpenFailed | SetPragma string | ChmodDB | MigrateFailed migrate_error

definition db_Exec :: "db_env \<Rightarrow> string \<Rightarrow> string \<Rightarrow> sql_db \<Rightarrow> file_system \<Rightarrow> bool \<times> sql_db \<times> file_system" where
  "db_Exec env path q db fs =
     (case take_conn db of (c, db1) \<Rightarrow>
        (case de_execErr env q of
           Some left \<Rightarrow> (False, put_conn c db1, fs(path := left))
         | None \<Rightarrow>
             (True, put_conn (c @ [q]) db1,
              if fs path = None then fs(path \<mapsto> de_created env) else fs)))"

section \<open>Opening\<close>

definition pragmas :: "string list" where
  "pragmas = [''PRAGMA journal_mode=WAL'', ''PRAGMA foreign_keys=ON'', ''PRAGMA busy_timeout=5000'']"

text \<open>The loop over the PRAGMAs; the result is the first that fails.\<close>

fun set_pragmas :: "db_env \<Rightarrow> string \<Rightarrow> string list \<Rightarrow> sql_db \<Rightarrow> file_system \<Rightarrow> string option \<times> sql_db \<times> file_system" where
  "set_pragmas env path [] db fs = (None, db, fs)"
| "set_pragmas env path (q # qs) db fs =
     (case db_Exec env path q db fs of
        (False, db1, fs1) \<Rightarrow> (Some q, sql_Close db1, fs1)
      | (True, db1, fs1) \<Rightarrow> set_pragmas env path qs db1 fs1)"

definition runMigrations :: "db_env \<Rightarrow> migrate_error option" where
  "runMigrations env =
     (if de_sourceErr env then Some MigrationSource
      else if de_driverErr env then Some MigrationDriver
      else if de_migratorErr env then Some Migrator
      else (case de_up env of UpDone \<Rightarrow> None | UpNoChange \<Rightarrow> None | UpFailed e \<Rightarrow> Some (RunMigrations e)))"

text \<open>The error, the handle if one was opened, and the files.\<close>

definition db_Open :: "db_env \<Rightarrow> string \<Rightarrow> file_system \<Rightarrow> db_error option \<times> sql_db option \<times> file_system" where
  "db_Open env dataDir fs =
     (let dbPath = path_Join [dataDir, ''appx.db''] in
      if de_mkdirErr env then (Some CreateDataDir, None, fs)
      else if de_openErr env then (Some OpenFailed, None, fs)
      else (case set_pragmas env dbPath pragmas \<lparr>sd_idle = [], sd_closed = False\<rparr> fs of
              (Some q, db, fs1) \<Rightarrow> (Some (SetPragma q), Some db, fs1)
            | (None, db, fs1) \<Rightarrow>
                if de_chmodErr env \<or> fs1 dbPath = None then (Some ChmodDB, Some (sql_Close db), fs1)
                else
                  let fs2 = os_Chmod True dbPath fs1 in
                  (case runMigrations env of
                     Some e \<Rightarrow> (Some (MigrateFailed e), Some (sql_Close db), fs2)
                   | None \<Rightarrow> (None, Some db, fs2))))"

section \<open>Facts\<close>

lemma db_Exec_result:
  assumes "db_Exec env path q db fs = (ok, db', fs')"
  shows "sd_closed db' = sd_closed db" "p \<noteq> path \<Longrightarrow> fs' p = fs p"
    "ok \<Longrightarrow> sd_idle db' = (case sd_idle db of [] \<Rightarrow> [[q]] | c # cs \<Rightarrow> (c @ [q]) # cs)"
    "ok \<Longrightarrow> fs' path = (case fs path of None \<Rightarrow> Some (de_created env) | Some f \<Rightarrow> Some f)"
  using assms by (auto simp: db_Exec_def take_conn_def put_conn_def split: option.splits list.splits if_splits)

lemma set_pragmas_frame:
  "set_pragmas env path qs db fs = (r, db', fs') \<Longrightarrow> p \<noteq> path \<Longrightarrow> fs' p = fs p"
  by (induction qs arbitrary: db fs) (auto split: prod.splits bool.splits dest!: db_Exec_result(2))

lemma set_pragmas_result:
  assumes "set_pragmas env path qs db fs = (r, db', fs')" "sd_idle db = [c]"
  shows "if r = None then sd_idle db' = [c @ qs] \<and> sd_closed db' = sd_closed db \<and> (fs path \<noteq> None \<longrightarrow> fs' path = fs path)
    else sd_closed db'"
  using assms
proof (induction qs arbitrary: db fs c)
  case (Cons q qs)
  obtain ok db1 fs1 where e: "db_Exec env path q db fs = (ok, db1, fs1)" by (cases "db_Exec env path q db fs")
  note s = db_Exec_result [OF e]
  show ?case
  proof (cases ok)
    case True
    then have "set_pragmas env path qs db1 fs1 = (r, db', fs')" "sd_idle db1 = [c @ [q]]"
      using Cons.prems e s(3) by simp_all
    from Cons.IH [OF this] show ?thesis using True s(1,4) by (auto split: option.splits if_splits)
  next
    case False
    then show ?thesis using Cons.prems(1) e by (auto simp: sql_Close_def)
  qed
qed simp

lemma db_open_frame:
  "db_Open env dir fs = (err, h, fs') \<Longrightarrow> p \<noteq> path_Join [dir, ''appx.db''] \<Longrightarrow> fs' p = fs p"
  by (auto simp: db_Open_def Let_def os_Chmod_facts(3) set_pragmas_frame split: if_splits prod.splits option.splits)

section \<open>Properties\<close>


definition demo_db_env :: db_env where
  "demo_db_env = \<lparr>de_mkdirErr = False, de_openErr = False, de_execErr = (\<lambda>_. None), de_created = \<lparr>fl_data = [], fl_mode = 420\<rparr>,
     de_chmodErr = False, de_sourceErr = False, de_driverErr = False, de_migratorErr = False, de_up = UpNoChange\<rparr>"

lemma demo_db_open: "fst (db_Open demo_db_env dir fs) = None"
  by (simp add: db_Open_def demo_db_env_def Let_def pragmas_def db_Exec_def take_conn_def put_conn_def runMigrations_def)


end
