(* ===== verification/Appx_Main.thy ===== *)
theory Appx_Main
  imports Server_Run Egress_Listener Db_Open
begin

text \<open>
  The program's entry point (\<^verbatim>\<open>cmd/appx/main.go\<close>): settings from flags and environment, the data
  directory, the first password, the outer container, and the configuration the server runs with. A
  fatal error ends the program; it is a value here. The operating system, the container runtime and
  the database are arguments and parts of the state; logging is left out. \<^verbatim>\<open>time.ParseDuration\<close> is an
  argument as well.
\<close>

section \<open>Settings\<close>

type_synonym getenv = "string \<Rightarrow> string"

definition envOr :: "getenv \<Rightarrow> string \<Rightarrow> string \<Rightarrow> string" where
  "envOr getenv key fallback = (let v = getenv key in if v \<noteq> [] then v else fallback)"

definition envBool :: "getenv \<Rightarrow> string \<Rightarrow> bool" where
  "envBool getenv key \<longleftrightarrow> ToLower (TrimSpace (getenv key)) \<in> {''1'', ''true'', ''yes'', ''on''}"

record cli_flags =
  fg_port :: int
  fg_data :: string
  fg_host :: string
  fg_domain :: string
  fg_http :: bool
  fg_recreate :: bool

definition listen_port :: "getenv \<Rightarrow> cli_flags \<Rightarrow> int" where
  "listen_port getenv fg =
     (let p = (if fg_port fg = 0 \<and> getenv ''APPX_PORT'' \<noteq> []
               then (case Atoi (getenv ''APPX_PORT'') of Some p \<Rightarrow> p | None \<Rightarrow> fg_port fg) else fg_port fg)
      in if p = 0 then (if fg_http fg then 8080 else 443) else p)"

record settings =
  mn_port :: int
  mn_dataDir :: string
  mn_host :: string
  mn_domain :: string
  mn_http :: bool
  mn_baseDomain :: string
  mn_internalsDir :: string
  mn_containerMode :: bool
  mn_recreate :: bool
  mn_agentServerURL :: string

definition main_settings :: "getenv \<Rightarrow> cli_flags \<Rightarrow> settings" where
  "main_settings getenv fg =
     (let dataDir = (if fg_data fg = [] then envOr getenv ''APPX_DATA'' ''./data'' else fg_data fg);
          host = (if fg_host fg = [] then getenv ''APPX_HOST'' else fg_host fg);
          domain = (if fg_domain fg = [] then getenv ''APPX_DOMAIN'' else fg_domain fg)
      in \<lparr>mn_port = listen_port getenv fg, mn_dataDir = dataDir, mn_host = host, mn_domain = domain, mn_http = fg_http fg,
          mn_baseDomain = (if domain \<noteq> [] then domain else if host \<noteq> [] then host else ''localhost''),
          mn_internalsDir = path_Join [dataDir, ''.appx-internals''],
          mn_containerMode = envBool getenv ''APPX_AGENT_CONTAINER'',
          mn_recreate = (envBool getenv ''APPX_RECREATE_AGENT_CONTAINER'' \<or> fg_recreate fg),
          mn_agentServerURL = envOr getenv ''APPX_AGENT_SERVER_URL'' ''http://127.0.0.1:4001''\<rparr>)"

definition hostProjectRoot :: "string \<Rightarrow> bool \<Rightarrow> string" where
  "hostProjectRoot dataDir containerMode = (if containerMode then [] else path_Join [dataDir, ''projects''])"

section \<open>The data directory\<close>

definition legacy_files :: "string list" where
  "legacy_files = [''appx.db'', ''appx.db-wal'', ''appx.db-shm'', ''cert.pem'', ''key.pem'', ''initial_password'']"

text \<open>One file; \<open>renameErr\<close> tells for which sources \<^verbatim>\<open>os.Rename\<close> fails.\<close>

definition migrate_file :: "(string \<Rightarrow> bool) \<Rightarrow> string \<Rightarrow> string \<Rightarrow> string \<Rightarrow> file_system \<Rightarrow> file_system" where
  "migrate_file renameErr dataDir internalsDir name fs =
     (let src = path_Join [dataDir, name]; dst = path_Join [internalsDir, name] in
      case fs src of
        None \<Rightarrow> fs
      | Some f \<Rightarrow>
          if fs dst \<noteq> None then fs
          else if renameErr src then fs
          else (fs(src := None))(dst \<mapsto> f))"

definition migrateDataDir :: "(string \<Rightarrow> bool) \<Rightarrow> string \<Rightarrow> string \<Rightarrow> file_system \<Rightarrow> file_system" where
  "migrateDataDir renameErr dataDir internalsDir fs = fold (migrate_file renameErr dataDir internalsDir) legacy_files fs"

section \<open>The outer container\<close>

definition defaultNoProxy :: string where
  "defaultNoProxy = ''localhost,127.0.0.1,.docker.io,.docker.com,ghcr.io,.ghcr.io,quay.io,.quay.io,registry.k8s.io,.gcr.io,gcr.io''"

definition passthroughKeys :: "getenv \<Rightarrow> string list" where
  "passthroughKeys getenv =
     ''ANTHROPIC_API_KEY'' #
       (let extra = getenv ''APPX_AGENT_ENV_PASSTHROUGH'' in
        if extra = [] then []
        else filter (\<lambda>k. k \<noteq> [] \<and> k \<noteq> ''ANTHROPIC_API_KEY'') (map TrimSpace (Split (CHR '','') extra)))"

definition containerReadyTimeout :: "(string \<Rightarrow> duration option) \<Rightarrow> getenv \<Rightarrow> duration" where
  "containerReadyTimeout parseDuration getenv =
     (let v = getenv ''APPX_AGENT_READY_TIMEOUT'' in
      if v \<noteq> [] then (case parseDuration v of Some d \<Rightarrow> d | None \<Rightarrow> 120 * second) else 120 * second)"

text \<open>\<^verbatim>\<open>URL.Port\<close> of a parsed host.\<close>

definition url_Port :: "string \<Rightarrow> string" where
  "url_Port host =
     (case LastIndexByte host CHR '':'' of
        None \<Rightarrow> [] | Some i \<Rightarrow> if validOptionalPort (drop i host) then drop (i + 1) host else [])"

definition api_port :: "string \<Rightarrow> int" where
  "api_port agentServerURL =
     (case url_Parse agentServerURL of
        None \<Rightarrow> 4001
      | Some (_, host) \<Rightarrow>
          if url_Port host \<noteq> [] then (case Atoi (url_Port host) of Some p \<Rightarrow> p | None \<Rightarrow> 4001) else 4001)"

definition readiness_url :: "string \<Rightarrow> string" where
  "readiness_url agentServerURL = TrimRight agentServerURL ''/'' @ ''/''"

definition outer_config :: "getenv \<Rightarrow> string \<Rightarrow> string \<Rightarrow> string \<Rightarrow> container_config" where
  "outer_config getenv agentServerURL token hostGateway =
     \<lparr>oc_Image = envOr getenv ''APPX_AGENT_IMAGE'' DefaultImage,
      oc_Name = envOr getenv ''APPX_AGENT_CONTAINER_NAME'' DefaultName,
      oc_SeccompProfilePath = getenv ''APPX_AGENT_SECCOMP'',
      oc_APIBindHost = [], oc_APIPort = api_port agentServerURL,
      oc_AppBindHost = [], oc_AppPortStart = PortRangeStart, oc_AppPortEnd = PublishedPortRangeEnd,
      oc_WorkspaceVolume = envOr getenv ''APPX_AGENT_WORKSPACE_VOLUME'' DefaultWorkspaceVolume,
      oc_PodmanVolume = envOr getenv ''APPX_AGENT_PODMAN_VOLUME'' DefaultPodmanVolume,
      oc_Token = token, oc_EnvPassthrough = passthroughKeys getenv, oc_HostGateway = hostGateway,
      oc_EgressProxyURL = envOr getenv ''APPX_AGENT_EGRESS_PROXY_URL'' (''http://host.docker.internal:'' @ ProxyPort),
      oc_NoProxy = envOr getenv ''APPX_AGENT_NO_PROXY'' defaultNoProxy,
      oc_Memory = getenv ''APPX_AGENT_MEMORY'', oc_CPUs = getenv ''APPX_AGENT_CPUS'',
      oc_ReadinessURL = readiness_url agentServerURL, oc_RestartPolicy = []\<rparr>"

datatype startup_error =
    InternalsDir | OpenDB db_error | AgentToken token_error | Gateway gateway_error
  | CheckPasswordState | GenerateInitial | SetInitial | WriteInitial
  | CreateProjectRoot | NoProjectRoot | NoSeccomp | SeccompUnreadable | OuterContainer container_error

text \<open>
  What one start sees of the outside: the environment, the runtime's command line and transport, the
  operating system's failures, and the clock of the container call (whose context allows thirty
  seconds more than the readiness timeout).
\<close>

record 'd main_env =
  me_getenv :: getenv
  me_parseDuration :: "string \<Rightarrow> duration option"
  me_lookPath :: "string \<Rightarrow> bool"
  me_runner :: "'d runner"
  me_unmarshal :: "string \<Rightarrow> json option"
  me_get :: "string \<Rightarrow> instant \<Rightarrow> (string, int) result \<times> duration"
  me_containerStart :: instant
  me_waitStart :: instant
  me_pick :: "instant \<Rightarrow> bool"
  me_order :: "string list"
  me_token :: token_env
  me_mkdirErr :: "string \<Rightarrow> bool"
  me_renameErr :: "string \<Rightarrow> bool"
  me_dirExists :: "string \<Rightarrow> bool"
  me_seccompOk :: bool
  me_db :: db_env
  me_writeErr :: "string \<Rightarrow> disk_file option option"
  me_auth :: auth_env
  me_cwd :: "string option"
  me_project_faults :: faults
  me_webFS :: "string \<Rightarrow> bool"

definition container_bin :: "'d main_env \<Rightarrow> string" where
  "container_bin env = DetectBin (me_getenv env ''APPX_CONTAINER_BIN'') (me_lookPath env)"

definition ensureOuterContainer ::
  "'d main_env \<Rightarrow> string \<Rightarrow> string \<Rightarrow> string \<Rightarrow> bool \<Rightarrow> 'd \<Rightarrow> (startup_error option \<times> 'd) option" where
  "ensureOuterContainer env agentServerURL token hostGateway recreate d =
     (if me_getenv env ''APPX_AGENT_SECCOMP'' = [] then Some (Some NoSeccomp, d)
      else if \<not> me_seccompOk env then Some (Some SeccompUnreadable, d)
      else
        let spec = BuildSpec (outer_config (me_getenv env) agentServerURL token hostGateway);
            timeout = containerReadyTimeout (me_parseDuration env) (me_getenv env);
            sup = NewDockerSupervisor (me_runner env) (me_get env) (container_bin env) [WithReadyTimeout timeout];
            ce = \<lparr>cl_now = me_waitStart env, cl_parent = me_containerStart env + timeout + 30 * second,
                  cl_pick = me_pick env, cl_order = me_order env\<rparr> in
        map_option (\<lambda>(r, d'). (case r of Inl e \<Rightarrow> Some (OuterContainer e) | Inr _ \<Rightarrow> None, d'))
          (if recreate then Recreate sup spec ce d else EnsureRunning (me_unmarshal env) sup spec ce d))"

section \<open>The first password\<close>

definition init_password :: "'d main_env \<Rightarrow> string \<Rightarrow> auth_store \<Rightarrow> file_system \<Rightarrow> startup_error option \<times> auth_store \<times> file_system" where
  "init_password env internalsDir st fs =
     (let ae = me_auth env in
      case IsPasswordSet (ae_faults ae) st of
        Inl e \<Rightarrow> (Some CheckPasswordState, st, fs)
      | Inr True \<Rightarrow> (None, st, fs)
      | Inr False \<Rightarrow>
          (case GeneratePassword (ae_rnd ae) of
             Inl e \<Rightarrow> (Some GenerateInitial, st, fs)
           | Inr pw \<Rightarrow>
               (case SetPassword (ae_faults ae) (ae_bc_gen ae) pw st of
                  (Some e, st1) \<Rightarrow> (Some SetInitial, st1, fs)
                | (None, st1) \<Rightarrow>
                    let pwFile = path_Join [internalsDir, ''initial_password''] in
                    (case me_writeErr env pwFile of
                       Some left \<Rightarrow> (Some WriteInitial, st1, fs(pwFile := left))
                     | None \<Rightarrow> (None, st1, os_WriteFile pwFile (pw @ [CHR 0x0A]) fs)))))"

section \<open>Starting\<close>

record ('d, 'a) main_state =
  ms_fs :: file_system
  ms_docker :: 'd
  ms_auth :: auth_store
  ms_rows :: "project_row list"
  ms_agent :: 'a

text \<open>Token, egress address and host alias; only container mode needs the runtime for them.\<close>

definition agent_access ::
  "'d main_env \<Rightarrow> settings \<Rightarrow> file_system \<Rightarrow> 'd \<Rightarrow> (startup_error, string \<times> string \<times> string) result \<times> file_system \<times> 'd" where
  "agent_access env mn fs d =
     (let bind = envOr (me_getenv env) ''APPX_EGRESS_BIND'' ''127.0.0.1'' in
      if \<not> mn_containerMode mn then (Ok (me_getenv env ''APPX_AGENT_SERVER_TOKEN'', bind, []), fs, d)
      else (case LoadOrCreateToken (me_token env) (path_Join [mn_internalsDir mn, ''agent-server-token'']) fs of
              (Inl e, fs1) \<Rightarrow> (Err (AgentToken e), fs1, d)
            | (Inr tok, fs1) \<Rightarrow>
                if me_getenv env ''APPX_EGRESS_BIND'' \<noteq> [] then (Ok (tok, bind, ''host-gateway''), fs1, d)
                else (case BridgeGateway (me_unmarshal env) (container_bin env) (me_runner env) d of
                        (Inl e, d1) \<Rightarrow> (Err (Gateway e), fs1, d1)
                      | (Inr gw, d1) \<Rightarrow> (Ok (tok, gw, ''host-gateway''), fs1, d1))))"

definition project_root_error :: "'d main_env \<Rightarrow> settings \<Rightarrow> startup_error option" where
  "project_root_error env mn =
     (let root = hostProjectRoot (mn_dataDir mn) (mn_containerMode mn) in
      if root = [] then None
      else if mn_http mn then (if me_mkdirErr env root then Some CreateProjectRoot else None)
      else if \<not> me_dirExists env root then Some NoProjectRoot else None)"

definition project_shell :: "'d main_env \<Rightarrow> settings \<Rightarrow> container_shell option" where
  "project_shell env mn =
     (let name = (if mn_containerMode mn then envOr (me_getenv env) ''APPX_AGENT_CONTAINER_NAME'' DefaultName
                  else me_getenv env ''APPX_PROJECT_SHELL_CONTAINER'') in
      if name = [] then None
      else Some \<lparr>cn_Bin = container_bin env, cn_Container = name,
             cn_WorkspaceDir = envOr (me_getenv env) ''APPX_PROJECT_SHELL_WORKSPACE'' DefaultWorkspaceDest,
             cn_Shell = me_getenv env ''APPX_PROJECT_SHELL''\<rparr>)"

definition main_run_config :: "'d main_env \<Rightarrow> settings \<Rightarrow> (string \<Rightarrow> 'a registrar) \<Rightarrow> string \<Rightarrow> 'a run_config" where
  "main_run_config env mn client token =
     (let hosts = (if mn_host mn \<noteq> [] then [mn_host mn] else []);
          pm = (NewManager (me_cwd env) (hostProjectRoot (mn_dataDir mn) (mn_containerMode mn)))
                 \<lparr>pm_BaseDomain := mn_baseDomain mn, pm_HTTPMode := mn_http mn, pm_ExternalPort := mn_port mn\<rparr>
      in \<lparr>rc_Port = mn_port mn, rc_InternalsDir = mn_internalsDir mn, rc_Manager = pm, rc_Agent = Some (client token),
          rc_WebFS = me_webFS env, rc_TLSHosts = hosts, rc_Domain = mn_domain mn,
          rc_CloudflareToken = me_getenv env ''CLOUDFLARE_API_TOKEN'', rc_HTTPMode = mn_http mn,
          rc_BaseDomain = mn_baseDomain mn, rc_HostAliases = hosts, rc_AgentServerURL = mn_agentServerURL mn,
          rc_AgentServerToken = token, rc_HasEgressStore = True, rc_HasPending = True,
          rc_ProjectShell = project_shell env mn\<rparr>)"

record 'a startup =
  su_run :: "'a run_config"
  su_proxyAddr :: string
  su_internalAddr :: string

text \<open>
  \<open>main\<close> up to the call of \<open>server.Run\<close>; \<open>client\<close> is the agent-server client for a token. Errors of
  the reconciliation are only logged.
\<close>

definition main_start ::
  "'d main_env \<Rightarrow> cli_flags \<Rightarrow> (string \<Rightarrow> 'a registrar) \<Rightarrow> ('d, 'a) main_state
     \<Rightarrow> ((startup_error, 'a startup) result \<times> ('d, 'a) main_state) option" where
  "main_start env fg client s =
     (let mn = main_settings (me_getenv env) fg; internals = mn_internalsDir mn in
      if me_mkdirErr env internals then Some (Err InternalsDir, s)
      else
        let fs1 = migrateDataDir (me_renameErr env) (mn_dataDir mn) internals (ms_fs s) in
        (case db_Open (me_db env) internals fs1 of
          (Some e, _, fsd) \<Rightarrow> Some (Err (OpenDB e), s\<lparr>ms_fs := fsd\<rparr>)
        | (None, _, fsd) \<Rightarrow>
        (case agent_access env mn fsd (ms_docker s) of
          (Inl e, fs2, d2) \<Rightarrow> Some (Err e, s\<lparr>ms_fs := fs2, ms_docker := d2\<rparr>)
        | (Inr (token, bind, gateway), fs2, d2) \<Rightarrow>
          (case init_password env internals (ms_auth s) fs2 of
            (Some e, st, fs3) \<Rightarrow> Some (Err e, s\<lparr>ms_fs := fs3, ms_docker := d2, ms_auth := st\<rparr>)
          | (None, st, fs3) \<Rightarrow>
              let s3 = s\<lparr>ms_fs := fs3, ms_docker := d2, ms_auth := st\<rparr>; run = main_run_config env mn client token in
              (case project_root_error env mn of
                 Some e \<Rightarrow> Some (Err e, s3)
               | None \<Rightarrow>
                   (case (if mn_containerMode mn
                          then ensureOuterContainer env (mn_agentServerURL mn) token gateway (mn_recreate mn) d2
                          else Some (None, d2)) of
                      None \<Rightarrow> None
                    | Some (Some e, d4) \<Rightarrow> Some (Err e, s3\<lparr>ms_docker := d4\<rparr>)
                    | Some (None, d4) \<Rightarrow>
                        Some (Ok \<lparr>su_run = run, su_proxyAddr = JoinHostPort bind ProxyPort,
                                  su_internalAddr = JoinHostPort bind InternalPort\<rparr>,
                          s3\<lparr>ms_docker := d4,
                             ms_agent := snd (ReconcileAgentProjects (rc_Agent run) (rc_Manager run) (me_project_faults env)
                                                (ms_rows s) (ms_agent s))\<rparr>)))))))"

section \<open>Facts: moving the legacy files\<close>

abbreviation old_path :: "string \<Rightarrow> string \<Rightarrow> string" where
  "old_path dir name \<equiv> path_Join [dir, name]"

text \<open>What happens at the two paths of one file.\<close>

definition moves :: "(string \<Rightarrow> bool) \<Rightarrow> string \<Rightarrow> string \<Rightarrow> file_system \<Rightarrow> bool" where
  "moves renameErr src dst fs \<longleftrightarrow> fs src \<noteq> None \<and> fs dst = None \<and> \<not> renameErr src"

lemma migrate_file_here:
  assumes "old_path dir n \<noteq> old_path inn n"
  shows "migrate_file re dir inn n fs (old_path dir n) =
      (if moves re (old_path dir n) (old_path inn n) fs then None else fs (old_path dir n))"
    "migrate_file re dir inn n fs (old_path inn n) =
      (if moves re (old_path dir n) (old_path inn n) fs then fs (old_path dir n) else fs (old_path inn n))"
  using assms by (auto simp: migrate_file_def moves_def Let_def split: option.splits)

lemma migrate_file_frame:
  "p \<noteq> old_path dir n \<Longrightarrow> p \<noteq> old_path inn n \<Longrightarrow> migrate_file re dir inn n fs p = fs p"
  by (auto simp: migrate_file_def Let_def split: option.splits)

lemma fold_migrate_frame:
  "p \<notin> set (map (old_path dir) ns @ map (old_path inn) ns) \<Longrightarrow> fold (migrate_file re dir inn) ns fs p = fs p"
  by (induction ns arbitrary: fs) (simp_all add: migrate_file_frame)

lemma fold_migrate_here:
  assumes "distinct (map (old_path dir) ns @ map (old_path inn) ns)" "n \<in> set ns"
  shows "fold (migrate_file re dir inn) ns fs (old_path dir n) =
      (if moves re (old_path dir n) (old_path inn n) fs then None else fs (old_path dir n))
    \<and> fold (migrate_file re dir inn) ns fs (old_path inn n) =
      (if moves re (old_path dir n) (old_path inn n) fs then fs (old_path dir n) else fs (old_path inn n))"
  using assms
proof (induction ns arbitrary: fs)
  case (Cons m ns)
  let ?fs1 = "migrate_file re dir inn m fs"
  show ?case
  proof (cases "m = n")
    case True
    have "old_path dir n \<notin> set (map (old_path dir) ns @ map (old_path inn) ns)"
      "old_path inn n \<notin> set (map (old_path dir) ns @ map (old_path inn) ns)" "old_path dir n \<noteq> old_path inn n"
      using Cons.prems(1) True by auto
    then show ?thesis using True by (simp add: fold_migrate_frame migrate_file_here)
  next
    case False
    then have n: "n \<in> set ns" using Cons.prems(2) by simp
    have "old_path dir n \<noteq> old_path dir m" "old_path dir n \<noteq> old_path inn m" "old_path inn n \<noteq> old_path dir m"
      "old_path inn n \<noteq> old_path inn m"
      using Cons.prems(1) n by (auto simp: image_iff)
    then have "?fs1 (old_path dir n) = fs (old_path dir n)" "?fs1 (old_path inn n) = fs (old_path inn n)"
      by (simp_all add: migrate_file_frame)
    then show ?thesis using Cons.IH [of ?fs1] Cons.prems(1) n by (simp add: moves_def)
  qed
qed simp

lemma migrate_mixes_databases:
  assumes "distinct (map (old_path dir) legacy_files @ map (old_path inn) legacy_files)"
    "fs (old_path inn ''appx.db'') = Some new" "fs (old_path dir ''appx.db-wal'') = Some wal"
    "fs (old_path inn ''appx.db-wal'') = None" "\<not> re (old_path dir ''appx.db-wal'')"
  shows "migrateDataDir re dir inn fs (old_path inn ''appx.db'') = Some new"
    "migrateDataDir re dir inn fs (old_path inn ''appx.db-wal'') = Some wal"
proof -
  have "''appx.db'' \<in> set legacy_files" "''appx.db-wal'' \<in> set legacy_files" by (simp_all add: legacy_files_def)
  note here = this [THEN fold_migrate_here [OF assms(1), of _ re fs]]
  show "migrateDataDir re dir inn fs (old_path inn ''appx.db'') = Some new"
    unfolding migrateDataDir_def using here(1) assms(2) by (simp add: moves_def)
  show "migrateDataDir re dir inn fs (old_path inn ''appx.db-wal'') = Some wal"
    unfolding migrateDataDir_def using here(2) assms(3-5) by (simp add: moves_def)
qed

section \<open>Facts: settings of container mode\<close>

lemma envOr_neq_Nil: "fallback \<noteq> [] \<Longrightarrow> envOr g k fallback \<noteq> []"
  by (simp add: envOr_def Let_def)

lemma DefaultName_neq_Nil: "DefaultName \<noteq> []"
  by (simp add: DefaultName_def)

lemma create_token_neq_Nil:
  assumes "create_token env path fs = (Ok tok, fs')" "\<And>n b. te_rnd env n = Some b \<Longrightarrow> length b = n"
  shows "tok \<noteq> []"
  using create_token_Ok(1) [OF assms] by auto

lemma LoadOrCreateToken_neq_Nil:
  assumes "LoadOrCreateToken env path fs = (Ok tok, fs')" "\<And>n b. te_rnd env n = Some b \<Longrightarrow> length b = n"
  shows "tok \<noteq> []"
  using assms(1) create_token_neq_Nil [OF _ assms(2)]
  by (auto simp: LoadOrCreateToken_def Let_def split: option.splits if_splits)

lemma agent_access_container:
  assumes "agent_access env mn fs d = (Ok (tok, bind, gw), fs', d')" "mn_containerMode mn"
    "\<And>n b. te_rnd (me_token env) n = Some b \<Longrightarrow> length b = n"
  shows "tok \<noteq> []" "gw = ''host-gateway''"
  using assms(1,2) LoadOrCreateToken_neq_Nil [OF _ assms(3)]
  by (auto simp: agent_access_def Let_def split: if_splits prod.splits sum.splits)

lemma no_container_error: "(case r of Inl e \<Rightarrow> Some (f e) | Inr u \<Rightarrow> None) = None \<longleftrightarrow> r = Ok ()" for r :: "('e, unit) result"
  by (cases r) simp_all

lemma ensureOuterContainer_started:
  assumes "ensureOuterContainer env url token gw recreate d = Some (None, d')"
  shows "\<exists>sup ce d0. ds_bin sup = container_bin env \<and>
    (EnsureRunning (me_unmarshal env) sup (BuildSpec (outer_config (me_getenv env) url token gw)) ce d0 = Some (Ok (), d')
     \<or> Recreate sup (BuildSpec (outer_config (me_getenv env) url token gw)) ce d0 = Some (Ok (), d'))"
proof -
  let ?t = "containerReadyTimeout (me_parseDuration env) (me_getenv env)"
  let ?sup = "NewDockerSupervisor (me_runner env) (me_get env) (container_bin env) [WithReadyTimeout ?t]"
  let ?ce = "\<lparr>cl_now = me_waitStart env, cl_parent = me_containerStart env + ?t + 30 * second,
                cl_pick = me_pick env, cl_order = me_order env\<rparr>"
  let ?spec = "BuildSpec (outer_config (me_getenv env) url token gw)"
  have "(if recreate then Recreate ?sup ?spec ?ce d else EnsureRunning (me_unmarshal env) ?sup ?spec ?ce d) = Some (Ok (), d')"
    using assms by (auto simp: ensureOuterContainer_def Let_def no_container_error split: if_splits)
  moreover have "ds_bin ?sup = container_bin env" by (simp add: NewDockerSupervisor_def WithReadyTimeout_def)
  ultimately show ?thesis by (intro exI [of _ ?sup] exI [of _ ?ce] exI [of _ d]) (auto split: if_splits)
qed

lemma main_start_Ok:
  assumes "main_start env fg client s = Some (Ok su, s')"
  obtains token bind gw h fs1 fs2 d2 st fs3 where
    "db_Open (me_db env) (mn_internalsDir (main_settings (me_getenv env) fg))
       (migrateDataDir (me_renameErr env) (mn_dataDir (main_settings (me_getenv env) fg))
          (mn_internalsDir (main_settings (me_getenv env) fg)) (ms_fs s)) = (None, h, fs1)"
    "agent_access env (main_settings (me_getenv env) fg) fs1 (ms_docker s) = (Ok (token, bind, gw), fs2, d2)"
    "init_password env (mn_internalsDir (main_settings (me_getenv env) fg)) (ms_auth s) fs2 = (None, st, fs3)"
    "(if mn_containerMode (main_settings (me_getenv env) fg)
      then ensureOuterContainer env (mn_agentServerURL (main_settings (me_getenv env) fg)) token gw
             (mn_recreate (main_settings (me_getenv env) fg)) d2
      else Some (None, d2)) = Some (None, ms_docker s')"
    "su_run su = main_run_config env (main_settings (me_getenv env) fg) client token" "ms_auth s' = st"
  using assms
  by (auto simp: main_start_def Let_def split: if_splits prod.splits sum.splits option.splits)

section \<open>Facts: the first password\<close>

lemma init_password_set:
  assumes "ae_faults (me_auth env) = (\<lambda>_. False)" "as_settings st ''password_hash'' \<noteq> None"
  shows "init_password env internals st fs = (None, st, fs)"
  using assms by (simp add: init_password_def IsPasswordSet_def)

lemma init_password_fresh:
  assumes "init_password env internals st fs = (err, st', fs')" "as_settings st ''password_hash'' = None"
    "ae_faults (me_auth env) = (\<lambda>_. False)" "\<And>n b. ae_rnd (me_auth env) n = Some b \<Longrightarrow> length b = n"
  shows "err = Some GenerateInitial \<or> err = Some SetInitial
    \<or> (\<exists>pw h. length pw = 32 \<and> ae_bc_gen (me_auth env) pw (as_bcryptCost st) = Some h
          \<and> st' = st\<lparr>as_settings := (as_settings st)(''password_hash'' \<mapsto> h)\<rparr>
          \<and> (err = None \<and> fs' = os_WriteFile (path_Join [internals, ''initial_password'']) (pw @ [CHR 0x0A]) fs
              \<or> err = Some WriteInitial))"
proof (cases "ae_rnd (me_auth env) 16")
  case None
  then show ?thesis using assms by (auto simp: init_password_def GeneratePassword_def IsPasswordSet_def)
next
  case (Some b)
  have len: "length (hex_EncodeToString b) = 32" using assms(4) [OF Some] by simp
  show ?thesis
  proof (cases "ae_bc_gen (me_auth env) (hex_EncodeToString b) (as_bcryptCost st)")
    case None
    then show ?thesis using assms Some len
      by (auto simp: init_password_def IsPasswordSet_def GeneratePassword_def SetPassword_def minPasswordLen_def)
  next
    case (Some h)
    with \<open>ae_rnd (me_auth env) 16 = Some b\<close> show ?thesis using assms len
      by (intro disjI2 exI [of _ "hex_EncodeToString b"] exI [of _ h])
        (auto simp: init_password_def IsPasswordSet_def GeneratePassword_def SetPassword_def minPasswordLen_def Let_def
           split: option.splits)
  qed
qed

section \<open>Properties\<close>

text \<open>
  Moving the data directory loses nothing. For each legacy file: if it exists at the old place and not
  at the new one, and the rename works, it ends up at the new place with its contents; in every other
  case both places stay as they were - in particular nothing at the new place is overwritten. No other
  file is touched, and doing it again changes nothing.
\<close>

theorem migrate_safe:
  assumes "distinct (map (old_path dir) legacy_files @ map (old_path inn) legacy_files)"
    "fs' = migrateDataDir re dir inn fs"
  shows "(\<forall>n \<in> set legacy_files.
      (fs' (old_path dir n), fs' (old_path inn n)) =
        (if fs (old_path dir n) \<noteq> None \<and> fs (old_path inn n) = None \<and> \<not> re (old_path dir n)
         then (None, fs (old_path dir n)) else (fs (old_path dir n), fs (old_path inn n))))
    \<and> (\<forall>p. p \<notin> set (map (old_path dir) legacy_files @ map (old_path inn) legacy_files) \<longrightarrow> fs' p = fs p)
    \<and> migrateDataDir re dir inn fs' = fs'"
proof -
  note here = fold_migrate_here [OF assms(1), of _ re]
  have at: "(fs' (old_path dir n), fs' (old_path inn n)) =
      (if moves re (old_path dir n) (old_path inn n) fs then (None, fs (old_path dir n))
       else (fs (old_path dir n), fs (old_path inn n)))" if "n \<in> set legacy_files" for n
    using here [OF that, of fs] by (simp add: assms(2) migrateDataDir_def)
  have again: "migrateDataDir re dir inn fs' p = fs' p" for p
  proof (cases "p \<in> set (map (old_path dir) legacy_files @ map (old_path inn) legacy_files)")
    case False
    then show ?thesis unfolding migrateDataDir_def by (rule fold_migrate_frame)
  next
    case True
    then obtain n where n: "n \<in> set legacy_files" "p = old_path dir n \<or> p = old_path inn n" by auto
    have "\<not> moves re (old_path dir n) (old_path inn n) fs'"
      using at [OF n(1)] by (auto simp: moves_def split: if_splits)
    then show ?thesis using here [OF n(1), of fs'] n(2) by (auto simp: migrateDataDir_def)
  qed
  have "fs' p = fs p" if "p \<notin> set (map (old_path dir) legacy_files @ map (old_path inn) legacy_files)" for p
    unfolding assms(2) migrateDataDir_def using that by (rule fold_migrate_frame)
  then show ?thesis using at again by (auto simp: moves_def)
qed

text \<open>
  The first password. On the first start a password of 32 characters is generated, and the one that
  signs in afterwards is the one written to the file initial_password, readable by its owner if the
  file is new. A start that finds a password changes nothing. But the password is stored before the
  file is written: when the writing fails, the start ends with an error and leaves a password set that
  nobody has seen, and later starts do not generate another.
\<close>

theorem first_start_password:
  assumes result: "init_password env internals st fs = (err, st', fs')"
    and faults: "ae_faults (me_auth env) = (\<lambda>_. False)"
    and bcrypt: "\<And>pw c h. ae_bc_gen (me_auth env) pw c = Some h \<Longrightarrow> ae_bc_cmp (me_auth env) h pw"
    and random: "\<And>n b. ae_rnd (me_auth env) n = Some b \<Longrightarrow> length b = n"
  shows "if as_settings st ''password_hash'' \<noteq> None then err = None \<and> st' = st \<and> fs' = fs
    else (err = None \<longrightarrow> (\<exists>pw f. length pw = 32 \<and> CheckPassword (\<lambda>_. False) (ae_bc_cmp (me_auth env)) pw st' = Ok True
             \<and> fs' (path_Join [internals, ''initial_password'']) = Some f \<and> fl_data f = pw @ [CHR 0x0A]
             \<and> (fs (path_Join [internals, ''initial_password'']) = None \<longrightarrow> fl_mode f = owner_only)))
       \<and> (err = Some WriteInitial \<longrightarrow> as_settings st' ''password_hash'' \<noteq> None
             \<and> (\<forall>fs2. init_password env internals st' fs2 = (None, st', fs2)))"
proof (cases "as_settings st ''password_hash''")
  case (Some h)
  then show ?thesis using result by (simp add: init_password_set faults)
next
  case None
  let ?file = "path_Join [internals, ''initial_password'']"
  consider "err = Some GenerateInitial \<or> err = Some SetInitial"
    | (written) pw h where "length pw = 32" "ae_bc_gen (me_auth env) pw (as_bcryptCost st) = Some h"
        "st' = st\<lparr>as_settings := (as_settings st)(''password_hash'' \<mapsto> h)\<rparr>"
        "err = None \<and> fs' = os_WriteFile ?file (pw @ [CHR 0x0A]) fs \<or> err = Some WriteInitial"
    using init_password_fresh [OF result None faults random] by metis
  then show ?thesis
  proof cases
    case written
    have "CheckPassword (\<lambda>_. False) (ae_bc_cmp (me_auth env)) pw st' = Ok True"
      using bcrypt [OF written(2)] by (simp add: CheckPassword_def written(3))
    moreover have "as_settings st' ''password_hash'' \<noteq> None" by (simp add: written(3))
    ultimately show ?thesis
      using written(1,4) None by (auto simp: init_password_set faults os_WriteFile_def split: option.splits)
  qed (use None in auto)
qed


section \<open>A concrete start\<close>

theorem migrate_safe_witness:
  "migrateDataDir (\<lambda>_. False) ''/d'' ''/d/.appx-internals'' [''/d/appx.db'' \<mapsto> \<lparr>fl_data = ''rows'', fl_mode = 384\<rparr>]
     (old_path ''/d/.appx-internals'' ''appx.db'') = Some \<lparr>fl_data = ''rows'', fl_mode = 384\<rparr>"
proof -
  let ?f = "\<lparr>fl_data = ''rows'', fl_mode = 384\<rparr>"
  have "distinct (map (old_path ''/d'') legacy_files @ map (old_path ''/d/.appx-internals'') legacy_files)" by code_simp
  note safe = migrate_safe [OF this refl, of "\<lambda>_. False" "[''/d/appx.db'' \<mapsto> ?f]"]
  have p: "old_path ''/d'' ''appx.db'' = ''/d/appx.db''" "old_path ''/d/.appx-internals'' ''appx.db'' \<noteq> ''/d/appx.db''"
    "''appx.db'' \<in> set legacy_files" by code_simp+
  then show ?thesis using conjunct1 [OF safe, THEN bspec, OF p(3)] by simp
qed

definition demo_getenv :: getenv where
  "demo_getenv k =
     (case map_of [(''APPX_AGENT_CONTAINER'', ''true''), (''APPX_AGENT_SECCOMP'', ''/etc/seccomp.json''),
                   (''APPX_EGRESS_BIND'', ''172.17.0.1''), (''APPX_DATA'', ''/d''), (''APPX_DOMAIN'', ''appx.test'')] k of
        Some v \<Rightarrow> v | None \<Rightarrow> [])"

definition demo_main_env :: "bool option main_env" where
  "demo_main_env = \<lparr>me_getenv = demo_getenv, me_parseDuration = (\<lambda>_. None), me_lookPath = (\<lambda>_. True), me_runner = demo_runner,
     me_unmarshal = demo_inspect_json, me_get = (\<lambda>_ _. (Inr 200, 0)), me_containerStart = 0, me_waitStart = 0,
     me_pick = (\<lambda>_. False), me_order = demo_order, me_token = demo_token_env, me_mkdirErr = (\<lambda>_. False),
     me_renameErr = (\<lambda>_. False), me_dirExists = (\<lambda>_. True), me_seccompOk = True, me_db = demo_db_env, me_writeErr = (\<lambda>_. None),
     me_auth = demo_auth_env\<lparr>ae_rnd := (\<lambda>n. Some (replicate n 7))\<rparr>, me_cwd = Some ''/'', me_project_faults = no_faults,
     me_webFS = (\<lambda>_. False)\<rparr>"

definition demo_main_state :: "(bool option, unit) main_state" where
  "demo_main_state = \<lparr>ms_fs = Map.empty, ms_docker = None, ms_auth = auth_NewStore Map.empty Map.empty, ms_rows = [], ms_agent = ()\<rparr>"

definition demo_client :: "string \<Rightarrow> unit registrar" where
  "demo_client tok = \<lparr>EnsureProject = (\<lambda>_ _ a. (None, a)), DeleteProject = (\<lambda>_ a. (None, a))\<rparr>"

lemma demo_main_env_simps:
  "me_getenv demo_main_env = demo_getenv" "me_token demo_main_env = demo_token_env" "me_runner demo_main_env = demo_runner"
  "me_writeErr demo_main_env = (\<lambda>_. None)" "ae_faults (me_auth demo_main_env) = (\<lambda>_. False)"
  "ae_rnd (me_auth demo_main_env) = (\<lambda>n. Some (replicate n 7))" "ae_bc_gen (me_auth demo_main_env) = (\<lambda>p c. Some p)"
  "ae_bc_cmp (me_auth demo_main_env) = (\<lambda>h p. h = p)" "me_mkdirErr demo_main_env = (\<lambda>_. False)" "me_db demo_main_env = demo_db_env"
  "me_seccompOk demo_main_env"
  by (simp_all add: demo_main_env_def demo_auth_env_def ok_faults_def)

lemma demo_init_password:
  "as_settings st ''password_hash'' = None \<Longrightarrow> fst (init_password demo_main_env dir st fs) = None"
  by (simp add: init_password_def IsPasswordSet_def GeneratePassword_def SetPassword_def minPasswordLen_def demo_main_env_simps Let_def)

theorem first_start_password_witness:
  "\<exists>pw. length pw = 32 \<and> CheckPassword (\<lambda>_. False) (\<lambda>h p. h = p) pw
     (fst (snd (init_password demo_main_env ''/d'' (auth_NewStore Map.empty Map.empty) Map.empty))) = Ok True"
proof -
  let ?r = "init_password demo_main_env ''/d'' (auth_NewStore Map.empty Map.empty) Map.empty"
  have "?r = (fst ?r, fst (snd ?r), snd (snd ?r))" "ae_faults (me_auth demo_main_env) = (\<lambda>_. False)"
    "ae_bc_gen (me_auth demo_main_env) pw c = Some h \<Longrightarrow> ae_bc_cmp (me_auth demo_main_env) h pw"
    "ae_rnd (me_auth demo_main_env) n = Some b \<Longrightarrow> length b = n" for pw c h n b
    by (auto simp: demo_main_env_simps)
  note first = first_start_password [OF this]
  have n: "as_settings (auth_NewStore Map.empty Map.empty) ''password_hash'' = None" by (simp add: auth_NewStore_def)
  then have "fst ?r = None" by (rule demo_init_password)
  then show ?thesis using first n by (simp add: demo_main_env_simps) blast
qed

abbreviation demo_url :: string where
  "demo_url \<equiv> ''http://127.0.0.1:4001''"

lemma demo_Validate: "Validate (BuildSpec (outer_config demo_getenv demo_url token gw)) = []"
proof -
  have "api_port demo_url = 4001" by code_simp
  then show ?thesis
    by (simp add: Validate_Nil BuildSpec_def outer_config_def or_default_def envOr_def demo_getenv_def readiness_url_def
        DefaultImage_def AgentImage_def AgentImageRepo_def DefaultName_def PortRangeStart_def PublishedPortRangeEnd_def)
qed

lemma demo_supervisor:
  "ds_runner (NewDockerSupervisor r g bin [WithReadyTimeout t]) = r"
  "ds_ping (NewDockerSupervisor r g bin [WithReadyTimeout t]) = Some (defaultPing g)"
  by (simp_all add: NewDockerSupervisor_def WithReadyTimeout_def)

lemma demo_status:
  "docker_Status um (NewDockerSupervisor demo_runner g bin [WithReadyTimeout t]) name None = (Ok absent, None)"
proof -
  have "\<not> isDaemonUnavailable ''Error: No such object: builder-outer''" "isNoSuchObject ''Error: No such object: builder-outer''"
    by code_simp+
  then show ?thesis by (simp add: docker_Status_def demo_supervisor demo_runner_def)
qed

lemma demo_create:
  "docker_create (NewDockerSupervisor demo_runner g bin [WithReadyTimeout t]) order spec d = (None, Some True)"
  by (simp add: docker_create_def demo_supervisor demo_runner_def RunArgs_def)

lemma demo_wait:
  assumes "\<And>u n. defaultPing g u n = (None, 0)"
  shows "waitHealthy (NewDockerSupervisor r g bin [WithReadyTimeout t]) spec parent pick now = Some (Ok ())"
  by (simp add: waitHealthy_def demo_supervisor wait_loop_ok [of _ _ 0] assms)

lemma demo_ensure: "ensureOuterContainer demo_main_env demo_url token gw False None = Some (None, Some True)"
proof -
  have ping: "defaultPing (me_get demo_main_env) u n = (None, 0)" for u n by (simp add: defaultPing_def demo_main_env_def)
  have "demo_getenv ''APPX_AGENT_SECCOMP'' \<noteq> []" by (simp add: demo_getenv_def)
  then show ?thesis
    by (simp add: ensureOuterContainer_def demo_main_env_simps Let_def EnsureRunning_def demo_Validate demo_status demo_create
        demo_wait [OF ping] absent_def)
qed

lemma demo_token:
  "fs p = None \<Longrightarrow> LoadOrCreateToken demo_token_env p fs =
     (Ok (hex_EncodeToString (replicate 32 7)), snd (LoadOrCreateToken demo_token_env p fs))"
  by (simp add: LoadOrCreateToken_def create_token_def demo_token_env_def Let_def)


end
