(* ===== verification/Appx_System.thy ===== *)
theory Appx_System
  imports Server_Invariant Appx_Main
begin

text \<open>
  The program as a whole: \<^verbatim>\<open>main\<close> from its flags to the server that listens, and what that server
  lets happen as long as nobody who talks to it knows the password.
\<close>

section \<open>From the start to the listening server\<close>

text \<open>The tables of the egress store in the database, and the decoder of the stored allowlist.\<close>

record egress_db =
  ed_faults :: egress_faults
  ed_unmarshal :: unmarshal
  ed_log :: "log_entry list"
  ed_next :: int
  ed_settings :: "string \<rightharpoonup> string"

text \<open>What \<^verbatim>\<open>main\<close> hands to the server: its stores, and registries that are still empty.\<close>

definition boot_server :: "egress_db \<Rightarrow> ('d, 'a) main_state \<Rightarrow> 'a server_state" where
  "boot_server ed s =
     \<lparr>sv_auth = ms_auth s, sv_limiter = newRateLimiter (5 * minute) 10, sv_rows = ms_rows s, sv_agent = ms_agent s,
      sv_pending = NewPendingRegistry
        (egress_NewStore (ed_faults ed) (ed_unmarshal ed) (ed_log ed) (ed_next ed) (ed_settings ed)),
      sv_local = NewLocalManager (512 * 1024)\<rparr>"

definition main_program ::
  "'d main_env \<Rightarrow> egress_db \<Rightarrow> ('k, 'c) run_env \<Rightarrow> cli_flags \<Rightarrow> (string \<Rightarrow> 'a registrar) \<Rightarrow> ('d, 'a) main_state
     \<Rightarrow> (startup_error, 'a startup \<times> ('a, 'c) run_result) result option" where
  "main_program env ed rn fg client s =
     (case main_start env fg client s of
        None \<Rightarrow> None
      | Some (Inl e, s') \<Rightarrow> Some (Err e)
      | Some (Inr su, s') \<Rightarrow> Some (Ok (su, Run rn (su_run su) (boot_server ed s') (ms_fs s'))))"

section \<open>Outsiders\<close>

text \<open>
  The server among people who do not know the password: any requests that do not carry it, with
  whatever cookies, and everything that goes on in the background.
\<close>

inductive outsider_reachable :: "'a server_config \<Rightarrow> 'a server_state \<Rightarrow> 'a server_state \<Rightarrow> bool" for cfg s0 where
  start: "outsider_reachable cfg s0 s0"
| request: "outsider_reachable cfg s0 s \<Longrightarrow> rs_Body w = NoBody \<Longrightarrow> \<not> password_offered env r (sv_auth s) \<Longrightarrow>
    NewRouter env cfg r (w, s) = (w', s') \<Longrightarrow> outsider_reachable cfg s0 s'"
| background: "outsider_reachable cfg s0 s \<Longrightarrow> background_step s s' \<Longrightarrow> outsider_reachable cfg s0 s'"

section \<open>Facts\<close>

definition unapproved :: "pending_state \<Rightarrow> bool" where
  "unapproved st \<longleftrightarrow> (\<forall>ch \<in> set (pd_chans st). True \<notin> set (ch_buf ch))"

lemma unapproved_update:
  assumes "unapproved st" "pd_chans st' = (pd_chans st)[c := ch]"
    "c < length (pd_chans st) \<Longrightarrow> True \<notin> set (ch_buf (pd_chans st ! c)) \<Longrightarrow> True \<notin> set (ch_buf ch)"
  shows "unapproved st'"
proof (cases "c < length (pd_chans st)")
  case True
  then have "True \<notin> set (ch_buf ch)" using assms(1,3) by (simp add: unapproved_def)
  then show ?thesis using assms(1) set_update_subset_insert [of "pd_chans st" c ch] unfolding unapproved_def assms(2) by blast
next
  case False
  then show ?thesis using assms(1,2) by (simp add: unapproved_def list_update_beyond)
qed

lemma unapproved_ops:
  "chan_send c False st = Some st' \<Longrightarrow> unapproved st \<Longrightarrow> unapproved st' \<and> pd_store st' = pd_store st"
  "chan_close c st = Some st' \<Longrightarrow> unapproved st \<Longrightarrow> unapproved st' \<and> pd_store st' = pd_store st"
  by (auto simp: chan_send_def chan_close_def Let_def split: if_splits elim!: unapproved_update)

lemma unapproved_denied:
  assumes "pend_Resolve fl marshal rid False st = Some (found, st')" "unapproved st"
  shows "unapproved st' \<and> pd_store st' = pd_store st"
proof -
  have "unapproved st1 \<and> pd_store st1 = pd_store st" if "pend_take rid st = Some (req, st1)" for req st1
    using that assms(2) by (auto simp: pend_take_def unapproved_def)
  then show ?thesis
    using assms unapproved_ops by (fastforce simp: pend_Resolve_def split: option.splits prod.splits Option.bind_splits)
qed

lemma no_terminal_step: "\<not> creates_terminal e \<Longrightarrow> lm_step e (NewLocalManager n) = Some lm \<Longrightarrow> lm = NewLocalManager n"
  by (induction e rule: creates_terminal.induct) (simp_all add: NewLocalManager_def lm_Subscribe_def lm_Unsubscribe_def lm_GetSession_def lm_pump_chunk_def
      lm_pump_end_def lm_Close_def)

lemma proxy_keeps_allowlist:
  "proxy_ServeHTTP ce ai r (w, es) = (w', es', acts) \<Longrightarrow> eg_allowlist es' = eg_allowlist es"
  by (auto simp: proxy_ServeHTTP_def LogEntry_def Let_def split: option.splits prod.splits if_splits hijack.splits)

text \<open>What stays as it was, while nobody is signed in and no terminal is open.\<close>

definition shut :: "'a server_state \<Rightarrow> 'a server_state \<Rightarrow> bool" where
  "shut s0 s \<longleftrightarrow> sv_rows s = sv_rows s0 \<and> sv_agent s = sv_agent s0 \<and> sv_auth s = sv_auth s0 \<and> sv_local s = sv_local s0
     \<and> eg_allowlist (egress_of s) = eg_allowlist (egress_of s0) \<and> unapproved (sv_pending s)"

lemma shut_put:
  "shut s0 s \<Longrightarrow> shut s0 (put_limiter rl s)"
  "shut s0 s \<Longrightarrow> eg_allowlist es = eg_allowlist (egress_of s) \<Longrightarrow> shut s0 (put_egress es s)"
  "shut s0 s \<Longrightarrow> unapproved st \<Longrightarrow> eg_allowlist (pd_store st) = eg_allowlist (egress_of s) \<Longrightarrow> shut s0 (put_pending st s)"
  by (simp_all add: shut_def put_limiter_def put_egress_def put_pending_def egress_of_def unapproved_def)

lemma shut_cleanup: "shut s0 s \<Longrightarrow> as_sessions (sv_auth s0) = Map.empty \<Longrightarrow> shut s0 (cleanup_tick ae fl rc s)"
proof -
  assume s: "shut s0 s" and none: "as_sessions (sv_auth s0) = Map.empty"
  have "clean_sessions ae s = s"
    using s none by (simp add: clean_sessions_def CleanExpiredSessions_def put_auth_def shut_def)
  then show ?thesis using s by (auto simp: cleanup_tick_def PruneLog_def Let_def intro!: shut_put)
qed

lemma shut_background:
  assumes "background_step s s'" "shut s0 s" "as_sessions (sv_auth s0) = Map.empty" "sv_local s0 = NewLocalManager n"
  shows "shut s0 s'"
  using assms(1,2)
proof (induction rule: background_step.induct)
  case (proxy ce r s w' es acts)
  then show ?case using proxy_keeps_allowlist by (intro shut_put) auto
next
  case (agent_asks s rnd now host port reason)
  then have "unapproved (sv_pending s)" by (simp add: shut_def)
  then show ?case using agent_asks(2) by (intro shut_put) (auto simp: pend_Add_def unapproved_def egress_of_def Let_def)
next
  case (agent_answered s c v rest)
  then have "unapproved (sv_pending s)" by (simp add: shut_def)
  then show ?case using agent_answered
    by (intro shut_put) (auto simp: egress_of_def elim!: unapproved_update)
next
  case (agent_timer fl marshal rid s found st)
  then have "unapproved (sv_pending s)" by (simp add: shut_def)
  then show ?case using unapproved_denied [OF agent_timer(1)] agent_timer(2) by (intro shut_put) (auto simp: egress_of_def)
next
  case (hourly s ae fl rc)
  then show ?case using assms(3) by (rule shut_cleanup)
next
  case (limiter s now)
  then show ?case by (rule shut_put)
next
  case (terminal e s lm)
  then have "lm = sv_local s" using no_terminal_step assms(4) by (auto simp: shut_def)
  then show ?case using terminal(3) by (simp add: put_local_def)
qed

lemma no_session: "as_sessions st = Map.empty \<Longrightarrow> \<not> authenticated ae r st"
  by (auto simp: authenticated_def ValidSession_def Let_def split: option.splits)

lemma shut_outsiders:
  assumes "outsider_reachable cfg s0 s" "as_sessions (sv_auth s0) = Map.empty" "sv_local s0 = NewLocalManager n"
    "unapproved (sv_pending s0)"
  shows "shut s0 s"
  using assms(1)
proof (induction rule: outsider_reachable.induct)
  case start
  then show ?case using assms(4) by (simp add: shut_def)
next
  case (request s w senv r w' s')
  have "\<not> authenticated (se_auth senv) r (sv_auth s)" using request.IH assms(2) by (intro no_session) (simp add: shut_def)
  then show ?case
    using NewRouter_outsider [OF request.hyps(4) request.hyps(2) _ request.hyps(3)] request.IH shut_put(1) by auto
next
  case (background s s')
  then show ?case using shut_background assms(2,3) by blast
qed

lemma init_password_done:
  "init_password env dir st fs = (None, st', fs') \<Longrightarrow>
     as_settings st' ''password_hash'' \<noteq> None \<and> as_sessions st' = as_sessions st"
  by (auto simp: init_password_def IsPasswordSet_def SetPassword_def Let_def
      split: sum.splits bool.splits option.splits prod.splits if_splits)

lemma main_start_stores:
  assumes "main_start env fg client s = Some (Ok su, s')"
  shows "ms_rows s' = ms_rows s \<and> as_settings (ms_auth s') ''password_hash'' \<noteq> None \<and> as_sessions (ms_auth s') = as_sessions (ms_auth s)"
proof -
  have "ms_rows s' = ms_rows s"
    using assms by (auto simp: main_start_def Let_def split: if_splits prod.splits sum.splits option.splits)
  then show ?thesis using main_start_Ok [OF assms] init_password_done by metis
qed

lemma Run_keeps_server:
  assumes "Run rn rc s fs = (err, Some srv, s0, fs')" "as_sessions (sv_auth s) = Map.empty"
  shows "s0 = s"
proof -
  have "clean_sessions ae s = s" for ae
    using assms(2) by (simp add: clean_sessions_def CleanExpiredSessions_def put_auth_def)
  then show ?thesis using assms(1)
    by (auto simp: Run_def runHTTP_def runWithCertMagic_def runWithSelfSigned_def Let_def
        split: if_splits option.splits prod.splits sum.splits)
qed

lemma IsAllowed_entries_only: "eg_allowlist s = eg_allowlist s' \<Longrightarrow> IsAllowed host port s = IsAllowed host port s'"
  by (simp add: IsAllowed_def)

lemma default_entries:
  "settings settingKey = None \<Longrightarrow> eg_allowlist (egress_NewStore fl um lg nxt settings)
     = eg_allowlist (egress_NewStore fl um lg nxt Map.empty)"
  by (simp add: egress_NewStore_def reloadAllowlist_def load_entries_def)

section \<open>Properties\<close>

text \<open>
  C3: From the first start on, outsiders are shut out. Let the program start with a database without
  sessions and without a saved allowlist, and let its server listen. Then a password is set, and as
  long as no request carries it - whatever else the requests contain, and whatever the agent does
  meanwhile - nobody is signed in, the password, the projects and the agent's projects are as they
  were, no terminal is open, the agent still reaches the built-in destinations and nothing else, and
  no waiting request of the agent has been approved.
\<close>

theorem outsiders_shut_out:
  assumes start: "main_program env ed rn fg client ms = Some (Ok (su, err, Some srv, s0, fs))"
    and fresh: "as_sessions (ms_auth ms) = Map.empty" "ed_settings ed settingKey = None"
    and run: "outsider_reachable (router_config (su_run su)) s0 s"
  shows "as_settings (sv_auth s) ''password_hash'' \<noteq> None \<and> sv_auth s = sv_auth s0
    \<and> as_sessions (sv_auth s) = Map.empty \<and> sv_rows s = ms_rows ms \<and> sv_agent s = sv_agent s0
    \<and> lm_sessions (sv_local s) = []
    \<and> (\<forall>host port. IsAllowed host port (egress_of s) \<longleftrightarrow>
         port = 443 \<and> (host \<in> {''api.anthropic.com'', ''api.openai.com'', ''proxy.golang.org'',
                                ''sum.golang.org'', ''registry.npmjs.org''}
            \<or> (\<exists>region. CHR ''.'' \<notin> set region \<and> host = ''bedrock-runtime.'' @ region @ ''.amazonaws.com'')))
    \<and> (\<forall>ch \<in> set (pd_chans (sv_pending s)). True \<notin> set (ch_buf ch))"
proof -
  obtain ms' where main: "main_start env fg client ms = Some (Ok su, ms')"
    and listens: "Run rn (su_run su) (boot_server ed ms') (ms_fs ms') = (err, Some srv, s0, fs)"
    using start by (auto simp: main_program_def split: option.splits prod.splits sum.splits)
  note stores = main_start_stores [OF main]
  have boot: "s0 = boot_server ed ms'"
    by (rule Run_keeps_server [OF listens]) (simp add: boot_server_def stores fresh)
  have "as_sessions (sv_auth s0) = Map.empty" "sv_local s0 = NewLocalManager (512 * 1024)" "unapproved (sv_pending s0)"
    by (simp_all add: boot boot_server_def stores fresh unapproved_def NewPendingRegistry_def)
  note shut = shut_outsiders [OF run this]
  have "eg_allowlist (egress_of s) = eg_allowlist (egress_NewStore (ed_faults ed) (ed_unmarshal ed) (ed_log ed) (ed_next ed) Map.empty)"
    using shut default_entries [of "ed_settings ed", OF fresh(2)]
    by (simp add: shut_def boot boot_server_def egress_of_def NewPendingRegistry_def)
  note allowed = IsAllowed_entries_only [OF this, unfolded default_allowlist_exact]
  show ?thesis
    using shut stores fresh unfolding shut_def unapproved_def
    by (intro conjI allI allowed) (simp_all add: boot boot_server_def NewLocalManager_def)
qed

text \<open>A first start for local development, and a stranger who asks for the projects.\<close>

definition first_flags :: cli_flags where
  "first_flags = \<lparr>fg_port = 0, fg_data = [], fg_host = [], fg_domain = [], fg_http = True, fg_recreate = False\<rparr>"

definition first_env :: "bool option main_env" where
  "first_env = demo_main_env\<lparr>me_getenv := (\<lambda>_. [])\<rparr>"

definition first_db :: egress_db where
  "first_db = \<lparr>ed_faults = no_egress_faults, ed_unmarshal = (\<lambda>_. None), ed_log = [], ed_next = 1, ed_settings = Map.empty\<rparr>"

lemma first_settings:
  "mn_containerMode (main_settings (\<lambda>_. []) first_flags) = False" "mn_http (main_settings (\<lambda>_. []) first_flags)"
  "mn_domain (main_settings (\<lambda>_. []) first_flags) = []"
proof -
  have "\<not> envBool (\<lambda>_. []) ''APPX_AGENT_CONTAINER''" by code_simp
  then show "mn_containerMode (main_settings (\<lambda>_. []) first_flags) = False" "mn_http (main_settings (\<lambda>_. []) first_flags)"
    "mn_domain (main_settings (\<lambda>_. []) first_flags) = []" by (simp_all add: main_settings_def Let_def first_flags_def)
qed

lemma first_start:
  assumes "ms_fs ms = Map.empty"
  shows "\<exists>su ms'. main_start first_env first_flags demo_client ms = Some (Ok su, ms') \<and> rc_HTTPMode (su_run su) \<and> rc_Domain (su_run su) = []"
proof -
  let ?mn = "main_settings (\<lambda>_. []) first_flags"
  obtain h fsd where db: "db_Open demo_db_env (mn_internalsDir ?mn)
      (migrateDataDir (me_renameErr demo_main_env) (mn_dataDir ?mn) (mn_internalsDir ?mn) Map.empty) = (None, h, fsd)"
    using demo_db_open by (metis prod.collapse)
  have same: "me_writeErr first_env = me_writeErr demo_main_env" "me_auth first_env = me_auth demo_main_env"
    by (simp_all add: first_env_def)
  have pw: "init_password first_env = init_password demo_main_env"
    by (rule ext)+ (unfold init_password_def same, rule refl)
  have "fst (init_password demo_main_env (mn_internalsDir ?mn) (ms_auth ms) fsd) = None"
    using demo_init_password init_password_set [of demo_main_env] by (metis demo_main_env_simps(5) fst_conv)
  then obtain st fs3 where p: "init_password demo_main_env (mn_internalsDir ?mn) (ms_auth ms) fsd = (None, st, fs3)"
    by (metis prod.collapse)
  show ?thesis
    using db p assms by (simp add: main_start_def agent_access_def project_root_error_def main_run_config_def demo_main_env_simps
        first_settings first_env_def pw [unfolded first_env_def] Let_def)
qed

theorem outsiders_shut_out_witness:
  "\<exists>su (s0 :: unit server_state). sv_rows (snd (NewRouter Server_Core.demo_env (router_config su) list_request (new_response, s0))) = []
     \<and> \<not> IsAllowed ''example.org'' 443 (egress_of (snd (NewRouter Server_Core.demo_env (router_config su) list_request (new_response, s0))))"
proof -
  obtain su ms' where m: "main_start first_env first_flags demo_client demo_main_state = Some (Ok su, ms')"
      "rc_HTTPMode (su_run su)" "rc_Domain (su_run su) = []"
    using first_start [of demo_main_state] by (auto simp: demo_main_state_def)
  obtain err srv s0 fs where "Run demo_run_env (su_run su) (boot_server first_db ms') (ms_fs ms') = (err, Some srv, s0, fs)"
    using m(2,3) by (simp add: Run_def runHTTP_def Let_def)
  then have p: "main_program first_env first_db demo_run_env first_flags demo_client demo_main_state = Some (Ok (su, err, Some srv, s0, fs))"
    using m(1) by (simp add: main_program_def)
  have fresh: "as_sessions (ms_auth demo_main_state) = Map.empty" "ed_settings first_db settingKey = None" "ms_rows demo_main_state = []"
    by (simp_all add: demo_main_state_def auth_NewStore_def first_db_def)
  let ?s = "snd (NewRouter Server_Core.demo_env (router_config (su_run su)) list_request (new_response, s0))"
  have "\<not> password_offered Server_Core.demo_env list_request (sv_auth s0)" "rs_Body new_response = NoBody"
    by (simp_all add: password_offered_def list_request_def base_request_def new_response_def)
  then have "outsider_reachable (router_config (su_run su)) s0 ?s"
    by (intro outsider_reachable.request [OF outsider_reachable.start]) (auto intro: prod.collapse [symmetric])
  note out = outsiders_shut_out [OF p fresh(1,2) this]
  have "(\<exists>region. ''example.org'' = ''bedrock-runtime.'' @ region @ ''.amazonaws.com'') = False" by simp
  with out fresh(3) have "sv_rows ?s = []" "\<not> IsAllowed ''example.org'' 443 (egress_of ?s)" by simp_all
  then show ?thesis by blast
qed

end
