(* ===== verification/Appx_Lifetime.thy ===== *)
theory Appx_Lifetime
  imports Appx_System
begin

text \<open>
  An installation over its whole life: the program is started, serves, stops - by a signal or between
  any two requests - and is started again on the same database, as often as anyone likes. What the
  database holds is the state in between; file system, containers and the agent-server's own registry
  may be found in any condition by each start. A request is one step here; what happens when the locked
  sections of several overlap is the subject of the component theories.
\<close>

section \<open>Between two runs\<close>

text \<open>
  The tables. The two stores use different keys of the settings table, so each has its part of it.
\<close>

record database =
  db_settings :: "string \<rightharpoonup> string"
  db_sessions :: "string \<rightharpoonup> instant"
  db_rows :: "project_row list"
  db_log :: "log_entry list"
  db_next :: int
  db_egress :: "string \<rightharpoonup> string"

definition empty_database :: database where
  "empty_database = \<lparr>db_settings = Map.empty, db_sessions = Map.empty, db_rows = [], db_log = [], db_next = 1,
     db_egress = Map.empty\<rparr>"

definition database_of :: "'a server_state \<Rightarrow> database" where
  "database_of s = \<lparr>db_settings = as_settings (sv_auth s), db_sessions = as_sessions (sv_auth s), db_rows = sv_rows s,
     db_log = eg_log (egress_of s), db_next = eg_next_id (egress_of s), db_egress = eg_settings (egress_of s)\<rparr>"

text \<open>What one start meets besides the database.\<close>

record ('d, 'k, 'c, 'a) boot =
  bt_env :: "'d main_env"
  bt_run :: "('k, 'c) run_env"
  bt_flags :: cli_flags
  bt_client :: "string \<Rightarrow> 'a registrar"
  bt_egress_faults :: egress_faults
  bt_fs :: file_system
  bt_docker :: 'd
  bt_agent :: 'a

definition boot_state :: "('d, 'k, 'c, 'a) boot \<Rightarrow> database \<Rightarrow> ('d, 'a) main_state" where
  "boot_state b db = \<lparr>ms_fs = bt_fs b, ms_docker = bt_docker b, ms_auth = auth_NewStore (db_settings db) (db_sessions db),
     ms_rows = db_rows db, ms_agent = bt_agent b\<rparr>"

definition boot_egress :: "unmarshal \<Rightarrow> ('d, 'k, 'c, 'a) boot \<Rightarrow> database \<Rightarrow> egress_db" where
  "boot_egress um b db = \<lparr>ed_faults = bt_egress_faults b, ed_unmarshal = um, ed_log = db_log db, ed_next = db_next db,
     ed_settings = db_egress db\<rparr>"

definition boot_program ::
  "unmarshal \<Rightarrow> ('d, 'k, 'c, 'a) boot \<Rightarrow> database \<Rightarrow> (startup_error, 'a startup \<times> ('a, 'c) run_result) result option" where
  "boot_program um b db =
     main_program (bt_env b) (boot_egress um b db) (bt_run b) (bt_flags b) (bt_client b) (boot_state b db)"

section \<open>The life of an installation\<close>

datatype 'a phase = Off database | On "'a server_config" "'a server_state"

text \<open>
  One step, labelled with the start it makes, if any. \<open>E\<close> describes the environments that requests may
  run in, \<open>um\<close> is the decoder of the stored allowlist.
\<close>

inductive life_step ::
  "unmarshal \<Rightarrow> (server_env \<Rightarrow> bool) \<Rightarrow> ('d, 'k, 'c, 'a) boot option \<Rightarrow> 'a phase \<Rightarrow> 'a phase \<Rightarrow> bool" for um E where
  starts: "boot_program um b db = Some (Ok (su, err, Some srv, s, fs)) \<Longrightarrow>
    life_step um E (Some b) (Off db) (On (router_config (su_run su)) s)"
| start_fails: "main_start (bt_env b) (bt_flags b) (bt_client b) (boot_state b db) = Some (Inl e, ms) \<Longrightarrow>
    life_step um E (Some b) (Off db) (Off (db\<lparr>db_settings := as_settings (ms_auth ms), db_sessions := as_sessions (ms_auth ms),
      db_rows := ms_rows ms\<rparr>))"
| no_listener: "boot_program um b db = Some (Ok (su, err, None, s, fs)) \<Longrightarrow>
    life_step um E (Some b) (Off db) (Off (database_of s))"
| request: "E env \<Longrightarrow> fresh_ids env s \<Longrightarrow> NewRouter env cfg r (w, s) = (w', s') \<Longrightarrow>
    life_step um E None (On cfg s) (On cfg s')"
| background: "background_step s s' \<Longrightarrow> life_step um E None (On cfg s) (On cfg s')"
| stops: "life_step um E None (On cfg s) (Off (database_of s))"

inductive lifetime ::
  "unmarshal \<Rightarrow> (server_env \<Rightarrow> bool) \<Rightarrow> ('d, 'k, 'c, 'a) boot option list \<Rightarrow> 'a phase \<Rightarrow> bool" for um E where
  installed: "lifetime um E [] (Off empty_database)"
| step: "lifetime um E ls ph \<Longrightarrow> life_step um E l ph ph' \<Longrightarrow> lifetime um E (l # ls) ph'"

section \<open>The allowlist in memory and on disk\<close>

text \<open>Reading the stored list again would give the list in memory.\<close>

definition synced :: "unmarshal \<Rightarrow> egress_store \<Rightarrow> bool" where
  "synced um es \<longleftrightarrow> eg_allowlist (reloadAllowlist no_egress_faults um es) = eg_allowlist es"

text \<open>The encoder writes what the decoder reads, and the statement that stores it succeeds.\<close>

definition reliable :: "unmarshal \<Rightarrow> server_env \<Rightarrow> bool" where
  "reliable um env \<longleftrightarrow> \<not> se_egress_faults env EgUpsertSetting
     \<and> (\<forall>xs. se_marshal env xs \<noteq> [] \<and> um (se_marshal env xs) = Some xs)"

lemma reload_eq:
  "eg_allowlist (reloadAllowlist fl um es) =
     remdups (case (if fl EgSelectSetting then None else eg_settings es settingKey) of
       None \<Rightarrow> DefaultAllowlist
     | Some v \<Rightarrow> if v = [] then DefaultAllowlist else (case um v of None \<Rightarrow> DefaultAllowlist | Some entries \<Rightarrow> entries))"
  by (simp add: reloadAllowlist_def load_entries_def Let_def split: option.split)

lemma reload_keeps [simp]:
  "eg_log (reloadAllowlist fl um es) = eg_log es" "eg_next_id (reloadAllowlist fl um es) = eg_next_id es"
  "eg_settings (reloadAllowlist fl um es) = eg_settings es"
  by (simp_all add: reloadAllowlist_def load_entries_def Let_def split: option.split)

lemma synced_cong: "eg_settings es' = eg_settings es \<Longrightarrow> eg_allowlist es' = eg_allowlist es \<Longrightarrow> synced um es' = synced um es"
  by (simp add: synced_def reload_eq)

lemma synced_NewStore: "\<not> fl EgSelectSetting \<Longrightarrow> synced um (egress_NewStore fl um lg nxt settings)"
  by (simp add: synced_def egress_NewStore_def reload_eq no_egress_faults_def)

lemma synced_SetAllowlist:
  "SetAllowlist (se_egress_faults env) (se_marshal env) entries es = (ok, es') \<Longrightarrow> reliable um env \<Longrightarrow> synced um es'"
  by (auto simp add: reliable_def synced_def reload_eq SetAllowlist_def load_entries_def no_egress_faults_def)

lemma synced_AddToAllowlist:
  "reliable um env \<Longrightarrow> synced um es \<Longrightarrow> synced um (snd (AddToAllowlist (se_egress_faults env) (se_marshal env) host port es))"
  by (simp add: AddToAllowlist_def Let_def synced_SetAllowlist [OF prod.collapse [symmetric]])

lemma synced_PruneLog [simp]: "synced um (snd (PruneLog fl now age es)) = synced um es"
  by (rule synced_cong) (simp_all add: PruneLog_def)

text \<open>What the registry of pending requests does to the store behind it.\<close>

lemma chan_ops_store:
  "chan_send c v st = Some st' \<Longrightarrow> pd_store st' = pd_store st"
  "chan_try_send c v st = Some st' \<Longrightarrow> pd_store st' = pd_store st"
  "chan_close c st = Some st' \<Longrightarrow> pd_store st' = pd_store st"
  by (auto simp: chan_send_def chan_try_send_def chan_close_def Let_def split: if_splits)

lemma pend_cleanup_store: "pend_cleanup now ids st = Some st' \<Longrightarrow> pd_store st' = pd_store st"
proof (induction now ids st rule: pend_cleanup.induct)
  case (2 now rid ids st)
  then show ?case by (auto split: option.splits if_splits Option.bind_splits dest!: chan_ops_store)
qed simp

lemma pend_Resolve_store:
  "pend_Resolve fl marshal rid approved st = Some (found, st') \<Longrightarrow>
     pd_store st' = pd_store st
   \<or> approved \<and> (\<exists>host port. pd_store st' = snd (AddToAllowlist fl marshal host port (pd_store st)))"
  by (auto simp: pend_Resolve_def pend_take_def pend_grant_def Let_def
      split: option.splits prod.splits if_splits Option.bind_splits dest!: chan_ops_store) blast

section \<open>What every handler keeps\<close>

text \<open>
  A password is set, and - if \<open>f\<close>, and where the settings are written and read back faithfully - memory
  and disk agree on the allowlist.
\<close>

definition settled :: "bool \<Rightarrow> unmarshal \<Rightarrow> server_env \<Rightarrow> 'a server_state \<Rightarrow> bool" where
  "settled f um env s \<longleftrightarrow> as_settings (sv_auth s) ''password_hash'' \<noteq> None \<and> (f \<and> reliable um env \<longrightarrow> synced um (egress_of s))"

lemma settled_update [simp]:
  "settled f um env (put_limiter rl s) = settled f um env s" "settled f um env (put_local lm s) = settled f um env s"
  "settled f um env (s\<lparr>sv_rows := rows, sv_agent := a\<rparr>) = settled f um env s"
  by (simp_all add: settled_def put_limiter_def put_local_def egress_of_def)

lemma settled_auth:
  "settled f um env s \<Longrightarrow> as_settings st ''password_hash'' \<noteq> None \<Longrightarrow> settled f um env (put_auth st s)"
  by (simp add: settled_def egress_of_def)

lemma settled_auth_same: "settled f um env s \<Longrightarrow> as_settings st = as_settings (sv_auth s) \<Longrightarrow> settled f um env (put_auth st s)"
  by (rule settled_auth) (simp_all add: settled_def)

lemma settled_auth_back: "settled f um env (put_auth st s) \<Longrightarrow> as_settings st = as_settings (sv_auth s) \<Longrightarrow> settled f um env s"
  by (simp add: settled_def egress_of_def)

lemma settled_egress:
  "settled f um env s \<Longrightarrow> (f \<Longrightarrow> reliable um env \<Longrightarrow> synced um es) \<Longrightarrow> settled f um env (put_egress es s)"
  by (simp add: settled_def put_egress_def egress_of_def)

lemma settled_pending:
  "settled f um env s \<Longrightarrow> (f \<Longrightarrow> reliable um env \<Longrightarrow> synced um (egress_of s) \<Longrightarrow> synced um (pd_store st)) \<Longrightarrow> settled f um env (put_pending st s)"
  by (simp add: settled_def put_pending_def egress_of_def)

abbreviation settles :: "bool \<Rightarrow> unmarshal \<Rightarrow> server_env \<Rightarrow> 'a server_state handler \<Rightarrow> bool" where
  "settles f um env \<equiv> meets (\<lambda>_. True) (settled f um env) (\<lambda>_. settled f um env)"

interpretation settled: limited_contract "\<lambda>_. True" "settled f um env" "\<lambda>_. settled f um env" for f um env
  by unfold_locales (simp_all add: settled_auth_same)

lemma settles_projects:
  "settles f um env (handleListProjects env cfg)" "settles f um env (handleGetProject env cfg)"
  "settles f um env (handleCreateProject env cfg)" "settles f um env (handleDeleteProject env cfg)"
  by (auto intro!: meetsI simp: handleListProjects_def handleGetProject_def handleCreateProject_def handleDeleteProject_def Let_def
      split: sum.splits option.splits prod.splits)

lemma SetPassword_hash: "SetPassword fl g pw st = (None, st') \<Longrightarrow> as_settings st' ''password_hash'' \<noteq> None"
  by (auto simp: SetPassword_def split: if_splits option.splits)

lemma CreateSession_settings: "auth_CreateSession fl sha rnd now st = (res, st') \<Longrightarrow> as_settings st' = as_settings st"
  by (auto simp: auth_CreateSession_def Let_def split: option.splits if_splits)

lemma settles_settings:
  "settles f um env (handleGetTerminalBufferSize env)" "settles f um env (handleSetTerminalBufferSize env)"
  "settles f um env (handleGetConfig domain)"
proof -
  show "settles f um env (handleGetTerminalBufferSize env)" "settles f um env (handleGetConfig domain)"
    by (simp_all add: meets_def handleGetTerminalBufferSize_def handleGetConfig_def)
  show "settles f um env (handleSetTerminalBufferSize env)"
    by (auto intro!: meetsI simp: handleSetTerminalBufferSize_def SetSetting_def settled_def egress_of_def
        split: option.splits prod.splits if_splits)
qed

lemma settles_session:
  "settles f um env (handleLogout env ck)" "settles f um env (handleLogin env ck)"
proof -
  show "settles f um env (handleLogout env ck)"
    by (auto intro!: meetsI settled_auth_same simp: handleLogout_def DeleteSession_def Let_def split: option.splits)
  show "settles f um env (handleLogin env ck)"
    by (auto intro!: meetsI settled_auth_same simp: handleLogin_def Let_def
        dest!: CreateSession_settings split: option.splits prod.splits sum.splits)
qed

lemma settles_password: "settles f um env (handleChangePassword env ck)"
proof (rule meetsI)
  fix r :: http_request and w and s :: "'a server_state"
  assume s: "settled f um env s"
  let ?s' = "snd (handleChangePassword env ck r (w, s))"
  have "as_settings (sv_auth ?s') ''password_hash'' \<noteq> None \<and> sv_pending ?s' = sv_pending s"
    using s by (auto simp: handleChangePassword_def settled_def Let_def DeleteAllSessions_def SetPassword_def
        dest!: CreateSession_settings split: option.split prod.splits sum.split if_splits)
  then show "settled f um env ?s'" using s by (simp add: settled_def egress_of_def)
qed

lemma settles_egress:
  "settles f um env (handleGetEgressLog env)" "settles f um env handleGetAllowlist" "settles f um env (handleSetAllowlist env)"
  by (auto intro!: meetsI settled_egress simp: handleGetEgressLog_def handleGetAllowlist_def handleSetAllowlist_def
      synced_SetAllowlist split: option.splits prod.splits)

lemma settles_pending: "settles f um env (handleGetEgressPending env)"
  by (auto intro!: meetsI settled_pending simp: handleGetEgressPending_def pend_List_def egress_of_def
      split: option.splits dest!: pend_cleanup_store)

lemma settles_resolve: "settles f um env (resolve_reply env approved)"
  by (auto intro!: meetsI settled_pending simp: resolve_reply_def egress_of_def Let_def synced_AddToAllowlist
      split: option.splits dest!: pend_Resolve_store)

lemma settles_shell:
  "settles f um env (handleShellCreate env)" "settles f um env (handleShellResize env)" "settles f um env (handleShellConnect env)"
  "settles f um env (handleProjectShellCreate env cfg)"
  by (auto intro!: meetsI simp: handleShellCreate_def handleShellResize_def handleShellConnect_def handleProjectShellCreate_def
      open_project_shell_def Let_def split: option.splits prod.splits sum.splits if_splits)

lemma settles_agent:
  "settles f um env (agentServerProxyHandler env url token)" "settles f um env (agentServerMirrorHandler env url token)"
  "settles f um env (spaHandler webFS)"
  by (auto intro!: meetsI simp: agentServerProxyHandler_def agentServerReverseProxy_def agentServerMirrorHandler_def
      invalid_backend_def spaHandler_def reverse_proxy_def Let_def split: option.splits sum.splits prod.splits)

lemma settles_router: "settles f um env (NewRouter env cfg)"
  by (rule settled.all_routes) (auto simp: own_handlers_def settles_projects settles_settings settles_session settles_password settles_egress
      settles_pending settles_resolve settles_shell settles_agent)

section \<open>What goes on in the background\<close>

lemma background_settings: "background_step s s' \<Longrightarrow> as_settings (sv_auth s') = as_settings (sv_auth s)"
  by (induction rule: background_step.induct)
    (auto simp: put_egress_def put_pending_def put_limiter_def put_local_def cleanup_tick_def clean_sessions_def
      CleanExpiredSessions_def Let_def)

lemma proxy_keeps_settings:
  "proxy_ServeHTTP ce ai r (w, es) = (w', es', acts) \<Longrightarrow> eg_settings es' = eg_settings es"
  by (auto simp: proxy_ServeHTTP_def LogEntry_def Let_def split: option.splits prod.splits if_splits hijack.splits)

lemma synced_background: "background_step s s' \<Longrightarrow> synced um (egress_of s) \<Longrightarrow> synced um (egress_of s')"
proof (induction rule: background_step.induct)
  case (proxy ce r w s w' es acts)
  then show ?case using synced_cong [OF proxy_keeps_settings [OF proxy(1)] proxy_keeps_allowlist [OF proxy(1)], of um] by (simp add: sv_egress_lens.get_put)
next
  case (agent_asks s rnd now host port reason)
  then show ?case by (simp add: pend_Add_def put_pending_def egress_of_def Let_def)
next
  case (agent_answered s c v rest)
  then show ?case by (simp add: put_pending_def egress_of_def)
next
  case (agent_timer fl marshal rid s found st)
  then show ?case using pend_Resolve_store [OF agent_timer(1)] by (simp add: put_pending_def egress_of_def)
next
  case (hourly s ae fl rc)
  moreover have "egress_of (clean_sessions ae s) = egress_of s" by (simp add: clean_sessions_def egress_of_def)
  ultimately show ?case by (simp add: cleanup_tick_def Let_def sv_egress_lens.get_put)
next
  case (limiter s now)
  then show ?case by (simp add: put_limiter_def egress_of_def)
next
  case (terminal e s lm)
  then show ?case by (simp add: put_local_def egress_of_def)
qed

section \<open>Starts\<close>

lemma main_start_rows: "main_start env fg client ms = Some (res, ms') \<Longrightarrow> ms_rows ms' = ms_rows ms"
  by (auto simp: main_start_def Let_def split: if_splits prod.splits sum.splits option.splits)

lemma init_password_keeps:
  "as_settings st ''password_hash'' \<noteq> None \<Longrightarrow> init_password env dir st fs = (None, st', fs') \<Longrightarrow> st' = st"
  by (cases "ae_faults (me_auth env) AsSelectPassword") (simp_all add: init_password_def IsPasswordSet_def Let_def)

text \<open>The state in which a server starts to listen.\<close>

lemma boot_program_listens:
  fixes b :: "('d, 'k, 'c, 'a) boot"
  assumes "boot_program um b db = Some (Ok (su, err, Some srv, s, fs))"
  shows "\<exists>ms' :: ('d, 'a) main_state. s = clean_sessions (rn_auth (bt_run b)) (boot_server (boot_egress um b db) ms')
    \<and> ms_rows ms' = db_rows db \<and> as_sessions (ms_auth ms') = db_sessions db \<and> as_settings (ms_auth ms') ''password_hash'' \<noteq> None
    \<and> (db_settings db ''password_hash'' \<noteq> None \<longrightarrow> as_settings (ms_auth ms') = db_settings db)"
proof -
  obtain ms' where main: "main_start (bt_env b) (bt_flags b) (bt_client b) (boot_state b db) = Some (Ok su, ms')"
    and listens: "Run (bt_run b) (su_run su) (boot_server (boot_egress um b db) ms') (ms_fs ms') = (err, Some srv, s, fs)"
    using assms by (auto simp: boot_program_def main_program_def split: option.splits prod.splits sum.splits)
  have auth: "ms_auth (boot_state b db) = auth_NewStore (db_settings db) (db_sessions db)" by (simp add: boot_state_def)
  have kept: "as_settings (ms_auth ms') = db_settings db" if "db_settings db ''password_hash'' \<noteq> None"
    using main_start_Ok [OF main] init_password_keeps that unfolding auth by (metis auth_NewStore_def auth_store.select_convs(1))
  show ?thesis
    using Run_listens(1) [OF listens] main_start_stores [OF main] kept
    by (intro exI [of _ ms']) (auto simp: boot_state_def auth_NewStore_def)
qed

lemma new_registry_simps [simp]: "pd_store (NewPendingRegistry es) = es" "pd_requests (NewPendingRegistry es) = Map.empty"
  by (simp_all add: NewPendingRegistry_def)

lemma boot_server_simps [simp]:
  "sv_rows (boot_server ed ms) = ms_rows ms" "sv_auth (boot_server ed ms) = ms_auth ms"
  "sv_pending (boot_server ed ms) = NewPendingRegistry (egress_NewStore (ed_faults ed) (ed_unmarshal ed) (ed_log ed) (ed_next ed) (ed_settings ed))"
  "sv_local (boot_server ed ms) = NewLocalManager (512 * 1024)" "sv_limiter (boot_server ed ms) = newRateLimiter (5 * minute) 10"
  by (simp_all add: boot_server_def)

lemma clean_sessions_simps [simp]:
  "sv_rows (clean_sessions ae s) = sv_rows s" "sv_pending (clean_sessions ae s) = sv_pending s"
  "sv_local (clean_sessions ae s) = sv_local s" "sv_limiter (clean_sessions ae s) = sv_limiter s"
  "as_settings (sv_auth (clean_sessions ae s)) = as_settings (sv_auth s)"
  by (simp_all add: clean_sessions_def CleanExpiredSessions_def)

lemma boot_ok:
  assumes "boot_program um b db = Some (Ok (su, err, Some srv, s, fs))" "rows_ok (db_rows db)"
  shows "server_ok s \<and> as_settings (sv_auth s) ''password_hash'' \<noteq> None
    \<and> (\<not> bt_egress_faults b EgSelectSetting \<longrightarrow> synced um (egress_of s))"
  using boot_program_listens [OF assms(1)] assms(2)
  by (elim exE conjE, hypsubst) (simp add: server_ok_def registry_ok_new lm_ok_new egress_of_def boot_egress_def synced_NewStore)

lemma boot_no_listener:
  assumes "boot_program um b db = Some (Ok (su, err, None, s, fs))"
  shows "sv_rows s = db_rows db"
  using assms
  by (auto simp: boot_program_def main_program_def Run_def runHTTP_def runWithCertMagic_def runWithSelfSigned_def Let_def boot_state_def
      dest: main_start_rows split: option.splits prod.splits sum.splits if_splits)

section \<open>The invariant of an installation\<close>

text \<open>
  \<open>f\<close> says that settings are written and read back faithfully throughout.
\<close>

fun phase_ok :: "bool \<Rightarrow> unmarshal \<Rightarrow> 'a phase \<Rightarrow> bool" where
  "phase_ok f um (Off db) \<longleftrightarrow> rows_ok (db_rows db)"
| "phase_ok f um (On cfg s) \<longleftrightarrow> server_ok s \<and> as_settings (sv_auth s) ''password_hash'' \<noteq> None \<and> (f \<longrightarrow> synced um (egress_of s))"

definition faithful :: "unmarshal \<Rightarrow> (server_env \<Rightarrow> bool) \<Rightarrow> ('d, 'k, 'c, 'a) boot option list \<Rightarrow> bool" where
  "faithful um E ls \<longleftrightarrow> (\<forall>env. E env \<longrightarrow> reliable um env) \<and> (\<forall>b. Some b \<in> set ls \<longrightarrow> \<not> bt_egress_faults b EgSelectSetting)"

lemma phase_ok_step:
  assumes "life_step um E l ph ph'" "phase_ok f um ph" "f \<Longrightarrow> faithful um E (l # ls)"
  shows "phase_ok f um ph'"
  using assms
proof (induction rule: life_step.induct)
  case (starts b db su err srv s fs)
  then show ?case using boot_ok [OF starts(1)] by (simp add: faithful_def)
next
  case (start_fails b db e ms)
  then show ?case using main_start_rows [OF start_fails(1)] by (simp add: boot_state_def)
next
  case (no_listener b db su err s fs)
  then show ?case using boot_no_listener [OF no_listener(1)] by (simp add: database_of_def)
next
  case (request env s cfg r w w' s')
  have "server_ok s'" using meetsD [OF preserves_router TrueI _ request(3)] request(2,4) by simp
  moreover have "settled f um env s'" if "settled f um env s" using meetsD [OF settles_router TrueI that request(3)] .
  ultimately show ?case using request(1,4,5) unfolding phase_ok.simps settled_def faithful_def by blast
next
  case (background s s' cfg)
  then show ?case using server_ok_background [OF background(1)] background_settings [OF background(1)] synced_background [OF background(1)]
    by simp
next
  case (stops cfg s)
  then show ?case by (simp add: database_of_def server_ok_def)
qed

lemma lifetime_ok: "lifetime um E ls ph \<Longrightarrow> (f \<Longrightarrow> faithful um E ls) \<Longrightarrow> phase_ok f um ph"
proof (induction rule: lifetime.induct)
  case installed
  then show ?case by (simp add: empty_database_def rows_ok_Nil)
next
  case (step ls ph l ph')
  then have "phase_ok f um ph" by (simp add: faithful_def)
  then show ?case using phase_ok_step step.hyps(2) step.prems by metis
qed

section \<open>Where memory and disk part\<close>

text \<open>
  The two hypotheses of \<open>faithful\<close>, and taking requests one at a time, are needed. A start that fails to
  read the setting takes the built-in list, and the next approval saves that list over the user's. Of
  two calls of \<open>SetAllowlist\<close> that overlap between saving and installing, one can end up on disk and the
  other in memory.
\<close>

lemma failed_read_loses_list:
  assumes "fl EgSelectSetting" "entry_key host port \<notin> set DefaultAllowlist"
  shows "eg_settings (snd (AddToAllowlist no_egress_faults marshal host port (egress_NewStore fl um lg nxt settings)))
    = settings(settingKey \<mapsto> marshal (DefaultAllowlist @ [entry_key host port]))"
proof -
  have "distinct DefaultAllowlist" by code_simp
  then have "remdups DefaultAllowlist = DefaultAllowlist" by (rule remdups_id_iff_distinct [THEN iffD2])
  then have "egress_NewStore fl um lg nxt settings = \<lparr>eg_log = lg, eg_next_id = nxt, eg_settings = settings, eg_allowlist = DefaultAllowlist\<rparr>"
    using assms(1) by (simp add: egress_NewStore_def reloadAllowlist_def load_entries_def)
  then show ?thesis
    using assms(2) by (simp add: AddToAllowlist_def SetAllowlist_def GetAllowlist_def load_entries_def no_egress_faults_def Let_def)
qed

lemma concurrent_sets_diverge:
  "two_adds marshal e1 e2 [True, False, False, True] (AddSave xs, AddSave ys, es)
     = (AddDone, AddDone, es\<lparr>eg_settings := (eg_settings es)(settingKey \<mapsto> marshal ys), eg_allowlist := remdups xs\<rparr>)"
  by (simp add: load_entries_def)

section \<open>Properties\<close>


lemma authenticated_clean:
  "ae_now ae \<le> ae_now ae' \<Longrightarrow> authenticated ae' r (CleanExpiredSessions (ae_faults ae) (ae_now ae) st) = authenticated ae' r st"
  by (auto simp: authenticated_def ValidSession_def CleanExpiredSessions_def Let_def split: option.split)


section \<open>An installation at work\<close>

text \<open>An encoder of lists of strings with its decoder: a 0 before every character, a 1 after every string.\<close>

definition tagged_marshal :: marshal where
  "tagged_marshal xs = CHR ''['' # concat (map (\<lambda>x. concat (map (\<lambda>c. [CHR ''0'', c]) x) @ ''1'') xs)"

fun tagged_parse :: "string \<Rightarrow> string \<Rightarrow> string list option" where
  "tagged_parse cur [] = (if cur = [] then Some [] else None)"
| "tagged_parse cur (t # v) =
     (if t = CHR ''1'' then map_option ((#) cur) (tagged_parse [] v)
      else (case v of [] \<Rightarrow> None | c # u \<Rightarrow> tagged_parse (cur @ [c]) u))"

definition tagged_unmarshal :: unmarshal where
  "tagged_unmarshal v = (case v of [] \<Rightarrow> None | _ # t \<Rightarrow> tagged_parse [] t)"

lemma tagged_parse_string:
  "tagged_parse cur (concat (map (\<lambda>c. [CHR ''0'', c]) x) @ ''1'' @ rest) = map_option ((#) (cur @ x)) (tagged_parse [] rest)"
  by (induction x arbitrary: cur) simp_all

lemma tagged_roundtrip: "tagged_unmarshal (tagged_marshal xs) = Some xs"
proof -
  have "tagged_parse [] (concat (map (\<lambda>x. concat (map (\<lambda>c. [CHR ''0'', c]) x) @ ''1'') xs)) = Some xs"
  proof (induction xs)
    case (Cons x xs)
    then show ?case
      using tagged_parse_string [of "[]" x "concat (map (\<lambda>x. concat (map (\<lambda>c. [CHR ''0'', c]) x) @ ''1'') xs)"] by simp
  qed simp
  then show ?thesis by (simp add: tagged_unmarshal_def tagged_marshal_def)
qed

definition tagged_env :: "server_env \<Rightarrow> bool" where
  "tagged_env env \<longleftrightarrow> env = Server_Core.demo_env\<lparr>se_marshal := tagged_marshal\<rparr>"

definition first_boot :: "(bool option, unit, instant, unit) boot" where
  "first_boot = \<lparr>bt_env = first_env, bt_run = demo_run_env, bt_flags = first_flags, bt_client = demo_client,
     bt_egress_faults = no_egress_faults, bt_fs = Map.empty, bt_docker = None, bt_agent = ()\<rparr>"

lemma tagged_faithful: "set ls \<subseteq> {None, Some first_boot} \<Longrightarrow> faithful tagged_unmarshal tagged_env ls"
proof -
  have m: "tagged_marshal xs \<noteq> []" for xs by (simp add: tagged_marshal_def)
  assume "set ls \<subseteq> {None, Some first_boot}"
  then show ?thesis
    by (auto simp: faithful_def tagged_env_def reliable_def first_boot_def no_egress_faults_def Server_Core.demo_env_def tagged_roundtrip m)
qed

lemma first_boots: "\<exists>su err srv s fs. boot_program um first_boot db = Some (Ok (su, err, Some srv, s, fs))"
proof -
  obtain su ms' where m: "main_start first_env first_flags demo_client (boot_state first_boot db) = Some (Ok su, ms')"
      "rc_HTTPMode (su_run su)" "rc_Domain (su_run su) = []"
    using first_start [of "boot_state first_boot db"] by (auto simp: boot_state_def first_boot_def)
  obtain err srv s fs where "Run demo_run_env (su_run su) (boot_server (boot_egress um first_boot db) ms') (ms_fs ms') = (err, Some srv, s, fs)"
    using m(2,3) by (simp add: Run_def runHTTP_def Let_def)
  moreover have "bt_env first_boot = first_env" "bt_run first_boot = demo_run_env" "bt_flags first_boot = first_flags"
    "bt_client first_boot = demo_client" by (simp_all add: first_boot_def)
  ultimately show ?thesis using m(1) by (simp add: boot_program_def main_program_def)
qed

text \<open>The server has started, and the agent has asked for a destination.\<close>

lemma asked_lifetime:
  "\<exists>cfg (s :: unit server_state). lifetime tagged_unmarshal tagged_env [None, Some first_boot] (On cfg s)
     \<and> pd_requests (sv_pending s) ''01'' \<noteq> None"
proof -
  obtain su err srv s fs where b: "boot_program tagged_unmarshal first_boot empty_database = Some (Ok (su, err, Some srv, s, fs))"
    using first_boots by blast
  let ?s = "put_pending (snd (pend_Add [1] 0 ''x.org'' 443 [] (sv_pending s))) s"
  have "sv_pending s = NewPendingRegistry (egress_of s)"
    using boot_program_listens [OF b] by (auto simp: egress_of_def)
  then have "pd_requests (sv_pending s) (randomID [1]) = None" by (metis new_registry_simps(2))
  then have "life_step tagged_unmarshal tagged_env (None :: (bool option, unit, instant, unit) boot option)
      (On (router_config (su_run su)) s) (On (router_config (su_run su)) ?s)"
    by (intro life_step.background background_step.agent_asks)
  moreover have "randomID [1] = ''01''" by code_simp
  then have "pd_requests (sv_pending ?s) ''01'' \<noteq> None" by (simp add: pend_Add_def put_pending_def Let_def)
  ultimately show ?thesis
    using lifetime.step [OF lifetime.step [OF lifetime.installed life_step.starts [OF b]]] by blast
qed



end
