(* ===== verification/Appx_SignIn.thy ===== *)
theory Appx_SignIn
  imports Appx_Lifetime
begin

text \<open>
  The way in: from the first start of the program, through the file with the first password, to an
  answered request. It composes \<open>main\<close>, the router with both multiplexers, the middleware, the sign-in
  handler and the session store.
\<close>

section \<open>Two routes\<close>

lemma login_answer:
  assumes "rq_Method r = ''POST''" "rq_EscapedPath r = ''/api/login''"
  shows "mux_answer (top_mux env cfg) r = Found (mk_route ''POST'' (api_path [Lit ''login'']) (login_handler env cfg)) []"
proof -
  have p: "path_segs ''/api/login'' = [''api'', ''login'']" "cleanPath ''/api/login'' = ''/api/login''"
    "pathUnescape ''api'' = ''api''" "pathUnescape ''login'' = ''login''" by code_simp+
  have "mux_find (top_mux env cfg) ''POST'' ''/api/login'' = Some (mk_route ''POST'' (api_path [Lit ''login'']) (login_handler env cfg), [])"
    by (simp add: mux_find_def of_method_def top_mux_def shell_routes_def mirror_routes_def mk_route_def api_path_def p Let_def)
  then show ?thesis using assms p by (simp add: mux_answer_def exactMatch_def mk_route_def api_path_def)
qed

lemma api_answer:
  assumes "rq_Method r = ''GET''" "rq_EscapedPath r = ''/api/projects''"
  shows "\<exists>ms. mux_answer (top_mux env cfg) r = Found (mk_route [] (api_path [Multi []])
        (limitBody (authMiddleware env (requireJSON (mux_ServeHTTP (api_mux env cfg)))))) ms"
    "mux_answer (api_mux env cfg) r = Found (mk_route ''GET'' (api_path [Lit ''projects'']) (handleListProjects env cfg)) []"
proof -
  let ?top = "mk_route [] (api_path [Multi []]) (limitBody (authMiddleware env (requireJSON (mux_ServeHTTP (api_mux env cfg)))))"
  have p: "path_segs ''/api/projects'' = [''api'', ''projects'']" "path_segs ''/api/projects/'' = [''api'', ''projects'', '''']"
    "cleanPath ''/api/projects'' = ''/api/projects''" "pathUnescape ''api'' = ''api''" "pathUnescape ''projects'' = ''projects''"
    "pathUnescape '''' = ''''" "HasSuffix ''/api/projects'' ''/'' = False" "HasSuffix ''/api/projects/'' ''/''"
    "count_list ''/api/projects/'' CHR ''/'' = 3" by code_simp+
  have top: "mux_find (top_mux env cfg) ''GET'' ''/api/projects'' = Some (?top, [])"
    "mux_find (top_mux env cfg) ''GET'' ''/api/projects/'' = Some (?top, [])"
    by (simp_all add: mux_find_def of_method_def top_mux_def shell_routes_def mirror_routes_def mk_route_def api_path_def p Let_def)
  show "\<exists>ms. mux_answer (top_mux env cfg) r = Found ?top ms"
    using assms top p by (auto simp: mux_answer_def exactMatch_def mk_route_def api_path_def)
  have "mux_find (api_mux env cfg) ''GET'' ''/api/projects''
      = Some (mk_route ''GET'' (api_path [Lit ''projects'']) (handleListProjects env cfg), [])"
    by (simp add: mux_find_def of_method_def api_mux_def project_routes_def settings_routes_def egress_routes_def agent_routes_def
        mk_route_def api_path_def p Let_def)
  then show "mux_answer (api_mux env cfg) r = Found (mk_route ''GET'' (api_path [Lit ''projects'']) (handleListProjects env cfg)) []"
    using assms p by (simp add: mux_answer_def exactMatch_def mk_route_def api_path_def)
qed

section \<open>Requests to the dashboard\<close>

definition at_dashboard :: "'a server_config \<Rightarrow> http_request \<Rightarrow> bool" where
  "at_dashboard cfg r \<longleftrightarrow> stripPort (rq_Host r) = cf_BaseDomain cfg"

lemma NewRouter_dashboard:
  "at_dashboard cfg r \<Longrightarrow>
     NewRouter env cfg r (w, s) = mux_ServeHTTP (top_mux env cfg) r (secured (cf_HTTPMode cfg) (cf_BaseDomain cfg) w, s)"
  by (simp add: at_dashboard_def NewRouter_def Let_def dashboard_secured)

lemma secured_fresh [simp]: "rs_Sent (secured m d new_response) = None" "rs_SetCookies (secured m d new_response) = []"
  by (simp_all add: secured_def securityHeaders_def Let_def set_header_def new_response_def)

text \<open>A POST of a password, and a GET of the list of projects with a session cookie, as a browser sends them.\<close>

definition posts_password :: "string \<Rightarrow> http_request \<Rightarrow> bool" where
  "posts_password pw r \<longleftrightarrow> rq_Method r = ''POST'' \<and> rq_EscapedPath r = ''/api/login''
     \<and> HasPrefix (header_Get (rq_Header r) ''Content-Type'') ''application/json''
     \<and> rq_Json r = Some (JObj [(''password'', JStr pw)]) \<and> rq_BodyLen r \<le> maxRequestBody \<and> rq_BodyLimit r = None"

definition gets_projects :: "string \<Rightarrow> http_request \<Rightarrow> bool" where
  "gets_projects token r \<longleftrightarrow> rq_Method r = ''GET'' \<and> rq_EscapedPath r = ''/api/projects''
     \<and> request_Cookie r ''appx_session'' = Some token"

text \<open>The middleware lets a first attempt through to the handler, whose reply depends on the password.\<close>

lemma fresh_limiter_allows: "fst (rl_allow now ip (newRateLimiter (5 * minute) 10))"
  by (simp add: rl_allow_def newRateLimiter_def rl_times_def Let_def)

lemma router_login:
  assumes "at_dashboard cfg r" "posts_password pw r" "sv_limiter s = newRateLimiter (5 * minute) 10"
    "CheckPassword (ae_faults (se_auth env)) (ae_bc_cmp (se_auth env)) pw (sv_auth s) = Ok True"
    "auth_CreateSession (ae_faults (se_auth env)) (ae_sha (se_auth env)) (ae_rnd (se_auth env)) (se_now env) (sv_auth s) = (Ok token, st)"
  shows "\<exists>rl. NewRouter env cfg r (new_response, s) =
     (writeJSON (SetSessionCookie (cf_Cookie cfg) token (secured (cf_HTTPMode cfg) (cf_BaseDomain cfg) new_response)) status_ok,
      put_auth st (put_limiter rl s))"
proof -
  note r = assms(2) [unfolded posts_password_def]
  let ?r = "r\<lparr>rq_PathValues := [], rq_BodyLimit := Some maxRequestBody\<rparr>" and ?now = "ae_now (se_auth env)"
  obtain rl where rl: "rl_allow ?now (getClientIP ?r) (sv_limiter s) = (True, rl)"
    using fresh_limiter_allows [of ?now "getClientIP ?r"] assms(3) by (metis eq_fst_iff)
  have "decode_struct ?r (string_field ''password'') = Some pw"
    using r by (simp add: decode_struct_def decode_body_def struct_fields_def string_field_def json_field_def)
  then have "handleLogin env (cf_Cookie cfg) ?r (w, put_limiter rl s) =
      (writeJSON (SetSessionCookie (cf_Cookie cfg) token w) status_ok, put_auth st (put_limiter rl s))" for w
    using assms(4,5) by (simp add: handleLogin_def Let_def put_limiter_def)
  then have "login_handler env cfg (r\<lparr>rq_PathValues := []\<rparr>) (w, s) =
      (writeJSON (SetSessionCookie (cf_Cookie cfg) token w) status_ok, put_auth st (put_limiter rl s))" for w
    using r rl by (simp add: login_handler_def limitBody_def requireJSON_def rl_middleware_def)
  then show ?thesis
    using r login_answer [of r env cfg]
    by (auto simp: NewRouter_dashboard [OF assms(1)] mux_ServeHTTP_def bindings_def mk_route_def api_path_def)
qed

text \<open>A list request is answered with the projects if the session is valid, and with 401 otherwise.\<close>

lemma router_projects:
  assumes "at_dashboard cfg r" "gets_projects token r" "\<not> se_project_faults env StSelectAll"
  shows "if authenticated (se_auth env) r (sv_auth s)
     then rs_status (fst (NewRouter env cfg r (new_response, s))) = 200
       \<and> (\<exists>js. rs_Body (fst (NewRouter env cfg r (new_response, s))) = JsonBody (JArr js) \<and> length js = length (sv_rows s))
     else rs_status (fst (NewRouter env cfg r (new_response, s))) = 401"
proof -
  note r = assms(2) [unfolded gets_projects_def]
  let ?w = "secured (cf_HTTPMode cfg) (cf_BaseDomain cfg) new_response"
  obtain ms where top: "mux_answer (top_mux env cfg) r = Found (mk_route [] (api_path [Multi []])
      (limitBody (authMiddleware env (requireJSON (mux_ServeHTTP (api_mux env cfg)))))) ms"
    using api_answer(1) r by blast
  obtain r2 where r2: "NewRouter env cfg r (new_response, s) =
      authMiddleware env (requireJSON (mux_ServeHTTP (api_mux env cfg))) r2 (?w, s)"
    "rq_Method r2 = ''GET''" "rq_EscapedPath r2 = ''/api/projects''" "rq_Cookies r2 = rq_Cookies r"
    using top r by (auto simp: NewRouter_dashboard [OF assms(1)] mux_ServeHTTP_def mk_route_def limitBody_def)
  have same: "authenticated (se_auth env) r2 (sv_auth s) = authenticated (se_auth env) r (sv_auth s)"
    using r2(4) by (rule authenticated_cong)
  show ?thesis
  proof (cases "authenticated (se_auth env) r (sv_auth s)")
    case False
    then show ?thesis using same by (simp add: r2(1) sv_auth_lens.middleware_rejects)
  next
    case True
    then show ?thesis
      using same assms(3) api_answer(2) [of r2 env cfg, OF r2(2,3)]
      by (simp add: r2(1) sv_auth_lens.middleware_accepts requireJSON_def r2(2) mux_ServeHTTP_def mk_route_def handleListProjects_def
          store_List_def Let_def) (simp add: writeJSON_def http_defs)
  qed
qed

text \<open>
  A cookie with the given token opens the list of \<open>n\<close> projects until \<open>expires\<close>; any other cookie, and the same one
  later, gets 401.
\<close>

definition opens_projects :: "(string \<Rightarrow> byte list) \<Rightarrow> 'a server_config \<Rightarrow> 'a server_state \<Rightarrow> string \<Rightarrow> instant \<Rightarrow> nat \<Rightarrow> bool" where
  "opens_projects sha cfg s token expires n \<longleftrightarrow>
     (\<forall>env r cookie. at_dashboard cfg r \<and> gets_projects cookie r \<and> ae_sha (se_auth env) = sha
         \<and> ae_faults (se_auth env) = (\<lambda>_. False) \<and> \<not> se_project_faults env StSelectAll \<longrightarrow>
       (let w = fst (NewRouter env cfg r (new_response, s)) in
        if hashToken sha cookie = hashToken sha token \<and> ae_now (se_auth env) < expires
        then rs_status w = 200 \<and> (\<exists>js. rs_Body w = JsonBody (JArr js) \<and> length js = n)
        else rs_status w = 401))"

lemma opens_projectsI:
  assumes "as_sessions (sv_auth s) = [hashToken sha token \<mapsto> expires]"
  shows "opens_projects sha cfg s token expires (length (sv_rows s))"
  unfolding opens_projects_def
proof (intro allI impI)
  fix env :: server_env and r :: http_request and cookie
  assume r: "at_dashboard cfg r \<and> gets_projects cookie r \<and> ae_sha (se_auth env) = sha
      \<and> ae_faults (se_auth env) = (\<lambda>_. False) \<and> \<not> se_project_faults env StSelectAll"
  then have "authenticated (se_auth env) r (sv_auth s) \<longleftrightarrow>
      hashToken sha cookie = hashToken sha token \<and> ae_now (se_auth env) < expires"
    by (auto simp: authenticated_def gets_projects_def ValidSession_iff assms)
  then show "let w = fst (NewRouter env cfg r (new_response, s)) in
      if hashToken sha cookie = hashToken sha token \<and> ae_now (se_auth env) < expires
      then rs_status w = 200 \<and> (\<exists>js. rs_Body w = JsonBody (JArr js) \<and> length js = length (sv_rows s))
      else rs_status w = 401"
    using r router_projects [of cfg r cookie env s] by (simp add: Let_def)
qed

section \<open>The first password's way to the user\<close>

text \<open>Making the certificate touches no other file.\<close>

lemma write_pem_frame: "write_pem te path data fs = (ok, fs') \<Longrightarrow> p \<noteq> path \<Longrightarrow> fs' p = fs p"
  by (auto simp: write_pem_def os_WriteFile_def split: option.splits)

lemma generateAndSave_frame:
  "p \<noteq> certPath \<Longrightarrow> p \<noteq> keyPath \<Longrightarrow> snd (generateAndSave te certPath keyPath hosts fs) p = fs p"
  by (simp add: generateAndSave_def write_pem_frame split: option.split prod.split bool.split)

lemma certificate_frame:
  "LoadOrGenerateSelfSigned te dir hosts fs = (res, fs') \<Longrightarrow> p \<noteq> path_Join [dir, ''cert.pem''] \<Longrightarrow> p \<noteq> path_Join [dir, ''key.pem''] \<Longrightarrow>
     fs' p = fs p"
  using generateAndSave_frame [of p "path_Join [dir, ''cert.pem'']" "path_Join [dir, ''key.pem'']" te hosts fs]
  by (auto simp: LoadOrGenerateSelfSigned_def Let_def split: option.splits if_splits)

lemma Run_frame:
  assumes "Run rn rc s fs = (err, srv, s', fs')" "p \<noteq> path_Join [rc_InternalsDir rc, ''cert.pem'']" "p \<noteq> path_Join [rc_InternalsDir rc, ''key.pem'']"
  shows "fs' p = fs p"
  using assms certificate_frame
  by (auto simp: Run_def runHTTP_def runWithCertMagic_def runWithSelfSigned_def Let_def split: if_splits option.splits prod.splits sum.splits)

lemma boot_program_config:
  assumes "boot_program um b db = Some (Ok (su, run))"
  shows "rc_InternalsDir (su_run su) = mn_internalsDir (main_settings (me_getenv (bt_env b)) (bt_flags b))"
    "rc_BaseDomain (su_run su) = mn_baseDomain (main_settings (me_getenv (bt_env b)) (bt_flags b))"
  using assms
  by (auto simp: boot_program_def main_program_def main_start_def main_run_config_def Let_def
      split: if_splits prod.splits sum.splits option.splits)

lemma first_password_served:
  assumes start: "boot_program um b db = Some (Ok (su, err, Some srv, s, fs))"
    and fresh: "db_settings db ''password_hash'' = None" "db_sessions db = Map.empty"
    and faults: "ae_faults (me_auth (bt_env b)) = (\<lambda>_. False)"
    and random: "\<And>n x. ae_rnd (me_auth (bt_env b)) n = Some x \<Longrightarrow> length x = n"
    and paths: "distinct (map (\<lambda>n. path_Join [rc_InternalsDir (su_run su), n]) [''initial_password'', ''cert.pem'', ''key.pem''])"
  obtains f pw h c where "fs (path_Join [rc_InternalsDir (su_run su), ''initial_password'']) = Some f" "fl_data f = pw @ [CHR 0x0A]"
    "length pw = 32" "ae_bc_gen (me_auth (bt_env b)) pw c = Some h" "as_settings (sv_auth s) ''password_hash'' = Some h"
    "as_sessions (sv_auth s) = Map.empty" "sv_limiter s = newRateLimiter (5 * minute) 10" "sv_rows s = db_rows db"
proof -
  obtain ms' where main: "main_start (bt_env b) (bt_flags b) (bt_client b) (boot_state b db) = Some (Ok su, ms')"
    and listens: "Run (bt_run b) (su_run su) (boot_server (boot_egress um b db) ms') (ms_fs ms') = (err, Some srv, s, fs)"
    using start by (auto simp: boot_program_def main_program_def split: option.splits prod.splits sum.splits)
  let ?dir = "mn_internalsDir (main_settings (me_getenv (bt_env b)) (bt_flags b))"
  note dir = boot_program_config(1) [OF start]
  obtain fs2 where init: "init_password (bt_env b) ?dir (auth_NewStore (db_settings db) (db_sessions db)) fs2 = (None, ms_auth ms', ms_fs ms')"
    using main by (auto simp: main_start_def boot_state_def Let_def split: if_splits prod.splits sum.splits option.splits)
  have "as_settings (auth_NewStore (db_settings db) (db_sessions db)) ''password_hash'' = None"
    by (simp add: auth_NewStore_def fresh)
  from init_password_fresh [OF init this faults random] obtain pw h where pw: "length pw = 32"
    "ae_bc_gen (me_auth (bt_env b)) pw (as_bcryptCost (auth_NewStore (db_settings db) (db_sessions db))) = Some h"
    "ms_auth ms' = (auth_NewStore (db_settings db) (db_sessions db))\<lparr>as_settings := (db_settings db)(''password_hash'' \<mapsto> h)\<rparr>"
    "ms_fs ms' = os_WriteFile (path_Join [?dir, ''initial_password'']) (pw @ [CHR 0x0A]) fs2"
    by (auto simp: auth_NewStore_def)
  have "fs (path_Join [?dir, ''initial_password'']) = ms_fs ms' (path_Join [?dir, ''initial_password''])"
    using paths by (intro Run_frame [OF listens]) (simp_all add: dir)
  moreover obtain f where "ms_fs ms' (path_Join [?dir, ''initial_password'']) = Some f" "fl_data f = pw @ [CHR 0x0A]"
    by (auto simp: pw(4) os_WriteFile_def split: option.splits)
  moreover have "as_settings (sv_auth s) ''password_hash'' = Some h" "as_sessions (sv_auth s) = Map.empty"
    "sv_limiter s = newRateLimiter (5 * minute) 10" "sv_rows s = db_rows db"
    using main_start_rows [OF main] fresh(2)
    by (simp_all add: Run_listens(1) [OF listens] pw(3) clean_sessions_def CleanExpiredSessions_def auth_NewStore_def boot_state_def)
  ultimately show thesis using that pw(1,2) by (simp add: dir)
qed

section \<open>Properties\<close>

text \<open>
  C7: Getting in. After a start with a database that has no password, the file initial_password holds a
  password of 32 characters, and it works: whoever posts it to the sign-in route of the dashboard gets
  200 and one cookie; with that cookie the list of projects is answered with all projects of the
  database until the session's lifetime is over, and with 401 from then on. A wrong cookie gets 401.
\<close>

theorem first_sign_in:
  assumes start: "boot_program um b db = Some (Ok (su, err, Some srv, s, fs))"
    and fresh: "db_settings db ''password_hash'' = None" "db_sessions db = Map.empty"
    and faults: "ae_faults (me_auth (bt_env b)) = (\<lambda>_. False)" "ae_faults (se_auth env) = (\<lambda>_. False)"
    and random: "\<And>n x. ae_rnd (me_auth (bt_env b)) n = Some x \<Longrightarrow> length x = n" "ae_rnd (se_auth env) 32 \<noteq> None"
    and bcrypt: "\<And>pw c h. ae_bc_gen (me_auth (bt_env b)) pw c = Some h \<Longrightarrow> ae_bc_cmp (se_auth env) h pw"
    and paths: "distinct (map (\<lambda>n. path_Join [rc_InternalsDir (su_run su), n]) [''initial_password'', ''cert.pem'', ''key.pem''])"
  shows "\<exists>f pw. fs (path_Join [rc_InternalsDir (su_run su), ''initial_password'']) = Some f
    \<and> fl_data f = pw @ [CHR 0x0A] \<and> length pw = 32
    \<and> (\<forall>r. at_dashboard (router_config (su_run su)) r \<and> posts_password pw r \<longrightarrow>
        (\<exists>w s1 token. NewRouter env (router_config (su_run su)) r (new_response, s) = (w, s1)
          \<and> rs_status w = 200 \<and> map ck_Value (sent_cookies w) = [token]
          \<and> opens_projects (ae_sha (se_auth env)) (router_config (su_run su)) s1 token (se_now env + sessionDuration) (length (db_rows db))))"
proof -
  obtain f pw h c where pw: "fs (path_Join [rc_InternalsDir (su_run su), ''initial_password'']) = Some f"
      "fl_data f = pw @ [CHR 0x0A]" "length pw = 32"
    and s: "ae_bc_gen (me_auth (bt_env b)) pw c = Some h" "as_settings (sv_auth s) ''password_hash'' = Some h"
      "as_sessions (sv_auth s) = Map.empty" "sv_limiter s = newRateLimiter (5 * minute) 10" "sv_rows s = db_rows db"
    using first_password_served [OF start fresh faults(1) random(1) paths] by metis
  obtain x where "ae_rnd (se_auth env) 32 = Some x" using random(2) by blast
  then obtain token st where session: "auth_CreateSession (ae_faults (se_auth env)) (ae_sha (se_auth env)) (ae_rnd (se_auth env))
      (se_now env) (sv_auth s) = (Ok token, st)"
      "as_sessions st = [hashToken (ae_sha (se_auth env)) token \<mapsto> se_now env + sessionDuration]"
    using s(3) faults(2) by (simp add: auth_CreateSession_def Let_def)
  have right: "CheckPassword (ae_faults (se_auth env)) (ae_bc_cmp (se_auth env)) pw (sv_auth s) = Ok True"
    using s(2) faults(2) bcrypt [OF s(1)] by (simp add: CheckPassword_def)
  let ?cfg = "router_config (su_run su)"
  have "\<exists>w s1 token. NewRouter env ?cfg r (new_response, s) = (w, s1) \<and> rs_status w = 200 \<and> map ck_Value (sent_cookies w) = [token]
      \<and> opens_projects (ae_sha (se_auth env)) ?cfg s1 token (se_now env + sessionDuration) (length (db_rows db))"
    if r: "at_dashboard ?cfg r \<and> posts_password pw r" for r
  proof -
    obtain rl where "NewRouter env ?cfg r (new_response, s) =
        (writeJSON (SetSessionCookie (cf_Cookie ?cfg) token (secured (cf_HTTPMode ?cfg) (cf_BaseDomain ?cfg) new_response)) status_ok,
         put_auth st (put_limiter rl s))" using router_login [OF _ _ s(4) right session(1)] r by blast
    moreover have "opens_projects (ae_sha (se_auth env)) ?cfg (put_auth st (put_limiter rl s)) token (se_now env + sessionDuration)
        (length (db_rows db))"
      using opens_projectsI [of "put_auth st (put_limiter rl s)"] session(2) s(5) by (simp add: put_limiter_def)
    ultimately show ?thesis by (simp add: sent_cookies_writeJSON)
  qed
  then show ?thesis using pw by blast
qed

text \<open>The first user of an installation for local development.\<close>

definition first_login :: "string \<Rightarrow> http_request" where
  "first_login pw = base_request\<lparr>rq_Method := ''POST'', rq_Host := ''localhost:8080'', rq_Path := ''/api/login'', rq_EscapedPath := ''/api/login'',
     rq_Header := [(''Content-Type'', ''application/json'')], rq_Json := Some (JObj [(''password'', JStr pw)]), rq_BodyLen := 49\<rparr>"

lemma first_boot_simps:
  "ae_faults (me_auth (bt_env first_boot)) = (\<lambda>_. False)" "ae_rnd (me_auth (bt_env first_boot)) = (\<lambda>n. Some (replicate n 7))"
  "ae_bc_gen (me_auth (bt_env first_boot)) = (\<lambda>p c. Some p)" "me_getenv (bt_env first_boot) = (\<lambda>_. [])" "bt_flags first_boot = first_flags"
  by (simp_all add: first_boot_def first_env_def demo_main_env_simps)

theorem first_sign_in_witness:
  "\<exists>pw cfg (s :: unit server_state). length pw = 32
     \<and> rs_status (fst (NewRouter Server_Core.demo_env cfg (first_login pw) (new_response, s))) = 200"
proof -
  obtain su err srv s fs where b: "boot_program tagged_unmarshal first_boot empty_database = Some (Ok (su, err, Some srv, s, fs))"
    using first_boots by blast
  have dir: "distinct (map (\<lambda>n. path_Join [mn_internalsDir (main_settings (\<lambda>_. []) first_flags), n]) [''initial_password'', ''cert.pem'', ''key.pem''])"
    "mn_baseDomain (main_settings (\<lambda>_. []) first_flags) = ''localhost''" by code_simp+
  have host: "stripPort ''localhost:8080'' = ''localhost''" "HasPrefix ''application/json'' ''application/json''" by code_simp+
  have db: "db_settings empty_database ''password_hash'' = None" "db_sessions empty_database = Map.empty"
    by (simp_all add: empty_database_def)
  have env: "ae_faults (se_auth Server_Core.demo_env) = (\<lambda>_. False)" "ae_rnd (se_auth Server_Core.demo_env) 32 \<noteq> None"
    "ae_bc_cmp (se_auth Server_Core.demo_env) = (\<lambda>h p. h = p)"
    by (simp_all add: Server_Core.demo_env_def demo_auth_env_def ok_faults_def)
  have r: "at_dashboard (router_config (su_run su)) (first_login pw)" "posts_password pw (first_login pw)" for pw
    using boot_program_config(2) [OF b] dir(2) host
    by (simp_all add: at_dashboard_def posts_password_def first_login_def base_request_def router_config_def first_boot_simps
        header_Get_def maxRequestBody_def)
  have "\<exists>f pw. fs (path_Join [rc_InternalsDir (su_run su), ''initial_password'']) = Some f \<and> fl_data f = pw @ [CHR 0x0A] \<and> length pw = 32
      \<and> (\<forall>r. at_dashboard (router_config (su_run su)) r \<and> posts_password pw r \<longrightarrow>
        (\<exists>w s1 token. NewRouter Server_Core.demo_env (router_config (su_run su)) r (new_response, s) = (w, s1)
          \<and> rs_status w = 200 \<and> map ck_Value (sent_cookies w) = [token]
          \<and> opens_projects (ae_sha (se_auth Server_Core.demo_env)) (router_config (su_run su)) s1 token
               (se_now Server_Core.demo_env + sessionDuration) (length (db_rows empty_database))))"
    by (rule first_sign_in [OF b db])
      (use dir env in \<open>simp_all add: first_boot_simps boot_program_config(1) [OF b]\<close>)
  then show ?thesis using r by (metis fst_conv)
qed

end
