(* ===== verification/Spec2Isabelle.thy ===== *)
theory Spec2Isabelle
  imports Ring_Buffer Terminal_Manager Terminal_Ws_Liveness Egress_Liveness Appx_SignIn
begin

text \<open>
  The appx server, verified. appx is one Go program that keeps a table of projects, proxies their web
  servers, opens terminals in them, and confines the network access of the coding agent that works on
  them. This development models the program as it is written under \<^verbatim>\<open>src/\<close>: \<^verbatim>\<open>cmd/appx\<close> and all packages
  of \<^verbatim>\<open>internal/\<close>.

  \<^bold>\<open>The parts and how they interact.\<close> \<^verbatim>\<open>main\<close> reads flags and environment, moves the data directory of an
  earlier version, opens the database, makes the first password, brings up the agent's container, and
  starts three listeners: the server for browsers, the CONNECT proxy through which the agent reaches the
  internet, and the internal listener where the agent asks for destinations that the proxy refuses. The
  browser's server authenticates, dispatches on the host (dashboard or project subdomain), and its
  handlers call the project manager (table and agent-server), the egress store, the registry of pending
  requests and the two terminal managers. Clean-up goroutines run beside all of it.

  \<^bold>\<open>The theories.\<close>

  \<^bold>\<open>Go's library\<close>, as far as the source uses it. \<open>Prelude\<close>: results of fallible functions, rule collections,
  lists and association lists. \<open>Go_Strings\<close>: \<^verbatim>\<open>strings\<close>, \<^verbatim>\<open>strconv\<close>, \<^verbatim>\<open>path.Clean\<close>, hexadecimal. \<open>Go_Net\<close>:
  addresses, \<^verbatim>\<open>SplitHostPort\<close>, \<^verbatim>\<open>ParseIP\<close> and its classes. \<open>Go_Url\<close>, \<open>Go_Http\<close>, \<open>Go_Mux\<close>, \<open>Go_Proxy\<close>: URLs,
  requests, responses, JSON values, the pattern multiplexer and the request side of the reverse proxy.
  \<open>Fair_Runs\<close>: infinite runs of a step relation, weak fairness, and the locale \<open>ranked_goroutines\<close>.

  \<^bold>\<open>Projects\<close> (\<^verbatim>\<open>internal/project\<close>, \<^verbatim>\<open>internal/agentserver\<close>). \<open>Project_Model\<close>: the record, the name grammar and
  the errors. \<open>Project_Store\<close>: each SQL statement as a function on a list of rows, with a predicate telling
  which statements the driver fails; \<open>rows_ok\<close> is kept by every statement, and the allocator of port pairs
  is proved to find the lowest two. \<open>Project_Manager\<close>: create with its rollback, delete, lookups, start-up
  reconciliation; the locale \<open>project_directory\<close> is what the callers rely on. \<open>Project_Health\<close>: one sweep as
  a function and as interleaved goroutines. \<open>Agent_Client\<close>: the requests sent and the replies understood.

  \<^bold>\<open>Authentication\<close> (\<^verbatim>\<open>internal/auth\<close>). \<open>Auth_Store\<close>: password, sessions, settings; the sessions refine a
  specification that keeps only the last use of each token (locale \<open>session_store\<close>). \<open>Auth\<close>: middleware and
  cookie, over any state that contains the store (locales \<open>state_lens\<close> and \<open>auth_lens\<close>).

  \<^bold>\<open>Egress\<close> (\<^verbatim>\<open>internal/egress\<close>). \<open>Egress_Store\<close>: allowlist, wildcards, log; locale \<open>egress_policy\<close>, and
  \<open>AddToAllowlist\<close> once more as its separately locked sections. \<open>Egress_Proxy\<close>: one CONNECT request and the
  life of a tunnel. \<open>Egress_Pending\<close>: registry and channels of capacity one, any number of waiting agents
  and resolving requests, as the step relation \<open>pend_step\<close>. \<open>Egress_Liveness\<close>: every fair run answers every
  agent. \<open>Egress_Listener\<close>: the two servers and the agent's request from body to reply.

  \<^bold>\<open>Terminals\<close> (\<^verbatim>\<open>internal/terminal\<close>). \<open>Ring_Buffer\<close>: the replay buffer (locale \<open>replay_buffer\<close>).
  \<open>Terminal_Hub\<close>: subscriber channels, fan-out and teardown. \<open>Terminal_Manager\<close>: the sessions in containers,
  with registry, index by project and pump (locale \<open>session_registry\<close>). \<open>Terminal_Local\<close>: the sessions on the
  host, which satisfy the same contract. \<open>Terminal_Container\<close>: command lines. \<open>Terminal_Ws\<close>: the WebSocket
  bridge, which steps beside the rest of the server; the locale \<open>hub_relation\<close> lifts what single operations
  on a hub keep to everything the server does. \<open>Terminal_Ws_Liveness\<close>: in fair runs a connection ends.

  \<^bold>\<open>The server\<close> (\<^verbatim>\<open>internal/server\<close>). \<open>Rate_Limiter\<close>: the limiter, which refines a specification with the whole
  history, and the client's address. \<open>Server_Core\<close>: the state all handlers share (\<open>server_state\<close>), what one
  request sees of the world (\<open>server_env\<close>), and the generic middleware. \<open>Handler_Contract\<close>: contracts of
  handlers, closed once and for all under middleware and multiplexer (locales \<open>handler_contract\<close> and
  \<open>limited_contract\<close>), so that each invariant needs one fact per handler. \<open>Server_Auth\<close>, \<open>Server_Projects\<close>,
  \<open>Server_Egress\<close>, \<open>Server_Shell\<close>, \<open>Agent_Proxy\<close>: the handlers of the files with those names. \<open>Router\<close>:
  \<open>NewRouter\<close> with both multiplexers, as one function from a request and a state to a response and a state.
  \<open>Server_Run\<close>: the cookie's domain, TLS, listening and the hourly clean-up. \<open>Server_Invariant\<close>: the
  invariant \<open>server_ok\<close> of the shared state, kept by every handler and by every step of the agent's
  connections, the clean-ups and the terminal goroutines.

  \<^bold>\<open>Starting\<close> (\<^verbatim>\<open>internal/containerruntime\<close>, \<^verbatim>\<open>internal/tls\<close>, \<^verbatim>\<open>internal/db\<close>, \<^verbatim>\<open>cmd/appx\<close>).
  \<open>Container_Spec\<close>: configuration and command line of the agent's container, and what docker reads in it.
  \<open>Container_Docker\<close>: inspection, creation, start, and the polling loop. \<open>Container_Token\<close>: the shared token
  and the bridge's gateway. \<open>Tls_SelfSigned\<close>: the certificate's names and its life on disk. \<open>Db_Open\<close>: the
  pool, its PRAGMAs and the migrations' outcome. \<open>Appx_Main\<close>: \<^verbatim>\<open>main\<close> up to the
  call of the server. \<open>Appx_System\<close>: the whole program, from its flags to the listening server.
  \<open>Appx_Lifetime\<close>: an installation over many starts and stops on one database, as the step relation
  \<open>life_step\<close>. \<open>Appx_SignIn\<close>: the way from the first password's file to an answered request.

  \<^bold>\<open>How the code is read.\<close> A struct is a record, an enumeration a datatype; a Go map is a partial function,
  or an association list where its order is observed; a slice is a list; errors are values of a datatype,
  returned in a \<open>result\<close> or an option, and a panic is \<open>None\<close>. Handlers pass the server's state explicitly.
  The statements of SQLite act on lists of rows and fail where a fault predicate says so. Locked sections
  are single steps; code that releases a lock in between is split at that point, and goroutines are
  inductive step relations whose reachable states carry the invariants. Counts and sizes are \<open>nat\<close> or \<open>int\<close>
  where the code bounds them before any arithmetic; bytes are \<open>8 word\<close>. Times are integers in nanoseconds,
  and the clock is an argument.

  \<^bold>\<open>What is an argument.\<close> What is not under \<^verbatim>\<open>src/\<close> is a parameter: bcrypt and SHA-256, random bytes, the JSON
  decoder and encoder where only some values matter, the docker command (a function from arguments to
  output, error and exit), HTTP round trips, certificate parsing and signing, name resolution, the kernel's
  success or failure to listen, dial, hijack or write. Hypotheses about them name documented behaviour: a
  hash that verifies what it hashed, docker that runs what it was told to create, tokens that are fresh.
  Each such property has a witness at a concrete instance.

  \<^bold>\<open>Termination.\<close> There is no fuel. The allocator's loop has a measure over the published range. The readiness
  loop is a \<open>partial_function\<close>, so that a loop that never ends would be \<open>None\<close>; it is proved to return
  within a number of probes given by the deadline and the polling interval. Everything else recurs on its
  data. That goroutines get to an end is a theorem about fair runs.

  \<^bold>\<open>What the properties say.\<close> \<open>Project_Store\<close>: the table of projects is consistent after any history. \<open>Router\<close>:
  nobody without a session changes or reads anything protected. \<open>Appx_System\<close>: from the first start on,
  people who do not know the password change nothing but the rate limiter, whatever the agent does
  meanwhile. \<open>Egress_Proxy\<close>: the agent's traffic reaches only allowed and external addresses.
  \<open>Egress_Pending\<close>, \<open>Egress_Liveness\<close>, \<open>Egress_Listener\<close>: its requests get at most one answer, and always get
  one. \<open>Terminal_Ws_Liveness\<close>: a closed terminal connection leaves nothing behind. \<open>Appx_Lifetime\<close>: over the whole life of an installation the state stays well-formed and nothing gets
  stuck, and a restart keeps projects, password, sessions and allowlist. \<open>Appx_SignIn\<close>: the first password
  signs in, for as long as a session lasts and no longer.
  \<open>Auth_Store\<close>, \<open>Rate_Limiter\<close>: sessions and the limiter refine their specifications. \<open>Container_Spec\<close>,
  \<open>Container_Docker\<close>, \<open>Appx_Main\<close>: the container runs without privileges and is never replaced behind the
  user's back. \<open>Project_Manager\<close>: operations on several stores are atomic or ordered. The other
  properties are the contracts of single components.

  \<^bold>\<open>Not modelled.\<close> The bytes of the SQL statements and migrations beyond the table's constraints, the bytes
  copied through a tunnel or a proxied response, the cryptography of TLS and the ACME protocol, the framing
  of WebSockets, the PTY and the exec protocol below chunks of output, parsing of durations, transport
  pooling and write deadlines, log lines, and the browser's frontend with its build and deployment files.
\<close>

end
